(* ===== verification/Mck_Prelude.thy ===== *)
theory Mck_Prelude
  imports Main "HOL-Library.Word"
begin

text \<open>
  Prelude of the development: the C types the test programs use, the constants of the Linux
  x86-64 ABI that appear in them, the collections of rewrite rules the component proofs share, and
  generic lemmas on words, lists and options.

  C's \<^verbatim>\<open>int\<close> results, file descriptors and process identifiers are \<^typ>\<open>int\<close>;
  \<^verbatim>\<open>unsigned long\<close>, \<^verbatim>\<open>size_t\<close> and pointers are 64-bit words,
  \<^verbatim>\<open>uid_t\<close> and \<^verbatim>\<open>gid_t\<close> are 32-bit words, and \<^verbatim>\<open>char\<close> in memory is an
  8-bit word (the Makefile passes \<^verbatim>\<open>-funsigned-char\<close>).
\<close>

unbundle bit_operations_syntax

subsection \<open>Types\<close>

type_synonym u8 = "8 word"
type_synonym u32 = "32 word"
type_synonym u64 = "64 word"

text \<open>The result of a test case: \<^const>\<open>None\<close> is the \<^verbatim>\<open>NULL\<close> of success, otherwise the message.\<close>

type_synonym verdict = "string option"

subsection \<open>Collections\<close>

named_theorems exec_simps \<open>equations that run a program one operation forward\<close>
named_theorems libc_defs \<open>definitions of the system call wrappers\<close>
named_theorems abi_defs \<open>numeric constants of the ABI\<close>

subsection \<open>Constants of the ABI\<close>

abbreviation (input) EPERM :: int where "EPERM \<equiv> 1"
abbreviation (input) ENOENT :: int where "ENOENT \<equiv> 2"
abbreviation (input) ESRCH :: int where "ESRCH \<equiv> 3"
abbreviation (input) EIO :: int where "EIO \<equiv> 5"
abbreviation (input) ECHILD :: int where "ECHILD \<equiv> 10"
abbreviation (input) EAGAIN :: int where "EAGAIN \<equiv> 11"
abbreviation (input) ENOMEM :: int where "ENOMEM \<equiv> 12"
abbreviation (input) EACCES :: int where "EACCES \<equiv> 13"
abbreviation (input) EFAULT :: int where "EFAULT \<equiv> 14"
abbreviation (input) EINVAL :: int where "EINVAL \<equiv> 22"
abbreviation (input) ERANGE :: int where "ERANGE \<equiv> 34"
abbreviation (input) ENOSYS :: int where "ENOSYS \<equiv> 38"

abbreviation (input) PROT_NONE :: int where "PROT_NONE \<equiv> 0"
abbreviation (input) PROT_READ :: int where "PROT_READ \<equiv> 1"
abbreviation (input) PROT_WRITE :: int where "PROT_WRITE \<equiv> 2"
abbreviation (input) PROT_EXEC :: int where "PROT_EXEC \<equiv> 4"

abbreviation (input) MAP_SHARED :: int where "MAP_SHARED \<equiv> 0x01"
abbreviation (input) MAP_PRIVATE :: int where "MAP_PRIVATE \<equiv> 0x02"
abbreviation (input) MAP_FIXED :: int where "MAP_FIXED \<equiv> 0x10"
abbreviation (input) MAP_ANONYMOUS :: int where "MAP_ANONYMOUS \<equiv> 0x20"
abbreviation (input) MAP_LOCKED :: int where "MAP_LOCKED \<equiv> 0x2000"
abbreviation (input) MAP_POPULATE :: int where "MAP_POPULATE \<equiv> 0x8000"
abbreviation (input) MAP_HUGETLB :: int where "MAP_HUGETLB \<equiv> 0x40000"

abbreviation (input) MS_SYNC :: int where "MS_SYNC \<equiv> 4"
abbreviation (input) MCL_CURRENT :: int where "MCL_CURRENT \<equiv> 1"
abbreviation (input) MCL_FUTURE :: int where "MCL_FUTURE \<equiv> 2"

abbreviation (input) MREMAP_MAYMOVE :: int where "MREMAP_MAYMOVE \<equiv> 1"
abbreviation (input) MREMAP_FIXED :: int where "MREMAP_FIXED \<equiv> 2"

abbreviation (input) O_RDONLY :: int where "O_RDONLY \<equiv> 0"
abbreviation (input) O_WRONLY :: int where "O_WRONLY \<equiv> 1"
abbreviation (input) O_RDWR :: int where "O_RDWR \<equiv> 2"
abbreviation (input) O_CREAT :: int where "O_CREAT \<equiv> 64"

abbreviation (input) SIGTRAP :: int where "SIGTRAP \<equiv> 5"
abbreviation (input) SIGKILL :: int where "SIGKILL \<equiv> 9"
abbreviation (input) SIGSTOP :: int where "SIGSTOP \<equiv> 19"
abbreviation (input) SIGBUS :: int where "SIGBUS \<equiv> 7"
abbreviation (input) SIGSEGV :: int where "SIGSEGV \<equiv> 11"

text \<open>\<^verbatim>\<open>MAP_FAILED\<close> is \<^verbatim>\<open>(void*)-1\<close>.\<close>

abbreviation (input) MAP_FAILED :: u64 where "MAP_FAILED \<equiv> - 1"

subsection \<open>C integer conversions\<close>

text \<open>\<^verbatim>\<open>(int)x\<close> for a wider integer keeps the low 32 bits and reads them as two's complement.\<close>

definition c_int :: "int \<Rightarrow> int" where
  "c_int n = signed_take_bit 31 n"

lemma c_int_id [simp]: "- 2147483648 \<le> n \<Longrightarrow> n < 2147483648 \<Longrightarrow> c_int n = n"
  unfolding c_int_def by (rule signed_take_bit_int_eq_self) simp_all

lemma c_int_range: "- 2147483648 \<le> c_int n \<and> c_int n < 2147483648"
  unfolding c_int_def
  using signed_take_bit_int_greater_eq_minus_exp [of 31 n] signed_take_bit_int_less_exp [of 31 n]
  by simp

subsection \<open>Words\<close>

lemma unat_plus_no_wrap:
  fixes a b :: "'a::len word"
  assumes "unat a + unat b < 2 ^ LENGTH('a)"
  shows "unat (a + b) = unat a + unat b"
  using assms by (simp add: unat_word_ariths)

lemma unat_of_nat_add:
  fixes a :: "'a::len word"
  assumes "unat a + n < 2 ^ LENGTH('a)"
  shows "unat (a + of_nat n) = unat a + n"
  using assms by (simp add: unat_word_ariths unat_of_nat mod_less)

lemma word_less_unat: "(a :: 'a::len word) < b \<longleftrightarrow> unat a < unat b"
  by (rule word_less_nat_alt)

lemma word_le_unat: "(a :: 'a::len word) \<le> b \<longleftrightarrow> unat a \<le> unat b"
  by (rule word_le_nat_alt)

lemma c_int_sint: "c_int (sint (w :: u64)) = sint (ucast w :: u32)"
  by (simp add: c_int_def unsigned_ucast_eq signed_take_bit_take_bit sint_uint take_bit_signed_take_bit
      unsigned_take_bit_eq)

lemma minus_one_mod_cancel: "(n mod 18446744073709551616 - 1) mod 4294967296 = (n - 1) mod (4294967296::int)"
proof -
  have "(n mod 18446744073709551616) mod 4294967296 = n mod (4294967296::int)"
    by (rule mod_mod_cancel) simp
  then show ?thesis by (metis mod_diff_left_eq)
qed

lemma word_of_c_int [simp]: "(word_of_int (c_int z) :: u32) = word_of_int z"
  by (simp add: c_int_def word_of_int_eq_iff take_bit_signed_take_bit)

subsection \<open>Lists and options\<close>

lemma find_first_match:
  "find P xs = Some x \<longleftrightarrow> (\<exists>i<length xs. xs ! i = x \<and> P x \<and> (\<forall>j<i. \<not> P (xs ! j)))"
  by (auto simp: find_Some_iff)

lemma find_map_key:
  assumes "distinct (map f xs)" "x \<in> set xs"
  shows "find (\<lambda>y. f y = f x) xs = Some x"
  using assms by (induction xs) (auto simp: image_iff)

end
