(* ===== verification/Prog.thy ===== *)
theory Prog
  imports Mck_Prelude
begin

text \<open>
  The programs of the test set and how they run.

  A test program is a tree \<^verbatim>\<open>'a prog\<close>: what it does to the world next (a system call, a memory access, a
  read or write of \<^verbatim>\<open>errno\<close> or of a file-scope variable, output) and, for every answer, how it
  goes on. The kernel under test is not part of the repository: it is the parameter
  \<^verbatim>\<open>'s kernel\<close>, a record of functions on a state type of its own about which nothing is
  assumed here. \<^verbatim>\<open>exec\<close> runs a program against a kernel to its outcome.
\<close>

subsection \<open>System calls\<close>

text \<open>
  One datatype per group of calls the sources make, with the arguments of the C prototypes. Where a
  call takes a buffer for its results, \<^const>\<open>None\<close> is a variable of the program.
\<close>

datatype cred_call =
    Getuid | Geteuid | Getgid | Getegid
  | Setuid u32 | Setgid u32
  | Setreuid u32 u32 | Setregid u32 u32
  | Setresuid u32 u32 u32 | Setresgid u32 u32 u32
  | Getresuid | Getresgid
  | Setfsuid u32 | Setfsgid u32

datatype rlim_call =
    Getrlimit int
  | Setrlimit int u64 u64

datatype sched_call =
    Sched_setscheduler int int int
  | Sched_getscheduler int
  | Sched_setparam int int
  | Sched_getparam int
  | Sched_get_priority_max int
  | Sched_get_priority_min int
  | Sched_rr_get_interval int

datatype mem_call =
    Mmap u64 u64 int int int u64
  | Munmap u64 u64
  | Mremap u64 u64 u64 int u64
  | Madvise u64 u64 int
  | Sbrk u64
  | Brk u64
  | Shmget int u64 int
  | Shmat int u64 int
  | Shmdt u64
  | Shmctl int int
  | Malloc u64
  | Free u64
  | Mprotect u64 u64 int
  | Msync u64 u64 int
  | Mlock u64 u64
  | Munlock u64 u64
  | Mlockall int
  | Munlockall
  | Mincore u64 u64 "u64 option"
  | Remap_file_pages u64 u64 int u64 int

datatype file_call =
    Open string int
  | Close int
  | Stat string
  | Fstat int
  | Read int u64
  | Write int string
  | Lseek int int int
  | Fsync int
  | Mkstemp string
  | Unlink string
  | Fopen string
  | Fclose int
  | Ioctl int int
  | Sync

text \<open>
  The requests of \<^verbatim>\<open>ptrace\<close>. An address in another process is that of a file-scope variable, which
  has the same place in a process and its copies, or a number.
\<close>

datatype taddr = AVar string | AWord u64

datatype ptrace_req =
    PT_Traceme
  | PT_Peektext taddr
  | PT_Peekdata taddr
  | PT_Peekuser taddr
  | PT_Poketext taddr u64
  | PT_Pokedata taddr u64
  | PT_Pokeuser taddr u64
  | PT_Cont
  | PT_Kill
  | PT_Singlestep
  | PT_Getfpregs
  | PT_Attach
  | PT_Detach
  | PT_Syscall
  | PT_Setoptions u64
  | PT_Geteventmsg
  | PT_Getsiginfo
  | PT_Setsiginfo int int int

datatype proc_call =
    Getpid
  | Gettid
  | Fork
  | Wait
  | Waitpid int int
  | Kill int int
  | Raise int
  | Ptrace ptrace_req int
  | Sem_init u64 nat
  | Sem_post u64
  | Sem_wait u64
  | Sleep int
  | Usleep int
  | Feraiseexcept
  | Feclearexcept

text \<open>
  The calls a Linux driver makes of the kernel it is part of; a \<^verbatim>\<open>struct cdev\<close> is named by the
  index of its device, a \<^verbatim>\<open>struct class\<close> by the handle the kernel gave.
\<close>

datatype drv_call =
    Alloc_chrdev_region int int
  | Unregister_chrdev_region u32 int
  | Class_create string
  | Class_destroy int
  | Cdev_add nat u32
  | Cdev_del nat
  | Device_create int u32 string
  | Device_destroy int u32
  | Vmalloc_user u64
  | Vfree u64
  | Proc_mkdir string
  | Proc_create string string
  | Remove_proc_entry string string
  | Remap_pfn_range u64 u64 u64
  | Copy_to_user string

datatype syscall =
    Cred cred_call
  | Rlim rlim_call
  | Sched sched_call
  | Mem mem_call
  | File file_call
  | Proc proc_call
  | Drv drv_call

text \<open>
  What a call answers: success with the return value and the values the kernel wrote through the
  pointer arguments, or an error number (the C library then returns \<^verbatim>\<open>-1\<close> and sets
  \<^verbatim>\<open>errno\<close>).
\<close>

datatype oval = OInt int | OStr string

datatype sysres = SOk int "oval list" | SErr int

fun succeeds :: "sysres \<Rightarrow> bool" where
  "succeeds (SOk v os) = True"
| "succeeds (SErr e) = False"

subsection \<open>Programs\<close>

text \<open>
  The handlers the modelled sources install for synchronous faults: the default action, ignoring
  the signal, or a function whose body is \<^verbatim>\<open>exit(n)\<close>.
\<close>

datatype sighandler = SIG_DFL | SIG_IGN | SIG_EXIT int

text \<open>Arguments of formatted output; the address of a local variable is shown by its name.\<close>

datatype fmtarg = FInt int | FStr string | FPtr u64 | FAddr string

datatype stream = Stdout | Stderr | Klog

datatype 'a prog =
    Return 'a
  | Exit int
  | Undef
  | Sys syscall "sysres \<Rightarrow> 'a prog"
  | Load u64 "u8 \<Rightarrow> 'a prog"
  | Store u64 u8 "'a prog"
  | Errno "int \<Rightarrow> 'a prog"
  | SetErrno int "'a prog"
  | Glob string "u64 \<Rightarrow> 'a prog"
  | SetGlob string u64 "'a prog"
  | GlobStr string "string \<Rightarrow> 'a prog"
  | SetGlobStr string string "'a prog"
  | Fprintf stream string "fmtarg list" "'a prog"
  | Sigaction int sighandler "sysres \<Rightarrow> 'a prog"

abbreviation Printf :: "string \<Rightarrow> fmtarg list \<Rightarrow> 'a prog \<Rightarrow> 'a prog" where
  "Printf \<equiv> Fprintf Stdout"

text \<open>Calling a function and going on with its result.\<close>

primrec call :: "'a prog \<Rightarrow> ('a \<Rightarrow> 'b prog) \<Rightarrow> 'b prog" where
  "call (Return a) f = f a"
| "call (Exit n) f = Exit n"
| "call Undef f = Undef"
| "call (Sys c k) f = Sys c (\<lambda>r. call (k r) f)"
| "call (Load a k) f = Load a (\<lambda>b. call (k b) f)"
| "call (Store a b k) f = Store a b (call k f)"
| "call (Errno k) f = Errno (\<lambda>e. call (k e) f)"
| "call (SetErrno e k) f = SetErrno e (call k f)"
| "call (Glob x k) f = Glob x (\<lambda>v. call (k v) f)"
| "call (SetGlob x v k) f = SetGlob x v (call k f)"
| "call (GlobStr x k) f = GlobStr x (\<lambda>v. call (k v) f)"
| "call (SetGlobStr x v k) f = SetGlobStr x v (call k f)"
| "call (Fprintf h fmt args k) f = Fprintf h fmt args (call k f)"
| "call (Sigaction sg h k) f = Sigaction sg h (\<lambda>r. call (k r) f)"

lemma call_assoc: "call (call p f) g = call p (\<lambda>a. call (f a) g)"
  by (induction p) simp_all

lemma call_Return_right: "call p Return = p"
  by (induction p) simp_all

subsection \<open>The kernel parameter and execution\<close>

text \<open>
  A load answers the byte, or the signal the access raises; a store answers the new state or that
  signal. \<^verbatim>\<open>k_sigaction\<close> answers the call that installs a handler.
\<close>

record 's kernel =
  k_sys :: "syscall \<Rightarrow> 's \<Rightarrow> sysres \<times> 's"
  k_load :: "u64 \<Rightarrow> 's \<Rightarrow> int + u8 \<times> 's"
  k_store :: "u64 \<Rightarrow> u8 \<Rightarrow> 's \<Rightarrow> int + 's"
  k_sigaction :: "int \<Rightarrow> 's \<Rightarrow> sysres \<times> 's"

text \<open>
  The process: the kernel's state as it sees it, its file-scope variables (numbers and pointers, and
  the strings that some of them point to), and what the C library keeps for it.
\<close>

record 's process =
  kst :: 's
  errno :: int
  globals :: "string \<Rightarrow> u64"
  gstrings :: "string \<Rightarrow> string"
  disp :: "int \<Rightarrow> sighandler"
  out :: "(stream \<times> string \<times> fmtarg list) list"

datatype 'a outcome = Returned 'a | Exited int | Killed int | Undefined

text \<open>A synchronous fault: the default action kills, an ignored one is forced to the default action.\<close>

definition fault :: "int \<Rightarrow> 's process \<Rightarrow> 'a outcome" where
  "fault sg p = (case disp p sg of SIG_EXIT n \<Rightarrow> Exited n | _ \<Rightarrow> Killed sg)"

primrec exec :: "'s kernel \<Rightarrow> 'a prog \<Rightarrow> 's process \<Rightarrow> 'a outcome \<times> 's process" where
  "exec K (Return a) p = (Returned a, p)"
| "exec K (Exit n) p = (Exited n, p)"
| "exec K Undef p = (Undefined, p)"
| "exec K (Sys c k) p =
     exec K (k (fst (k_sys K c (kst p)))) (p\<lparr>kst := snd (k_sys K c (kst p))\<rparr>)"
| "exec K (Load a k) p =
     (case k_load K a (kst p) of
        Inl sg \<Rightarrow> (fault sg p, p)
      | Inr (b, s) \<Rightarrow> exec K (k b) (p\<lparr>kst := s\<rparr>))"
| "exec K (Store a b k) p =
     (case k_store K a b (kst p) of
        Inl sg \<Rightarrow> (fault sg p, p)
      | Inr s \<Rightarrow> exec K k (p\<lparr>kst := s\<rparr>))"
| "exec K (Errno k) p = exec K (k (errno p)) p"
| "exec K (SetErrno e k) p = exec K k (p\<lparr>errno := e\<rparr>)"
| "exec K (Glob x k) p = exec K (k (globals p x)) p"
| "exec K (SetGlob x v k) p = exec K k (p\<lparr>globals := (globals p)(x := v)\<rparr>)"
| "exec K (GlobStr x k) p = exec K (k (gstrings p x)) p"
| "exec K (SetGlobStr x v k) p = exec K k (p\<lparr>gstrings := (gstrings p)(x := v)\<rparr>)"
| "exec K (Fprintf h fmt args k) p = exec K k (p\<lparr>out := out p @ [(h, fmt, args)]\<rparr>)"
| "exec K (Sigaction sg h k) p =
     (case fst (k_sigaction K sg (kst p)) of
        SOk v os \<Rightarrow> exec K (k (SOk v os))
          (p\<lparr>kst := snd (k_sigaction K sg (kst p)), disp := (disp p)(sg := h)\<rparr>)
      | SErr e \<Rightarrow> exec K (k (SErr e)) (p\<lparr>kst := snd (k_sigaction K sg (kst p))\<rparr>))"

text \<open>Running a call is running the callee and then the rest from the process it leaves.\<close>

lemma exec_call:
  "exec K (call q f) p =
     (case exec K q p of
        (Returned a, p') \<Rightarrow> exec K (f a) p'
      | (Exited n, p') \<Rightarrow> (Exited n, p')
      | (Killed sg, p') \<Rightarrow> (Killed sg, p')
      | (Undefined, p') \<Rightarrow> (Undefined, p'))"
proof (induction q arbitrary: p)
  case (Load a k)
  then show ?case
    by (auto simp: fault_def split: sum.splits prod.splits sighandler.splits)
next
  case (Store a b q)
  then show ?case
    by (auto simp: fault_def split: sum.splits prod.splits sighandler.splits)
qed (auto split: prod.splits sysres.splits outcome.splits)

lemma exec_call_Returned [exec_simps]:
  "exec K q p = (Returned a, p') \<Longrightarrow> exec K (call q f) p = exec K (f a) p'"
  by (simp add: exec_call)

subsection \<open>The assertion macro of \<^verbatim>\<open>test_mck.h\<close>\<close>

text \<open>\<^verbatim>\<open>tp_assert(test, msg)\<close> returns \<^verbatim>\<open>msg\<close> from the enclosing function when the test fails.\<close>

definition tp_assert :: "bool \<Rightarrow> string \<Rightarrow> verdict prog \<Rightarrow> verdict prog" where
  "tp_assert test msg k = (if test then k else Return (Some msg))"

text \<open>\<^verbatim>\<open>tp_assert(msg == NULL, msg)\<close>: the message of a helper is passed on.\<close>

definition tp_assert_msg :: "verdict \<Rightarrow> verdict prog \<Rightarrow> verdict prog" where
  "tp_assert_msg msg k = (case msg of None \<Rightarrow> k | Some m \<Rightarrow> Return (Some m))"

lemma tp_assert_True [simp]: "tp_assert True msg k = k"
  by (simp add: tp_assert_def)

lemma tp_assert_False [simp]: "tp_assert False msg k = Return (Some msg)"
  by (simp add: tp_assert_def)

lemma tp_assert_msg_simps [simp]:
  "tp_assert_msg None k = k"
  "tp_assert_msg (Some m) k = Return (Some m)"
  by (simp_all add: tp_assert_msg_def)

lemma exec_tp_assert:
  "exec K (tp_assert t msg k) p = (if t then exec K k p else (Returned (Some msg), p))"
  by simp

text \<open>A test passes an assertion exactly when the test holds and the rest passes.\<close>

lemma passes_tp_assert:
  "fst (exec K (tp_assert t msg k) p) = Returned None \<longleftrightarrow> t \<and> fst (exec K k p) = Returned None"
  by (cases t) simp_all

subsection \<open>Programs that print nothing\<close>

primrec silent :: "'a prog \<Rightarrow> bool" where
  "silent (Return a) = True"
| "silent (Exit n) = True"
| "silent Undef = True"
| "silent (Sys c k) = (\<forall>r. silent (k r))"
| "silent (Load a k) = (\<forall>b. silent (k b))"
| "silent (Store a b k) = silent k"
| "silent (Errno k) = (\<forall>e. silent (k e))"
| "silent (SetErrno e k) = silent k"
| "silent (Glob x k) = (\<forall>v. silent (k v))"
| "silent (SetGlob x v k) = silent k"
| "silent (GlobStr x k) = (\<forall>v. silent (k v))"
| "silent (SetGlobStr x v k) = silent k"
| "silent (Fprintf h fmt args k) = False"
| "silent (Sigaction sg h k) = (\<forall>r. silent (k r))"

lemma silent_out: "silent q \<Longrightarrow> out (snd (exec K q p)) = out p"
proof (induction q arbitrary: p)
  case (Load a k)
  then show ?case by (cases "k_load K a (kst p)") (auto split: prod.split)
next
  case (Store a b q)
  then show ?case by (cases "k_store K a b (kst p)") auto
next
  case (Sigaction sg h k)
  then show ?case by (cases "fst (k_sigaction K sg (kst p))") auto
qed auto

lemma silent_call: "silent q \<Longrightarrow> (\<And>a. silent (f a)) \<Longrightarrow> silent (call q f)"
  by (induction q) auto

lemma silent_tp_assert: "silent k \<Longrightarrow> silent (tp_assert t msg k)"
  by (simp add: tp_assert_def)

lemma silent_tp_assert_msg: "silent k \<Longrightarrow> silent (tp_assert_msg v k)"
  by (simp add: tp_assert_msg_def split: option.split)

end
