(* ===== verification/Clib.thy ===== *)
theory Clib
  imports Prog "HOL-Library.Multiset"
begin

text \<open>
  The C library as the sources use it: number conversion (\<^verbatim>\<open>strtoll\<close>, \<^verbatim>\<open>strtol\<close>,
  \<^verbatim>\<open>atoi\<close>, the \<^verbatim>\<open>%d\<close> of \<^verbatim>\<open>printf\<close>), option parsing (\<^verbatim>\<open>getopt\<close> and
  \<^verbatim>\<open>getopt_long\<close> with the argument permutation of the GNU library), line input and string search,
  and the wrappers that turn a system call's answer into a return value and \<^verbatim>\<open>errno\<close>.
\<close>

subsection \<open>Numbers\<close>

definition isspace :: "char \<Rightarrow> bool" where
  "isspace c \<longleftrightarrow> c \<in> {CHR '' '', CHR 0x09, CHR 0x0A, CHR 0x0B, CHR 0x0C, CHR 0x0D}"

definition dig :: "char \<Rightarrow> nat option" where
  "dig c = (let n = of_char c :: nat in
     if 48 \<le> n \<and> n \<le> 57 then Some (n - 48)
     else if 97 \<le> n \<and> n \<le> 122 then Some (n - 87)
     else if 65 \<le> n \<and> n \<le> 90 then Some (n - 55)
     else None)"

definition is_dig :: "nat \<Rightarrow> char \<Rightarrow> bool" where
  "is_dig b c = (case dig c of None \<Rightarrow> False | Some d \<Rightarrow> d < b)"

definition digits_val :: "nat \<Rightarrow> string \<Rightarrow> nat" where
  "digits_val b cs = foldl (\<lambda>a c. a * b + the (dig c)) 0 cs"

text \<open>The magnitude with the base resolved; \<^const>\<open>None\<close> when there is no digit to convert.\<close>

definition strto_mag :: "nat \<Rightarrow> string \<Rightarrow> nat option" where
  "strto_mag base s =
     (let (b, t) =
        (if (base = 0 \<or> base = 16) \<and> length s > 2 \<and> s ! 0 = CHR ''0''
              \<and> (s ! 1 = CHR ''x'' \<or> s ! 1 = CHR ''X'') \<and> is_dig 16 (s ! 2) then (16, drop 2 s)
         else if base \<noteq> 0 then (base, s)
         else if s \<noteq> [] \<and> hd s = CHR ''0'' then (8, s) else (10, s));
          ds = takeWhile (is_dig b) t
      in if ds = [] then None else Some (digits_val b ds))"

definition strto_int :: "nat \<Rightarrow> string \<Rightarrow> int option" where
  "strto_int base s =
     (case dropWhile isspace s of
        [] \<Rightarrow> None
      | c # t \<Rightarrow>
          if c = CHR ''-'' then map_option (\<lambda>n. - int n) (strto_mag base t)
          else if c = CHR ''+'' then map_option int (strto_mag base t)
          else map_option int (strto_mag base (c # t)))"

abbreviation (input) LONG_MAX :: int where "LONG_MAX \<equiv> 9223372036854775807"
abbreviation (input) LONG_MIN :: int where "LONG_MIN \<equiv> - 9223372036854775808"

text \<open>
  The value, whether nothing was converted (\<^verbatim>\<open>endptr == nptr\<close>), and whether \<^verbatim>\<open>errno\<close> is set
  to \<^verbatim>\<open>ERANGE\<close>. \<^verbatim>\<open>long\<close> and \<^verbatim>\<open>long long\<close> have the same range, so \<^verbatim>\<open>strtol\<close> is the
  same function.
\<close>

definition strtoll :: "nat \<Rightarrow> string \<Rightarrow> int \<times> bool \<times> bool" where
  "strtoll base s =
     (case strto_int base s of
        None \<Rightarrow> (0, True, False)
      | Some v \<Rightarrow>
          if v > LONG_MAX then (LONG_MAX, False, True)
          else if v < LONG_MIN then (LONG_MIN, False, True)
          else (v, False, False))"

text \<open>\<^verbatim>\<open>strtoul\<close> and \<^verbatim>\<open>strtoull\<close>: a minus sign negates in the unsigned type.\<close>

definition strtoul :: "nat \<Rightarrow> string \<Rightarrow> u64" where
  "strtoul base s =
     (case strto_int base s of
        None \<Rightarrow> 0
      | Some v \<Rightarrow> if 2 ^ 64 \<le> \<bar>v\<bar> then - 1 else word_of_int v)"

definition atoi :: "string \<Rightarrow> int" where
  "atoi s = c_int (fst (strtoll 10 s))"

text \<open>\<^verbatim>\<open>%d\<close> of a non-negative number, and of any number.\<close>

fun dec_nat :: "nat \<Rightarrow> string" where
  "dec_nat n = (if n < 10 then [char_of (48 + n)] else dec_nat (n div 10) @ [char_of (48 + n mod 10)])"

declare dec_nat.simps [simp del]

definition dec_int :: "int \<Rightarrow> string" where
  "dec_int i = (if i < 0 then CHR ''-'' # dec_nat (nat (- i)) else dec_nat (nat i))"

subsection \<open>Option parsing\<close>

text \<open>
  Whether an option character is in the option string, and whether it takes an argument. The
  option strings of the sources have no leading \<^verbatim>\<open>+\<close>, \<^verbatim>\<open>-\<close> or \<^verbatim>\<open>:\<close> and no \<^verbatim>\<open>::\<close>.
\<close>

fun opt_arity :: "string \<Rightarrow> char \<Rightarrow> bool option" where
  "opt_arity [] c = None"
| "opt_arity (o1 # os) c =
     (if o1 = c \<and> c \<noteq> CHR '':'' then Some (os \<noteq> [] \<and> hd os = CHR '':'') else opt_arity os c)"

type_synonym optres = "char \<times> string option"

text \<open>
  One argument \<^verbatim>\<open>-abc\<close>: what \<^verbatim>\<open>getopt\<close> returns for it, one result per character, and
  whether the next element of \<^verbatim>\<open>argv\<close> was taken as the last option's argument.
\<close>

fun opt_cluster :: "string \<Rightarrow> string \<Rightarrow> string list \<Rightarrow> optres list \<times> bool" where
  "opt_cluster os [] rest = ([], False)"
| "opt_cluster os (c # cs) rest =
     (case opt_arity os c of
        None \<Rightarrow> apfst (Cons (CHR ''?'', None)) (opt_cluster os cs rest)
      | Some False \<Rightarrow> apfst (Cons (c, None)) (opt_cluster os cs rest)
      | Some True \<Rightarrow>
          if cs \<noteq> [] then ([(c, Some cs)], False)
          else (case rest of
                  [] \<Rightarrow> ([(CHR ''?'', None)], False)
                | a # _ \<Rightarrow> ([(c, Some a)], True)))"

text \<open>
  Long options: an exact name, or a prefix that fits one name only; the value after \<^verbatim>\<open>=\<close> or in the
  next element. All long options of the sources take an argument.
\<close>

type_synonym longopt = "string \<times> char"

definition long_match :: "longopt list \<Rightarrow> string \<Rightarrow> char option" where
  "long_match ls nm =
     (case filter (\<lambda>(n, _). n = nm) ls of
        (_, v) # _ \<Rightarrow> Some v
      | [] \<Rightarrow> (case filter (\<lambda>(n, _). take (length nm) n = nm) ls of
                 [(_, v)] \<Rightarrow> Some v
               | _ \<Rightarrow> None))"

definition opt_long :: "longopt list \<Rightarrow> string \<Rightarrow> string list \<Rightarrow> optres list \<times> bool" where
  "opt_long ls s rest =
     (let nm = takeWhile (\<lambda>c. c \<noteq> CHR ''='') s; v = dropWhile (\<lambda>c. c \<noteq> CHR ''='') s
      in case long_match ls nm of
           None \<Rightarrow> ([(CHR ''?'', None)], False)
         | Some c \<Rightarrow>
             if v \<noteq> [] then ([(c, Some (tl v))], False)
             else (case rest of
                     [] \<Rightarrow> ([(CHR ''?'', None)], False)
                   | a # _ \<Rightarrow> ([(c, Some a)], True)))"

text \<open>
  All results of the calls \<^verbatim>\<open>getopt(argc, argv, os)\<close> until it returns \<^verbatim>\<open>-1\<close>, on the arguments
  after \<^verbatim>\<open>argv[0]\<close>: the results, the elements scanned as options, and the rest. The GNU library
  moves the elements that are not options behind those that are; \<^verbatim>\<open>--\<close> ends the options.
\<close>

definition opt_elem :: "longopt list option \<Rightarrow> string \<Rightarrow> string \<Rightarrow> string list \<Rightarrow> optres list \<times> bool" where
  "opt_elem lo os a rest =
     (case lo of
        Some ls \<Rightarrow> (if a ! 1 = CHR ''-'' then opt_long ls (drop 2 a) rest else opt_cluster os (tl a) rest)
      | None \<Rightarrow> opt_cluster os (tl a) rest)"

fun getopt_scan :: "longopt list option \<Rightarrow> string \<Rightarrow> string list \<Rightarrow> optres list \<times> string list \<times> string list"
where
  "getopt_scan lo os [] = ([], [], [])"
| "getopt_scan lo os (a # as) =
     (if a = ''--'' then ([], [a], as)
      else if length a > 1 \<and> hd a = CHR ''-'' then
        (let (rs, taken) = opt_elem lo os a as;
             n = (if taken then 1 else 0);
             (rs', es, ns) = getopt_scan lo os (drop n as)
         in (rs @ rs', a # take n as @ es, ns))
      else (let (rs, es, ns) = getopt_scan lo os as in (rs, es, a # ns)))"

text \<open>The loop over \<^verbatim>\<open>getopt\<close>: its results, \<^verbatim>\<open>argv\<close> as it is left, and \<^verbatim>\<open>optind\<close>.\<close>

definition getopt_all :: "longopt list option \<Rightarrow> string \<Rightarrow> string list \<Rightarrow> optres list \<times> string list \<times> nat" where
  "getopt_all lo os argv =
     (case argv of
        [] \<Rightarrow> ([], [], 1)
      | a0 # as \<Rightarrow> (case getopt_scan lo os as of (rs, es, ns) \<Rightarrow> (rs, a0 # es @ ns, 1 + length es)))"

subsection \<open>Strings and streams\<close>

text \<open>\<^verbatim>\<open>fgets(buf, n, fp)\<close>: at most \<^verbatim>\<open>n-1\<close> bytes, up to and including a newline.\<close>

fun fgets_split :: "nat \<Rightarrow> string \<Rightarrow> string \<times> string" where
  "fgets_split 0 s = ([], s)"
| "fgets_split (Suc n) [] = ([], [])"
| "fgets_split (Suc n) (c # s) =
     (if c = CHR 0x0A then ([c], s) else apfst (Cons c) (fgets_split n s))"

definition fgets :: "nat \<Rightarrow> string \<Rightarrow> (string \<times> string) option" where
  "fgets n s = (if s = [] then None else Some (fgets_split (n - 1) s))"

lemma fgets_split_length: "length (fst (fgets_split n s)) + length (snd (fgets_split n s)) = length s"
  by (induction n s rule: fgets_split.induct) simp_all

lemma fgets_split_fst: "s \<noteq> [] \<Longrightarrow> fst (fgets_split (Suc n) s) \<noteq> []"
  by (cases s) simp_all

lemma fgets_shorter: "fgets n s = Some (a, b) \<Longrightarrow> 2 \<le> n \<Longrightarrow> length b < length s"
  using fgets_split_length [of "n - 1" s] fgets_split_fst [of s "n - 2"]
  by (cases a) (auto simp: fgets_def Suc_diff_Suc numeral_2_eq_2 split: if_splits)

fun strstr :: "string \<Rightarrow> string \<Rightarrow> bool" where
  "strstr [] t = (t = [])"
| "strstr (c # s) t = (take (length t) (c # s) = t \<or> strstr s t)"

text \<open>\<^verbatim>\<open>strrchr(s, c)\<close>: what follows the last occurrence.\<close>

definition strrchr_next :: "string \<Rightarrow> char \<Rightarrow> string option" where
  "strrchr_next s c = (if c \<in> set s then Some (rev (takeWhile (\<lambda>x. x \<noteq> c) (rev s))) else None)"

subsection \<open>System call wrappers\<close>

definition sys_int :: "syscall \<Rightarrow> (int \<Rightarrow> 'a prog) \<Rightarrow> 'a prog" where
  "sys_int c k = Sys c (\<lambda>r. case r of SOk v os \<Rightarrow> k v | SErr e \<Rightarrow> SetErrno e (k (- 1)))"

definition sys_ptr :: "syscall \<Rightarrow> (u64 \<Rightarrow> 'a prog) \<Rightarrow> 'a prog" where
  "sys_ptr c k = sys_int c (\<lambda>v. k (word_of_int v))"

text \<open>A number the kernel wrote, read as an \<^verbatim>\<open>unsigned long\<close>.\<close>

definition oval_u64 :: "oval \<Rightarrow> u64" where
  "oval_u64 x = (case x of OInt i \<Rightarrow> word_of_int i | OStr _ \<Rightarrow> 0)"

lemma oval_u64_OInt [simp]: "oval_u64 (OInt i) = word_of_int i"
  by (simp add: oval_u64_def)

text \<open>Calls with out-parameters: on failure, and where the kernel wrote nothing, the variables keep their values.\<close>

definition sys_out :: "syscall \<Rightarrow> oval list \<Rightarrow> (int \<Rightarrow> oval list \<Rightarrow> 'a prog) \<Rightarrow> 'a prog" where
  "sys_out c old k =
     Sys c (\<lambda>r. case r of
        SOk v os \<Rightarrow> k v (if length os = length old then os else old)
      | SErr e \<Rightarrow> SetErrno e (k (- 1) old))"

text \<open>\<^verbatim>\<open>free\<close> answers nothing.\<close>

definition free :: "u64 \<Rightarrow> 'a prog \<Rightarrow> 'a prog" where
  "free a k = Sys (Mem (Free a)) (\<lambda>_. k)"

lemma exec_free [exec_simps]: "exec K (free a k) p = exec K k (p\<lparr>kst := snd (k_sys K (Mem (Free a)) (kst p))\<rparr>)"
  by (simp add: free_def)

lemma exec_sys_int [exec_simps]:
  "exec K (sys_int c k) p =
     (case fst (k_sys K c (kst p)) of
        SOk v os \<Rightarrow> exec K (k v) (p\<lparr>kst := snd (k_sys K c (kst p))\<rparr>)
      | SErr e \<Rightarrow> exec K (k (- 1)) (p\<lparr>kst := snd (k_sys K c (kst p)), errno := e\<rparr>))"
  by (simp add: sys_int_def split: sysres.split)

lemma exec_sys_ptr [exec_simps]:
  "exec K (sys_ptr c k) p =
     (case fst (k_sys K c (kst p)) of
        SOk v os \<Rightarrow> exec K (k (word_of_int v)) (p\<lparr>kst := snd (k_sys K c (kst p))\<rparr>)
      | SErr e \<Rightarrow> exec K (k (- 1)) (p\<lparr>kst := snd (k_sys K c (kst p)), errno := e\<rparr>))"
  by (simp add: sys_ptr_def exec_sys_int split: sysres.split)

lemma exec_sys_out [exec_simps]:
  "exec K (sys_out c old k) p =
     (case fst (k_sys K c (kst p)) of
        SOk v os \<Rightarrow> exec K (k v (if length os = length old then os else old)) (p\<lparr>kst := snd (k_sys K c (kst p))\<rparr>)
      | SErr e \<Rightarrow> exec K (k (- 1) old) (p\<lparr>kst := snd (k_sys K c (kst p)), errno := e\<rparr>))"
  by (simp add: sys_out_def split: sysres.split)

lemma call_sys_int [simp]: "call (sys_int c k) f = sys_int c (\<lambda>v. call (k v) f)"
proof -
  have "call (case r of SOk v os \<Rightarrow> k v | SErr e \<Rightarrow> SetErrno e (k (- 1))) f
      = (case r of SOk v os \<Rightarrow> call (k v) f | SErr e \<Rightarrow> SetErrno e (call (k (- 1)) f))" for r
    by (cases r) simp_all
  then show ?thesis by (simp add: sys_int_def)
qed

lemma call_sys_ptr [simp]: "call (sys_ptr c k) f = sys_ptr c (\<lambda>v. call (k v) f)"
  by (simp add: sys_ptr_def)

subsection \<open>Memory\<close>

text \<open>\<^verbatim>\<open>memset(a, c, n)\<close>, ascending.\<close>

primrec memset :: "nat \<Rightarrow> u64 \<Rightarrow> u8 \<Rightarrow> 'a prog \<Rightarrow> 'a prog" where
  "memset 0 a c k = k"
| "memset (Suc n) a c k = Store a c (memset n (a + 1) c k)"

lemma call_memset [simp]: "call (memset n a c k) f = memset n a c (call k f)"
  by (induction n arbitrary: a) simp_all

text \<open>\<^verbatim>\<open>memcmp(a, buf, n)\<close> where \<^verbatim>\<open>buf\<close> is a variable of the program that holds \<^verbatim>\<open>bs\<close>.\<close>

primrec memcmp_buf :: "u8 list \<Rightarrow> u64 \<Rightarrow> (int \<Rightarrow> 'a prog) \<Rightarrow> 'a prog" where
  "memcmp_buf [] a k = k 0"
| "memcmp_buf (b # bs) a k = Load a (\<lambda>c. if c = b then memcmp_buf bs (a + 1) k else k (if c < b then - 1 else 1))"

subsection \<open>Facts about the library functions\<close>

lemma dig_char_of: "d < 10 \<Longrightarrow> dig (char_of (48 + d)) = Some d"
  by (simp add: dig_def)

lemma is_dig_char_of: "(d::nat) < 10 \<Longrightarrow> is_dig 10 (char_of (48 + d))"
  by (simp add: is_dig_def dig_char_of)

lemma dec_nat_ne [simp]: "dec_nat n \<noteq> []"
  by (subst dec_nat.simps) simp

lemma dec_nat_digits: "c \<in> set (dec_nat n) \<Longrightarrow> is_dig 10 c"
proof (induction n rule: dec_nat.induct)
  case (1 n)
  then show ?case
    by (subst (asm) (2) dec_nat.simps) (auto split: if_splits intro: is_dig_char_of)
qed

lemma digits_val_snoc: "digits_val b (cs @ [c]) = digits_val b cs * b + the (dig c)"
  by (simp add: digits_val_def)

lemma digits_val_dec_nat: "digits_val 10 (dec_nat n) = n"
proof (induction n rule: dec_nat.induct)
  case (1 n)
  show ?case
  proof (cases "n < 10")
    case True
    then show ?thesis
      by (subst dec_nat.simps) (simp add: digits_val_def dig_char_of)
  next
    case False
    with 1 have "digits_val 10 (dec_nat (n div 10)) = n div 10" by simp
    with False show ?thesis
      by (subst dec_nat.simps) (simp add: digits_val_snoc dig_char_of)
  qed
qed

lemma not_dig_sign: "\<not> is_dig 10 (CHR ''-'')" "\<not> is_dig 10 (CHR ''+'')"
  by (simp_all add: is_dig_def dig_def)

lemma not_dig_space: "isspace c \<Longrightarrow> \<not> is_dig 10 c"
  by (auto simp: isspace_def is_dig_def dig_def)

lemma takeWhile_dec_nat [simp]: "takeWhile (is_dig 10) (dec_nat n) = dec_nat n"
  by (simp add: takeWhile_eq_all_conv dec_nat_digits)

lemma strto_mag_dec: "strto_mag 10 (dec_nat n) = Some n"
  by (simp add: strto_mag_def Let_def digits_val_dec_nat)

text \<open>Printing with \<^verbatim>\<open>%d\<close> and reading back with \<^verbatim>\<open>strtol\<close> gives the number.\<close>

lemma strto_int_dec: "strto_int 10 (dec_int i) = Some i"
proof (cases "i < 0")
  case True
  then show ?thesis
    by (simp add: strto_int_def dec_int_def isspace_def strto_mag_dec)
next
  case False
  obtain c t where ct: "dec_nat (nat i) = c # t"
    by (cases "dec_nat (nat i)") auto
  have c: "is_dig 10 c" using dec_nat_digits [of c "nat i"] ct by simp
  with not_dig_space not_dig_sign have "\<not> isspace c" "c \<noteq> CHR ''-''" "c \<noteq> CHR ''+''"
    by metis+
  with False ct strto_mag_dec [of "nat i"] show ?thesis
    by (simp add: strto_int_def dec_int_def)
qed

lemma atoi_dec: "- 2147483648 \<le> i \<Longrightarrow> i < 2147483648 \<Longrightarrow> atoi (dec_int i) = i"
  by (simp add: atoi_def strtoll_def strto_int_dec)

text \<open>The same for \<^verbatim>\<open>strtoll\<close> with base 0, which decimal numbers do not leave.\<close>

lemma hd_dec_nat: "hd (dec_nat n) = CHR ''0'' \<longleftrightarrow> n = 0"
proof (induction n rule: dec_nat.induct)
  case (1 n)
  show ?case
  proof (cases "n < 10")
    case True
    have "char_of (48 + n) = CHR ''0'' \<longleftrightarrow> 48 + n = 48"
      using True by (simp add: char_of_eq_iff take_bit_eq_mod)
    with True show ?thesis by (subst dec_nat.simps) simp
  next
    case False
    with 1 have "hd (dec_nat (n div 10)) = CHR ''0'' \<longleftrightarrow> n div 10 = 0" by simp
    with False show ?thesis by (subst dec_nat.simps) (simp add: hd_append div_eq_0_iff)
  qed
qed

lemma strto_mag_0_dec: "strto_mag 0 (dec_nat n) = Some n"
proof (cases "n = 0")
  case True
  have "dec_nat 0 = ''0''" by (subst dec_nat.simps) (simp add: char_of_eq_iff)
  with True show ?thesis by (simp add: strto_mag_def is_dig_def dig_def digits_val_def)
next
  case False
  then have h: "dec_nat n ! 0 \<noteq> CHR ''0''" using hd_dec_nat [of n] by (simp add: hd_conv_nth)
  then show ?thesis using hd_dec_nat [of n] False by (simp add: strto_mag_def digits_val_dec_nat)
qed

lemma strto_int_0_dec: "strto_int 0 (dec_nat n) = Some (int n)"
proof -
  obtain c t where ct: "dec_nat n = c # t" by (cases "dec_nat n") auto
  have c: "is_dig 10 c" using dec_nat_digits [of c n] ct by simp
  with not_dig_space not_dig_sign have "\<not> isspace c" "c \<noteq> CHR ''-''" "c \<noteq> CHR ''+''"
    by metis+
  with ct strto_mag_0_dec [of n] show ?thesis by (simp add: strto_int_def)
qed

text \<open>Lines, searching, and reading back a number followed by a newline.\<close>

lemma fgets_split_line:
  "CHR 0x0A \<notin> set l \<Longrightarrow> length l < n \<Longrightarrow> fgets_split n (l @ CHR 0x0A # rest) = (l @ [CHR 0x0A], rest)"
proof (induction l arbitrary: n)
  case Nil
  then show ?case by (cases n) simp_all
next
  case (Cons c l)
  then obtain m where "n = Suc m" by (cases n) auto
  with Cons show ?case by auto
qed

lemma fgets_line:
  "CHR 0x0A \<notin> set l \<Longrightarrow> length l + 1 < n \<Longrightarrow> fgets n (l @ CHR 0x0A # rest) = Some (l @ [CHR 0x0A], rest)"
  by (simp add: fgets_def fgets_split_line)

lemma strstr_subset: "strstr s t \<Longrightarrow> set t \<subseteq> set s"
proof (induction s t rule: strstr.induct)
  case (2 c s t)
  then show ?case by (metis set_take_subset strstr.simps(2) set_subset_Cons subset_trans)
qed simp

lemma strstr_prefix: "strstr (t @ s) t"
  by (metis append_eq_conv_conj list.exhaust strstr.simps append_is_Nil_conv)

lemma strrchr_next_append: "c \<notin> set b \<Longrightarrow> strrchr_next (a @ c # b) c = Some b"
proof -
  assume "c \<notin> set b"
  then have "takeWhile (\<lambda>x. x \<noteq> c) (rev b @ c # rev a) = rev b" by (subst takeWhile_append2) auto
  then show ?thesis by (simp add: strrchr_next_def)
qed

lemma length_dec_nat: "0 < k \<Longrightarrow> n < 10 ^ k \<Longrightarrow> length (dec_nat n) \<le> k"
proof (induction n arbitrary: k rule: dec_nat.induct)
  case (1 n)
  show ?case
  proof (cases "n < 10")
    case True
    then show ?thesis using 1(2) by (subst dec_nat.simps) simp
  next
    case False
    with 1(3) have k: "1 < k" by (cases k; cases "k - 1") auto
    have "n div 10 < 10 ^ (k - 1)" using 1(3) k by (cases k) (auto simp: less_mult_imp_div_less mult.commute)
    with 1(1) [OF False, of "k - 1"] k False show ?thesis by (subst dec_nat.simps) simp
  qed
qed

lemma dec_nat_not_special: "c \<in> set (dec_nat n) \<Longrightarrow> c \<notin> {CHR 0x0A, CHR 0x09, CHR ''G'', CHR ''U''}"
  using dec_nat_digits [of c n] by (auto simp: is_dig_def dig_def)

lemma atoi_dec_newline: "n < 2 ^ 32 \<Longrightarrow> atoi (dec_nat n @ [CHR 0x0A]) = c_int (int n)"
proof -
  assume n: "n < 2 ^ 32"
  obtain c t where ct: "dec_nat n = c # t" by (cases "dec_nat n") auto
  have "\<not> isspace c" "c \<noteq> CHR ''-''" "c \<noteq> CHR ''+''"
    using dec_nat_digits [of c n] not_dig_space not_dig_sign ct by auto
  moreover have "takeWhile (is_dig 10) (dec_nat n @ [CHR 0x0A]) = dec_nat n"
    using dec_nat_digits [of _ n] by (subst takeWhile_append2) (auto simp: is_dig_def dig_def)
  then have "strto_mag 10 (dec_nat n @ [CHR 0x0A]) = Some n"
    by (simp add: strto_mag_def digits_val_dec_nat)
  ultimately have "strto_int 10 (dec_nat n @ [CHR 0x0A]) = Some (int n)"
    by (simp add: strto_int_def ct)
  with n show ?thesis by (simp add: atoi_def strtoll_def)
qed

text \<open>Nothing of \<^verbatim>\<open>argv\<close> is lost by the permutation, and what \<^verbatim>\<open>optind\<close> points to are the operands.\<close>

lemma getopt_scan_perm:
  "getopt_scan lo os as = (rs, es, ns) \<Longrightarrow> mset es + mset ns = mset as"
proof (induction lo os as arbitrary: rs es ns rule: getopt_scan.induct)
  case (2 lo os a as)
  consider (ddash) "a = ''--''"
    | (opt) "a \<noteq> ''--''" "length a > 1 \<and> hd a = CHR ''-''"
    | (operand) "a \<noteq> ''--''" "\<not> (length a > 1 \<and> hd a = CHR ''-'')"
    by blast
  then show ?case
  proof cases
    case ddash
    with "2.prems" show ?thesis by auto
  next
    case opt
    obtain rs0 taken where el: "opt_elem lo os a as = (rs0, taken)" by fastforce
    define n where "n = (if taken then 1 else 0 :: nat)"
    obtain rs1 es1 ns1 where rec: "getopt_scan lo os (drop n as) = (rs1, es1, ns1)"
      by (metis prod_cases3)
    have "mset es1 + mset ns1 = mset (drop n as)"
      using "2.IH"(1)[OF opt(1) opt(2) el [symmetric] refl n_def, of rs1 es1 ns1] rec by simp
    moreover have "mset (take n as) + mset (drop n as) = mset as"
      by (metis append_take_drop_id mset_append)
    moreover from "2.prems" opt el rec have "es = a # take n as @ es1" "ns = ns1"
      by (auto simp: n_def Let_def split: if_splits)
    ultimately show ?thesis by (simp add: union_commute add.assoc [symmetric])
  next
    case operand
    with "2.prems" "2.IH"(2) show ?thesis by (auto split: prod.splits if_splits)
  qed
qed simp

subsection \<open>Silent library functions\<close>

lemma silent_sys_int: "(\<And>v. silent (k v)) \<Longrightarrow> silent (sys_int c k)"
  by (auto simp: sys_int_def split: sysres.split)

lemma silent_sys_ptr: "(\<And>v. silent (k v)) \<Longrightarrow> silent (sys_ptr c k)"
  by (simp add: sys_ptr_def silent_sys_int)

lemma silent_memset: "silent k \<Longrightarrow> silent (memset n a c k)"
  by (induction n arbitrary: a) simp_all

lemmas silent_intros = silent_call silent_sys_int silent_sys_ptr silent_memset silent_tp_assert silent_tp_assert_msg

end
