(* ===== verification/Kernel_Spec.thy ===== *)
theory Kernel_Spec
  imports Clib
begin

text \<open>
  What the manual pages document of the calls the tests make, as abstract machines: one state
  record and one step function per group of calls, and a relation where the kernel has a choice. A
  kernel \<^emph>\<open>conforms\<close> through a view of its state when every call answers as the machine does and
  moves the view as the machine moves. These predicates are hypotheses of the theorems about the
  test programs, never facts about a particular kernel; the last section builds one kernel from
  the machines and shows that all hypotheses hold of it together.
\<close>

abbreviation (input) EBADF :: int where "EBADF \<equiv> 9"

text \<open>The kernel answers a group of calls as a machine does, seen through \<^verbatim>\<open>view\<close>.\<close>

definition simulates ::
  "'s kernel \<Rightarrow> ('c \<Rightarrow> syscall) \<Rightarrow> ('c \<Rightarrow> bool) \<Rightarrow> ('s \<Rightarrow> 'm) \<Rightarrow> ('c \<Rightarrow> 'm \<Rightarrow> sysres \<times> 'm) \<Rightarrow> bool" where
  "simulates K grp ok view step \<longleftrightarrow>
     (\<forall>c s. ok c \<longrightarrow> fst (k_sys K (grp c) s) = fst (step c (view s)) \<and>
            view (snd (k_sys K (grp c) s)) = snd (step c (view s)))"

lemma simulates_fst:
  "simulates K grp ok view step \<Longrightarrow> ok c \<Longrightarrow> fst (k_sys K (grp c) s) = fst (step c (view s))"
  by (simp add: simulates_def)

lemma simulates_snd:
  "simulates K grp ok view step \<Longrightarrow> ok c \<Longrightarrow> view (snd (k_sys K (grp c) s)) = snd (step c (view s))"
  by (simp add: simulates_def)

text \<open>A call that leaves a view alone.\<close>

definition preserves :: "'s kernel \<Rightarrow> syscall \<Rightarrow> ('s \<Rightarrow> 'm) \<Rightarrow> bool" where
  "preserves K c view \<longleftrightarrow> (\<forall>s. view (snd (k_sys K c s)) = view s)"

lemma preservesD: "preserves K c view \<Longrightarrow> view (snd (k_sys K c s)) = view s"
  by (simp add: preserves_def)

subsection \<open>Credentials (setuid(2), setreuid(2), setresuid(2), setfsuid(2), credentials(7))\<close>

record ids =
  rid :: u32
  eid :: u32
  sid :: u32
  fsid :: u32

record cred =
  uids :: ids
  gids :: ids

definition privileged :: "cred \<Rightarrow> bool" where
  "privileged c \<longleftrightarrow> eid (uids c) = 0"

text \<open>The argument \<^verbatim>\<open>-1\<close> leaves an identifier unchanged.\<close>

definition keep :: "u32 \<Rightarrow> u32 \<Rightarrow> u32" where
  "keep new old = (if new = - 1 then old else new)"

definition allowed :: "bool \<Rightarrow> u32 set \<Rightarrow> u32 \<Rightarrow> bool" where
  "allowed priv S x \<longleftrightarrow> priv \<or> x = - 1 \<or> x \<in> S"

definition ids_set :: "bool \<Rightarrow> u32 \<Rightarrow> ids \<Rightarrow> sysres \<times> ids" where
  "ids_set priv u i =
     (if u = - 1 then (SErr EINVAL, i)
      else if priv then (SOk 0 [], \<lparr>rid = u, eid = u, sid = u, fsid = u\<rparr>)
      else if u = rid i \<or> u = sid i then (SOk 0 [], i\<lparr>eid := u, fsid := u\<rparr>)
      else (SErr EPERM, i))"

definition ids_setre :: "bool \<Rightarrow> u32 \<Rightarrow> u32 \<Rightarrow> ids \<Rightarrow> sysres \<times> ids" where
  "ids_setre priv r e i =
     (if allowed priv {rid i, eid i} r \<and> allowed priv {rid i, eid i, sid i} e
      then (SOk 0 [],
            \<lparr>rid = keep r (rid i), eid = keep e (eid i),
             sid = (if r \<noteq> - 1 \<or> (e \<noteq> - 1 \<and> e \<noteq> rid i) then keep e (eid i) else sid i),
             fsid = keep e (eid i)\<rparr>)
      else (SErr EPERM, i))"

definition ids_setres :: "bool \<Rightarrow> u32 \<Rightarrow> u32 \<Rightarrow> u32 \<Rightarrow> ids \<Rightarrow> sysres \<times> ids" where
  "ids_setres priv r e s i =
     (let S = {rid i, eid i, sid i} in
      if allowed priv S r \<and> allowed priv S e \<and> allowed priv S s
      then (SOk 0 [], \<lparr>rid = keep r (rid i), eid = keep e (eid i), sid = keep s (sid i),
                       fsid = keep e (eid i)\<rparr>)
      else (SErr EPERM, i))"

text \<open>\<^verbatim>\<open>setfsuid\<close> always answers the previous identifier.\<close>

definition ids_setfs :: "bool \<Rightarrow> u32 \<Rightarrow> ids \<Rightarrow> sysres \<times> ids" where
  "ids_setfs priv f i =
     (SOk (c_int (uint (fsid i))) [],
      if f \<noteq> - 1 \<and> (priv \<or> f \<in> {rid i, eid i, sid i, fsid i}) then i\<lparr>fsid := f\<rparr> else i)"

definition ids_out :: "ids \<Rightarrow> oval list" where
  "ids_out i = [OInt (uint (rid i)), OInt (uint (eid i)), OInt (uint (sid i))]"

definition on_uids :: "cred \<Rightarrow> sysres \<times> ids \<Rightarrow> sysres \<times> cred" where
  "on_uids c x = (fst x, c\<lparr>uids := snd x\<rparr>)"

definition on_gids :: "cred \<Rightarrow> sysres \<times> ids \<Rightarrow> sysres \<times> cred" where
  "on_gids c x = (fst x, c\<lparr>gids := snd x\<rparr>)"

fun cred_step :: "cred_call \<Rightarrow> cred \<Rightarrow> sysres \<times> cred" where
  "cred_step Getuid c = (SOk (uint (rid (uids c))) [], c)"
| "cred_step Geteuid c = (SOk (uint (eid (uids c))) [], c)"
| "cred_step Getgid c = (SOk (uint (rid (gids c))) [], c)"
| "cred_step Getegid c = (SOk (uint (eid (gids c))) [], c)"
| "cred_step (Setuid u) c = on_uids c (ids_set (privileged c) u (uids c))"
| "cred_step (Setgid g) c = on_gids c (ids_set (privileged c) g (gids c))"
| "cred_step (Setreuid r e) c = on_uids c (ids_setre (privileged c) r e (uids c))"
| "cred_step (Setregid r e) c = on_gids c (ids_setre (privileged c) r e (gids c))"
| "cred_step (Setresuid r e s) c = on_uids c (ids_setres (privileged c) r e s (uids c))"
| "cred_step (Setresgid r e s) c = on_gids c (ids_setres (privileged c) r e s (gids c))"
| "cred_step Getresuid c = (SOk 0 (ids_out (uids c)), c)"
| "cred_step Getresgid c = (SOk 0 (ids_out (gids c)), c)"
| "cred_step (Setfsuid f) c = on_uids c (ids_setfs (privileged c) f (uids c))"
| "cred_step (Setfsgid f) c = on_gids c (ids_setfs (privileged c) f (gids c))"

definition conforms_cred :: "'s kernel \<Rightarrow> ('s \<Rightarrow> cred) \<Rightarrow> bool" where
  "conforms_cred K view \<longleftrightarrow>
     simulates K Cred (\<lambda>_. True) view cred_step"

lemma conforms_credD:
  assumes "conforms_cred K view"
  shows "fst (k_sys K (Cred c) s) = fst (cred_step c (view s))"
    and "view (snd (k_sys K (Cred c) s)) = snd (cred_step c (view s))"
  using assms by (auto simp: conforms_cred_def simulates_def)

text \<open>\<^verbatim>\<open>/proc/PID/status\<close> (proc(5)): a line with the four user identifiers, then one for groups.\<close>

definition id_line :: "string \<Rightarrow> ids \<Rightarrow> string" where
  "id_line key i =
     key @ [CHR 0x09] @ dec_nat (unat (rid i)) @ [CHR 0x09] @ dec_nat (unat (eid i)) @ [CHR 0x09] @
     dec_nat (unat (sid i)) @ [CHR 0x09] @ dec_nat (unat (fsid i))"

definition other_line :: "string \<Rightarrow> bool" where
  "other_line l \<longleftrightarrow> CHR 0x0A \<notin> set l \<and> length l < 1000 \<and>
     \<not> strstr (l @ [CHR 0x0A]) ''Uid:'' \<and> \<not> strstr (l @ [CHR 0x0A]) ''Gid:''"

definition unlines :: "string list \<Rightarrow> string" where
  "unlines ls = concat (map (\<lambda>l. l @ [CHR 0x0A]) ls)"

definition status_content :: "cred \<Rightarrow> string \<Rightarrow> bool" where
  "status_content c s \<longleftrightarrow>
     (\<exists>pre post. list_all other_line pre \<and>
        s = unlines (pre @ [id_line ''Uid:'' (uids c), id_line ''Gid:'' (gids c)]) @ post)"

definition proc_status_file :: "int \<Rightarrow> string" where
  "proc_status_file pid = ''/proc/'' @ dec_int pid @ ''/status''"

text \<open>
  Reading that file: the process sees its own status under its own identifier, and closing the
  stream succeeds.
\<close>

definition conforms_status :: "'s kernel \<Rightarrow> ('s \<Rightarrow> cred) \<Rightarrow> int \<Rightarrow> bool" where
  "conforms_status K view pid \<longleftrightarrow>
     (\<forall>s. fst (k_sys K (Proc Getpid) s) = SOk pid []) \<and> preserves K (Proc Getpid) view \<and>
     (\<forall>s. \<exists>fp content. fst (k_sys K (File (Fopen (proc_status_file pid))) s) = SOk fp [OStr content] \<and>
        status_content (view s) content) \<and>
     (\<forall>fp s. fst (k_sys K (File (Fclose fp)) s) = SOk 0 [])"

subsection \<open>Resource limits (getrlimit(2))\<close>

record rlimit =
  rlim_cur :: u64
  rlim_max :: u64

abbreviation (input) RLIM_NLIMITS :: int where "RLIM_NLIMITS \<equiv> 16"

record rlims =
  rlim_of :: "int \<Rightarrow> rlimit"
  rlim_priv :: bool

definition rlim_valid :: "int \<Rightarrow> bool" where
  "rlim_valid res \<longleftrightarrow> 0 \<le> res \<and> res < RLIM_NLIMITS"

fun rlim_step :: "rlim_call \<Rightarrow> rlims \<Rightarrow> sysres \<times> rlims" where
  "rlim_step (Getrlimit res) l =
     (if rlim_valid res
      then (SOk 0 [OInt (uint (rlim_cur (rlim_of l res))), OInt (uint (rlim_max (rlim_of l res)))], l)
      else (SErr EINVAL, l))"
| "rlim_step (Setrlimit res cur mx) l =
     (if \<not> rlim_valid res \<or> mx < cur then (SErr EINVAL, l)
      else if rlim_max (rlim_of l res) < mx \<and> \<not> rlim_priv l then (SErr EPERM, l)
      else (SOk 0 [], l\<lparr>rlim_of := (rlim_of l)(res := \<lparr>rlim_cur = cur, rlim_max = mx\<rparr>)\<rparr>))"

definition conforms_rlim :: "'s kernel \<Rightarrow> ('s \<Rightarrow> rlims) \<Rightarrow> bool" where
  "conforms_rlim K view \<longleftrightarrow>
     simulates K Rlim (\<lambda>_. True) view rlim_step"

lemma conforms_rlimD:
  assumes "conforms_rlim K view"
  shows "fst (k_sys K (Rlim c) s) = fst (rlim_step c (view s))"
    and "view (snd (k_sys K (Rlim c) s)) = snd (rlim_step c (view s))"
  using assms by (auto simp: conforms_rlim_def simulates_def)

subsection \<open>Scheduling (sched(7), sched_setscheduler(2), sched_rr_get_interval(2))\<close>

abbreviation (input) SCHED_OTHER :: int where "SCHED_OTHER \<equiv> 0"
abbreviation (input) SCHED_FIFO :: int where "SCHED_FIFO \<equiv> 1"
abbreviation (input) SCHED_RR :: int where "SCHED_RR \<equiv> 2"
abbreviation (input) SCHED_BATCH :: int where "SCHED_BATCH \<equiv> 3"

text \<open>
  The calling process, its policy and priority, and what the kernel reports as the quantum, in
  nanoseconds, of a round-robin process and of a process of a non-real-time policy.
\<close>

record sched =
  own_pid :: int
  policy :: int
  prio :: int
  rr_quantum :: int
  other_quantum :: int
  sched_priv :: bool

definition policy_valid :: "int \<Rightarrow> bool" where
  "policy_valid pol \<longleftrightarrow> pol \<in> {0, 1, 2, 3}"

definition prio_min :: "int \<Rightarrow> int" where
  "prio_min pol = (if pol = SCHED_FIFO \<or> pol = SCHED_RR then 1 else 0)"

definition prio_max :: "int \<Rightarrow> int" where
  "prio_max pol = (if pol = SCHED_FIFO \<or> pol = SCHED_RR then 99 else 0)"

definition own :: "int \<Rightarrow> sched \<Rightarrow> bool" where
  "own pid s \<longleftrightarrow> pid = 0 \<or> pid = own_pid s"

fun sched_step :: "sched_call \<Rightarrow> sched \<Rightarrow> sysres \<times> sched" where
  "sched_step (Sched_setscheduler pid pol pr) s =
     (if \<not> own pid s then (SErr ESRCH, s)
      else if \<not> policy_valid pol \<or> pr < prio_min pol \<or> prio_max pol < pr then (SErr EINVAL, s)
      else if \<not> sched_priv s \<and> 0 < pr then (SErr EPERM, s)
      else (SOk 0 [], s\<lparr>policy := pol, prio := pr\<rparr>))"
| "sched_step (Sched_getscheduler pid) s =
     (if \<not> own pid s then (SErr ESRCH, s) else (SOk (policy s) [], s))"
| "sched_step (Sched_setparam pid pr) s =
     (if \<not> own pid s then (SErr ESRCH, s)
      else if pr < prio_min (policy s) \<or> prio_max (policy s) < pr then (SErr EINVAL, s)
      else if \<not> sched_priv s \<and> prio s < pr then (SErr EPERM, s)
      else (SOk 0 [], s\<lparr>prio := pr\<rparr>))"
| "sched_step (Sched_getparam pid) s =
     (if \<not> own pid s then (SErr ESRCH, s) else (SOk 0 [OInt (prio s)], s))"
| "sched_step (Sched_get_priority_max pol) s =
     (if policy_valid pol then (SOk (prio_max pol) [], s) else (SErr EINVAL, s))"
| "sched_step (Sched_get_priority_min pol) s =
     (if policy_valid pol then (SOk (prio_min pol) [], s) else (SErr EINVAL, s))"
| "sched_step (Sched_rr_get_interval pid) s =
     (if \<not> own pid s then (SErr ESRCH, s)
      else (SOk 0 [OInt 0, OInt (if policy s = SCHED_RR then rr_quantum s
                              else if policy s = SCHED_FIFO then 0 else other_quantum s)], s))"

definition conforms_sched :: "'s kernel \<Rightarrow> ('s \<Rightarrow> sched) \<Rightarrow> bool" where
  "conforms_sched K view \<longleftrightarrow>
     simulates K Sched (\<lambda>_. True) view sched_step \<and>
     (\<forall>s. fst (k_sys K (Proc Getpid) s) = SOk (own_pid (view s)) []) \<and>
     preserves K (Proc Getpid) view \<and>
     (\<forall>s. 0 < own_pid (view s))"

lemma conforms_schedD:
  assumes "conforms_sched K view"
  shows "fst (k_sys K (Sched c) s) = fst (sched_step c (view s))"
    and "view (snd (k_sys K (Sched c) s)) = snd (sched_step c (view s))"
    and "fst (k_sys K (Proc Getpid) s) = SOk (own_pid (view s)) []"
    and "view (snd (k_sys K (Proc Getpid) s)) = view s"
  using assms by (auto simp: conforms_sched_def simulates_def preserves_def)

subsection \<open>Files (open(2), close(2), lseek(2), write(2), unlink(2), mkstemp(3))\<close>

text \<open>A descriptor has the path it was opened with, the offset and the access mode.\<close>

record fs =
  files :: "string \<Rightarrow> string option"
  fds :: "int \<Rightarrow> (string \<times> int \<times> int) option"

text \<open>Writing at an offset: what lies between the end of the file and the offset reads as zeros.\<close>

definition write_at :: "string \<Rightarrow> nat \<Rightarrow> string \<Rightarrow> string" where
  "write_at old off new =
     take off old @ replicate (off - length old) (CHR 0x00) @ new @ drop (off + length new) old"

lemma write_at_end: "off \<ge> length old \<Longrightarrow> write_at old off new = old @ replicate (off - length old) (CHR 0x00) @ new"
  by (simp add: write_at_def)

fun fs_step :: "file_call \<Rightarrow> fs \<Rightarrow> sysres \<times> fs" where
  "fs_step (Close fd) f =
     (case fds f fd of None \<Rightarrow> (SErr EBADF, f) | Some _ \<Rightarrow> (SOk 0 [], f\<lparr>fds := (fds f)(fd := None)\<rparr>))"
| "fs_step (Lseek fd off wh) f =
     (case fds f fd of
        None \<Rightarrow> (SErr EBADF, f)
      | Some (p, _, md) \<Rightarrow>
          if wh \<noteq> 0 \<or> off < 0 then (SErr EINVAL, f)
          else (SOk off [], f\<lparr>fds := (fds f)(fd \<mapsto> (p, off, md))\<rparr>))"
| "fs_step (Write fd buf) f =
     (case fds f fd of
        None \<Rightarrow> (SErr EBADF, f)
      | Some (p, off, md) \<Rightarrow>
          if md = O_RDONLY then (SErr EBADF, f)
          else (SOk (int (length buf)) [],
           f\<lparr>fds := (fds f)(fd \<mapsto> (p, off + int (length buf), md)),
             files := (files f)(p := map_option (\<lambda>c. write_at c (nat off) buf) (files f p))\<rparr>))"
| "fs_step (Fsync fd) f =
     (case fds f fd of None \<Rightarrow> (SErr EBADF, f) | Some _ \<Rightarrow> (SOk 0 [], f))"
| "fs_step (Unlink p) f =
     (if files f p = None then (SErr ENOENT, f) else (SOk 0 [], f\<lparr>files := (files f)(p := None)\<rparr>))"
| "fs_step _ f = (SErr ENOSYS, f)"

text \<open>
  The calls the machine describes: seeking only from the start of the file; writing, seeking and
  flushing only where the descriptor's file still has its name.
\<close>

definition fd_regular :: "fs \<Rightarrow> int \<Rightarrow> bool" where
  "fd_regular f fd \<longleftrightarrow> (case fds f fd of None \<Rightarrow> True | Some (p, _, _) \<Rightarrow> files f p \<noteq> None)"

fun fs_det :: "fs \<Rightarrow> file_call \<Rightarrow> bool" where
  "fs_det f (Close fd) = True"
| "fs_det f (Lseek fd off wh) = (wh = 0 \<and> fd_regular f fd)"
| "fs_det f (Write fd buf) = fd_regular f fd"
| "fs_det f (Fsync fd) = fd_regular f fd"
| "fs_det f (Unlink p) = (files f p \<noteq> None)"
| "fs_det f _ = False"

text \<open>Creating a unique file: the kernel chooses the name and the descriptor, or fails.\<close>

definition mkstemp_rel :: "string \<Rightarrow> fs \<Rightarrow> sysres \<Rightarrow> fs \<Rightarrow> bool" where
  "mkstemp_rel tmpl f r f' \<longleftrightarrow>
     (\<exists>e. r = SErr e \<and> f' = f) \<or>
     (\<exists>fd p. r = SOk fd [OStr p] \<and> 0 \<le> fd \<and> fds f fd = None \<and> files f p = None \<and>
        take (length tmpl - 6) p = take (length tmpl - 6) tmpl \<and>
        f' = f\<lparr>files := (files f)(p \<mapsto> []), fds := (fds f)(fd \<mapsto> (p, 0, O_RDWR))\<rparr>)"

definition conforms_file :: "'s kernel \<Rightarrow> ('s \<Rightarrow> fs) \<Rightarrow> bool" where
  "conforms_file K view \<longleftrightarrow>
     (\<forall>c s. fs_det (view s) c \<longrightarrow>
        fst (k_sys K (File c) s) = fst (fs_step c (view s)) \<and> view (snd (k_sys K (File c) s)) = snd (fs_step c (view s))) \<and>
     (\<forall>t s. mkstemp_rel t (view s) (fst (k_sys K (File (Mkstemp t)) s)) (view (snd (k_sys K (File (Mkstemp t)) s)))) \<and>
     (\<forall>n. preserves K (Mem (Malloc n)) view) \<and>
     (\<forall>a. preserves K (Mem (Free a)) view)"

lemma conforms_fileD:
  assumes "conforms_file K view"
  shows "fs_det (view s) c \<Longrightarrow> fst (k_sys K (File c) s) = fst (fs_step c (view s))"
    and "fs_det (view s) c \<Longrightarrow> view (snd (k_sys K (File c) s)) = snd (fs_step c (view s))"
    and "view (snd (k_sys K (Mem (Malloc n)) s)) = view s"
    and "view (snd (k_sys K (Mem (Free a)) s)) = view s"
    and "mkstemp_rel t (view s) (fst (k_sys K (File (Mkstemp t)) s)) (view (snd (k_sys K (File (Mkstemp t)) s)))"
  using assms by (auto simp: conforms_file_def simulates_def preserves_def)

end
