(* ===== verification/Vm_Spec.thy ===== *)
theory Vm_Spec
  imports Clib
begin

text \<open>
  What mmap(2), munmap(2), mremap(2) and sigaction(2) document of the address space, for anonymous
  mappings of whole pages: a map from addresses to bytes with their protection, relations between
  a call, its answer and the maps before and after, and the access rules of loads and stores. A
  kernel conforms through a view when all its answers are allowed. Mapping new memory may always
  fail; the other calls are determined.
\<close>

subsection \<open>Ranges\<close>

definition inr :: "u64 \<Rightarrow> nat \<Rightarrow> u64 \<Rightarrow> bool" where
  "inr a n x \<longleftrightarrow> unat a \<le> unat x \<and> unat x < unat a + n"

definition fits :: "u64 \<Rightarrow> nat \<Rightarrow> bool" where
  "fits a n \<longleftrightarrow> unat a + n < 2 ^ 64"

definition page_aligned :: "u64 \<Rightarrow> bool" where
  "page_aligned a \<longleftrightarrow> unat a mod 4096 = 0"

definition overlap :: "u64 \<Rightarrow> nat \<Rightarrow> u64 \<Rightarrow> nat \<Rightarrow> bool" where
  "overlap a n b m \<longleftrightarrow> unat a < unat b + m \<and> unat b < unat a + n"

subsection \<open>The address space\<close>

record cell =
  c_prot :: int
  c_val :: u8
  c_shared :: bool
  c_bus :: bool

type_synonym vmem = "u64 \<Rightarrow> cell option"

definition fresh_cell :: "int \<Rightarrow> bool \<Rightarrow> cell" where
  "fresh_cell pr sh = \<lparr>c_prot = pr, c_val = 0, c_shared = sh, c_bus = False\<rparr>"

definition map_range :: "u64 \<Rightarrow> nat \<Rightarrow> (u64 \<Rightarrow> 'c option) \<Rightarrow> (u64 \<Rightarrow> 'c option) \<Rightarrow> u64 \<Rightarrow> 'c option" where
  "map_range a n f m = (\<lambda>x. if inr a n x then f x else m x)"

definition unmapped :: "(u64 \<Rightarrow> 'c option) \<Rightarrow> u64 \<Rightarrow> nat \<Rightarrow> bool" where
  "unmapped m a n \<longleftrightarrow> (\<forall>x. inr a n x \<longrightarrow> m x = None)"

definition mapped :: "(u64 \<Rightarrow> 'c option) \<Rightarrow> u64 \<Rightarrow> nat \<Rightarrow> bool" where
  "mapped m a n \<longleftrightarrow> (\<forall>x. inr a n x \<longrightarrow> m x \<noteq> None)"

text \<open>One mapping: the whole range has the protection and the sharing of its first byte.\<close>

definition one_mapping :: "vmem \<Rightarrow> u64 \<Rightarrow> nat \<Rightarrow> bool" where
  "one_mapping m a n \<longleftrightarrow> 0 < n \<and> fits a n \<and>
     (\<forall>x. inr a n x \<longrightarrow>
        (\<exists>c d. m x = Some c \<and> m a = Some d \<and> c_prot c = c_prot d \<and> c_shared c = c_shared d))"

text \<open>
  What extending a mapping adds: zeros to a private one; the pages added to a shared one lie
  beyond the end of its object, and an access to them raises \<^verbatim>\<open>SIGBUS\<close>.
\<close>

definition extension :: "cell option \<Rightarrow> cell option" where
  "extension c = map_option (\<lambda>c. c\<lparr>c_val := 0, c_bus := c_shared c\<rparr>) c"

definition move_range :: "u64 \<Rightarrow> nat \<Rightarrow> u64 \<Rightarrow> nat \<Rightarrow> vmem \<Rightarrow> vmem" where
  "move_range a old b new m =
     (\<lambda>x. if inr b new x then (if unat x - unat b < old then m (a + (x - b)) else extension (m a))
          else if inr a old x then None
          else m x)"

subsection \<open>Calls\<close>

definition mmap_shared :: "int \<Rightarrow> bool" where
  "mmap_shared fl \<longleftrightarrow> fl AND 0x01 \<noteq> 0"

definition mmap_fixed :: "int \<Rightarrow> bool" where
  "mmap_fixed fl \<longleftrightarrow> fl AND 0x10 \<noteq> 0"

definition mmap_anonymous :: "int \<Rightarrow> bool" where
  "mmap_anonymous fl \<longleftrightarrow> fl AND 0x20 \<noteq> 0"

definition mmap_rel :: "u64 \<Rightarrow> u64 \<Rightarrow> int \<Rightarrow> int \<Rightarrow> vmem \<Rightarrow> sysres \<Rightarrow> vmem \<Rightarrow> bool" where
  "mmap_rel a n pr fl m r m' \<longleftrightarrow>
     (mmap_anonymous fl \<and> page_aligned n \<and> 0 < n \<and>
      (mmap_fixed fl \<longrightarrow> page_aligned a \<and> fits a (unat n)) \<longrightarrow>
        (\<exists>e. r = SErr e \<and> m' = m) \<or>
        (\<exists>b. r = SOk (uint b) [] \<and>
             (if mmap_fixed fl then b = a
              else page_aligned b \<and> b \<noteq> 0 \<and> fits b (unat n) \<and> unmapped m b (unat n)) \<and>
             m' = map_range b (unat n) (\<lambda>_. Some (fresh_cell pr (mmap_shared fl))) m))"

definition munmap_rel :: "u64 \<Rightarrow> u64 \<Rightarrow> vmem \<Rightarrow> sysres \<Rightarrow> vmem \<Rightarrow> bool" where
  "munmap_rel a n m r m' \<longleftrightarrow>
     (page_aligned a \<and> page_aligned n \<and> 0 < n \<and> fits a (unat n) \<longrightarrow>
        (\<exists>e. r = SErr e \<and> m' = m) \<or> (r = SOk 0 [] \<and> m' = map_range a (unat n) (\<lambda>_. None) m))"

text \<open>Not growing: the end of the range is cut off in place.\<close>

definition mremap_shrink :: "u64 \<Rightarrow> u64 \<Rightarrow> u64 \<Rightarrow> vmem \<Rightarrow> sysres \<Rightarrow> vmem \<Rightarrow> bool" where
  "mremap_shrink a old new m r m' \<longleftrightarrow>
     (new = old \<or> (fits a (unat old) \<and> mapped m a (unat old)) \<longrightarrow>
        r = SOk (uint a) [] \<and> m' = map_range (a + new) (unat old - unat new) (\<lambda>_. None) m)"

text \<open>Growing: in place where there is room; otherwise an error, or a move where the flag allows it.\<close>

definition mremap_grow :: "bool \<Rightarrow> u64 \<Rightarrow> u64 \<Rightarrow> u64 \<Rightarrow> vmem \<Rightarrow> sysres \<Rightarrow> vmem \<Rightarrow> bool" where
  "mremap_grow maymove a old new m r m' \<longleftrightarrow>
     (one_mapping m a (unat old) \<and> fits a (unat new) \<longrightarrow>
        (if unmapped m (a + old) (unat new - unat old)
         then r = SOk (uint a) [] \<and> m' = map_range (a + old) (unat new - unat old) (\<lambda>_. extension (m a)) m
         else (r = SErr ENOMEM \<and> m' = m) \<or>
              (maymove \<and> (\<exists>b. r = SOk (uint b) [] \<and> page_aligned b \<and> b \<noteq> 0 \<and> fits b (unat new) \<and>
                 unmapped m b (unat new) \<and> m' = move_range a (unat old) b (unat new) m))))"

text \<open>\<^verbatim>\<open>MREMAP_FIXED\<close>: to the given address, replacing what is there; the ranges must not overlap.\<close>

definition mremap_fixed :: "u64 \<Rightarrow> u64 \<Rightarrow> u64 \<Rightarrow> u64 \<Rightarrow> vmem \<Rightarrow> sysres \<Rightarrow> vmem \<Rightarrow> bool" where
  "mremap_fixed a old new na m r m' \<longleftrightarrow>
     (one_mapping m a (unat old) \<and> page_aligned na \<and> fits na (unat new) \<longrightarrow>
        (if overlap a (unat old) na (unat new) then r = SErr EINVAL \<and> m' = m
         else r = SOk (uint na) [] \<and> m' = move_range a (unat old) na (unat new) m))"

definition mremap_rel :: "u64 \<Rightarrow> u64 \<Rightarrow> u64 \<Rightarrow> int \<Rightarrow> u64 \<Rightarrow> vmem \<Rightarrow> sysres \<Rightarrow> vmem \<Rightarrow> bool" where
  "mremap_rel a old new fl na m r m' \<longleftrightarrow>
     (page_aligned a \<and> page_aligned old \<and> page_aligned new \<and> 0 < new \<longrightarrow>
        (if fl = 3 then mremap_fixed a old new na m r m'
         else if fl = 0 \<or> fl = 1 then
           (if new \<le> old then mremap_shrink a old new m r m' else mremap_grow (fl = 1) a old new m r m')
         else True))"

subsection \<open>Accesses\<close>

definition access_fault :: "int \<Rightarrow> u64 \<Rightarrow> vmem \<Rightarrow> int option" where
  "access_fault need a m =
     (case m a of
        None \<Rightarrow> Some SIGSEGV
      | Some c \<Rightarrow>
          if c_prot c AND need = 0 then Some SIGSEGV
          else if c_bus c then Some SIGBUS
          else None)"

text \<open>
  Memory without \<^verbatim>\<open>PROT_READ\<close> may still be readable when it has another protection (on some
  processors writing implies reading), so nothing is said of loads from it.
\<close>

definition read_defined :: "u64 \<Rightarrow> vmem \<Rightarrow> bool" where
  "read_defined a m \<longleftrightarrow> (\<forall>c. m a = Some c \<longrightarrow> c_prot c AND PROT_READ \<noteq> 0 \<or> c_prot c = 0)"

definition read_fault :: "u64 \<Rightarrow> vmem \<Rightarrow> int \<Rightarrow> bool" where
  "read_fault a m sg \<longleftrightarrow> read_defined a m \<and> access_fault PROT_READ a m = Some sg"

definition load_law :: "'s kernel \<Rightarrow> ('s \<Rightarrow> vmem) \<Rightarrow> u64 \<Rightarrow> 's \<Rightarrow> bool" where
  "load_law K view a s \<longleftrightarrow> (read_defined a (view s) \<longrightarrow>
     (case access_fault PROT_READ a (view s) of
        Some sg \<Rightarrow> k_load K a s = Inl sg
      | None \<Rightarrow> \<exists>s'. k_load K a s = Inr (c_val (the (view s a)), s') \<and> view s' = view s))"

definition store_law :: "'s kernel \<Rightarrow> ('s \<Rightarrow> vmem) \<Rightarrow> u64 \<Rightarrow> u8 \<Rightarrow> 's \<Rightarrow> bool" where
  "store_law K view a b s \<longleftrightarrow>
     (case access_fault PROT_WRITE a (view s) of
        Some sg \<Rightarrow> k_store K a b s = Inl sg
      | None \<Rightarrow> \<exists>s'. k_store K a b s = Inr s' \<and>
           view s' = (view s)(a := map_option (\<lambda>c. c\<lparr>c_val := b\<rparr>) (view s a)))"

definition conforms_vm :: "'s kernel \<Rightarrow> ('s \<Rightarrow> vmem) \<Rightarrow> bool" where
  "conforms_vm K view \<longleftrightarrow>
     (\<forall>a n pr fl fd off s.
        mmap_rel a n pr fl (view s) (fst (k_sys K (Mem (Mmap a n pr fl fd off)) s))
          (view (snd (k_sys K (Mem (Mmap a n pr fl fd off)) s)))) \<and>
     (\<forall>a n s.
        munmap_rel a n (view s) (fst (k_sys K (Mem (Munmap a n)) s))
          (view (snd (k_sys K (Mem (Munmap a n)) s)))) \<and>
     (\<forall>a old new fl na s.
        mremap_rel a old new fl na (view s) (fst (k_sys K (Mem (Mremap a old new fl na)) s))
          (view (snd (k_sys K (Mem (Mremap a old new fl na)) s)))) \<and>
     (\<forall>a s. load_law K view a s) \<and>
     (\<forall>a b s. store_law K view a b s) \<and>
     (\<forall>sg s. sg = SIGBUS \<or> sg = SIGSEGV \<longrightarrow>
        fst (k_sigaction K sg s) = SOk 0 [] \<and> view (snd (k_sigaction K sg s)) = view s)"

lemma conforms_vmD:
  assumes "conforms_vm K view"
  shows conforms_mmap: "mmap_rel a n pr fl (view s) (fst (k_sys K (Mem (Mmap a n pr fl fd off)) s))
          (view (snd (k_sys K (Mem (Mmap a n pr fl fd off)) s)))"
    and conforms_munmap: "munmap_rel a n (view s) (fst (k_sys K (Mem (Munmap a n)) s))
          (view (snd (k_sys K (Mem (Munmap a n)) s)))"
    and conforms_mremap: "mremap_rel a old new fl na (view s) (fst (k_sys K (Mem (Mremap a old new fl na)) s))
          (view (snd (k_sys K (Mem (Mremap a old new fl na)) s)))"
    and conforms_load_fault: "read_fault a (view s) sg \<Longrightarrow> k_load K a s = Inl sg"
    and conforms_load: "access_fault PROT_READ a (view s) = None \<Longrightarrow>
          \<exists>s'. k_load K a s = Inr (c_val (the (view s a)), s') \<and> view s' = view s"
    and conforms_store_fault: "access_fault PROT_WRITE a (view s) = Some sg \<Longrightarrow> k_store K a b s = Inl sg"
    and conforms_store: "access_fault PROT_WRITE a (view s) = None \<Longrightarrow>
          \<exists>s'. k_store K a b s = Inr s' \<and> view s' = (view s)(a := map_option (\<lambda>c. c\<lparr>c_val := b\<rparr>) (view s a))"
    and conforms_sigaction: "sg = SIGBUS \<or> sg = SIGSEGV \<Longrightarrow>
          fst (k_sigaction K sg s) = SOk 0 [] \<and> view (snd (k_sigaction K sg s)) = view s"
proof -
  note c = assms [unfolded conforms_vm_def]
  have ld: "load_law K view a s" for a s using c by simp
  have st: "store_law K view a b s" for a b s using c by simp
  show "mmap_rel a n pr fl (view s) (fst (k_sys K (Mem (Mmap a n pr fl fd off)) s))
          (view (snd (k_sys K (Mem (Mmap a n pr fl fd off)) s)))"
    using c by simp
  show "munmap_rel a n (view s) (fst (k_sys K (Mem (Munmap a n)) s))
          (view (snd (k_sys K (Mem (Munmap a n)) s)))"
    using c by simp
  show "mremap_rel a old new fl na (view s) (fst (k_sys K (Mem (Mremap a old new fl na)) s))
          (view (snd (k_sys K (Mem (Mremap a old new fl na)) s)))"
    using c by simp
  show "read_fault a (view s) sg \<Longrightarrow> k_load K a s = Inl sg"
    using ld [of a s] by (simp add: load_law_def read_fault_def)
  show "access_fault PROT_READ a (view s) = None \<Longrightarrow>
          \<exists>s'. k_load K a s = Inr (c_val (the (view s a)), s') \<and> view s' = view s"
    using ld [of a s]
    by (auto simp: load_law_def read_defined_def access_fault_def split: option.splits if_splits)
  show "access_fault PROT_WRITE a (view s) = Some sg \<Longrightarrow> k_store K a b s = Inl sg"
    using st [of a b s] by (simp add: store_law_def)
  show "access_fault PROT_WRITE a (view s) = None \<Longrightarrow>
          \<exists>s'. k_store K a b s = Inr s' \<and> view s' = (view s)(a := map_option (\<lambda>c. c\<lparr>c_val := b\<rparr>) (view s a))"
    using st [of a b s] by (simp add: store_law_def)
  show "sg = SIGBUS \<or> sg = SIGSEGV \<Longrightarrow>
          fst (k_sigaction K sg s) = SOk 0 [] \<and> view (snd (k_sigaction K sg s)) = view s"
    using c by auto
qed

subsection \<open>Filling memory\<close>

definition fill :: "u64 \<Rightarrow> nat \<Rightarrow> u8 \<Rightarrow> vmem \<Rightarrow> vmem" where
  "fill a n c m = map_range a n (\<lambda>x. map_option (\<lambda>d. d\<lparr>c_val := c\<rparr>) (m x)) m"

lemma fits_offset: "fits a n \<Longrightarrow> i \<le> n \<Longrightarrow> unat (a + of_nat i) = unat a + i"
  by (simp add: fits_def unat_of_nat_add)

lemma fits_Suc: "fits a (Suc n) \<Longrightarrow> unat (a + 1) = unat a + 1 \<and> fits (a + 1) n"
  using fits_offset [of a "Suc n" 1] by (simp add: fits_def)

lemma inr_Suc: "fits a (Suc n) \<Longrightarrow> inr a (Suc n) x \<longleftrightarrow> x = a \<or> inr (a + 1) n x"
  using fits_Suc [of a n] by (auto simp: inr_def word_unat_eq_iff)

lemma inr_self: "inr a n a \<longleftrightarrow> 0 < n"
  by (simp add: inr_def)

lemma inr_Suc_not: "fits a (Suc n) \<Longrightarrow> \<not> inr (a + 1) n a"
  using fits_Suc [of a n] by (auto simp: inr_def)

lemma fill_0 [simp]: "fill a 0 c m = m"
  by (auto simp: fill_def map_range_def inr_def fun_eq_iff)

lemma fill_Suc:
  "fits a (Suc n) \<Longrightarrow> fill (a + 1) n c (m(a := map_option (\<lambda>d. d\<lparr>c_val := c\<rparr>) (m a))) = fill a (Suc n) c m"
  by (auto simp: fill_def map_range_def inr_Suc inr_Suc_not fun_eq_iff)

definition writable :: "vmem \<Rightarrow> u64 \<Rightarrow> nat \<Rightarrow> bool" where
  "writable m a n \<longleftrightarrow> (\<forall>x. inr a n x \<longrightarrow> access_fault PROT_WRITE x m = None)"

lemma access_fault_upd:
  "access_fault need x (m(a := map_option (\<lambda>d. d\<lparr>c_val := c\<rparr>) (m a))) = access_fault need x m"
  by (auto simp: access_fault_def split: option.splits)

lemma exec_memset:
  assumes K: "conforms_vm K view" and "fits a n" "writable (view (kst p)) a n"
  shows "\<exists>s'. exec K (memset n a c k) p = exec K k (p\<lparr>kst := s'\<rparr>) \<and> view s' = fill a n c (view (kst p))"
  using assms(2,3)
proof (induction n arbitrary: a p)
  case 0
  show ?case by (rule exI [of _ "kst p"]) simp
next
  case (Suc n)
  then have "access_fault PROT_WRITE a (view (kst p)) = None" by (simp add: writable_def inr_self)
  from conforms_store [OF K this, of c] obtain s' where
    s': "k_store K a c (kst p) = Inr s'"
    "view s' = (view (kst p))(a := map_option (\<lambda>d. d\<lparr>c_val := c\<rparr>) (view (kst p) a))" by blast
  have "writable (view (kst (p\<lparr>kst := s'\<rparr>))) (a + 1) n"
    using Suc.prems by (auto simp: writable_def s' access_fault_upd inr_Suc)
  from Suc.IH [OF _ this] Suc.prems(1) obtain s'' where
    "exec K (memset n (a + 1) c k) (p\<lparr>kst := s'\<rparr>) = exec K k (p\<lparr>kst := s''\<rparr>)"
    "view s'' = fill (a + 1) n c (view s')"
    by (auto simp: fits_Suc)
  with s' Suc.prems(1) show ?case by (auto simp: fill_Suc)
qed

lemma page_aligned_add: "page_aligned a \<Longrightarrow> page_aligned n \<Longrightarrow> fits a (unat n) \<Longrightarrow> page_aligned (a + n)"
  by (simp add: page_aligned_def fits_def unat_plus_no_wrap mod_add_eq [symmetric])

lemma page_aligned_not_failed: "page_aligned a \<Longrightarrow> a \<noteq> - 1"
  by (auto simp: page_aligned_def unsigned_minus_1_eq_mask mask_eq_exp_minus_1)

lemma map_range_0 [simp]: "map_range a 0 f m = m"
  by (auto simp: map_range_def inr_def fun_eq_iff)

subsection \<open>Ranges of one content\<close>

definition const_on :: "(u64 \<Rightarrow> 'c option) \<Rightarrow> u64 \<Rightarrow> nat \<Rightarrow> 'c option \<Rightarrow> bool" where
  "const_on m a n c \<longleftrightarrow> (\<forall>x. inr a n x \<longrightarrow> m x = c)"

definition apart :: "u64 \<Rightarrow> nat \<Rightarrow> u64 \<Rightarrow> nat \<Rightarrow> bool" where
  "apart a n b k \<longleftrightarrow> unat a + n \<le> unat b \<or> unat b + k \<le> unat a"

lemma const_on_first: "const_on m a n c \<Longrightarrow> 0 < n \<Longrightarrow> m a = c"
  by (simp add: const_on_def inr_self)

lemma const_on_sub:
  assumes "const_on m a n c" "unat a \<le> unat b" "unat b + k \<le> unat a + n"
  shows "const_on m b k c"
  using assms by (auto simp: const_on_def inr_def)

lemma const_on_unmapped: "const_on m a n None \<longleftrightarrow> unmapped m a n"
  by (simp add: const_on_def unmapped_def)

lemma const_on_mapped: "const_on m a n (Some c) \<Longrightarrow> mapped m a n"
  by (simp add: const_on_def mapped_def)

lemma const_on_one_mapping: "const_on m a n (Some c) \<Longrightarrow> 0 < n \<Longrightarrow> fits a n \<Longrightarrow> one_mapping m a n"
  by (auto simp: one_mapping_def const_on_def inr_self)

lemma const_on_not_unmapped: "const_on m a n (Some c) \<Longrightarrow> 0 < n \<Longrightarrow> \<not> unmapped m a n"
  by (metis const_on_first inr_self option.distinct(1) unmapped_def)

lemma const_on_map_same: "const_on (map_range a n (\<lambda>_. c) m) a n c"
  by (simp add: const_on_def map_range_def)

lemma const_on_map_other:
  "const_on m a n c \<Longrightarrow> apart a n b k \<Longrightarrow> const_on (map_range b k f m) a n c"
  by (auto simp: const_on_def map_range_def inr_def apart_def)

lemma const_on_fill:
  "const_on m a n (Some c) \<Longrightarrow> const_on (fill a n v m) a n (Some (c\<lparr>c_val := v\<rparr>))"
  by (simp add: const_on_def fill_def map_range_def)

lemma const_on_fill_other: "const_on m a n c \<Longrightarrow> apart a n b k \<Longrightarrow> const_on (fill b k v m) a n c"
  unfolding fill_def by (rule const_on_map_other)

lemma unat_move:
  assumes "fits a old" "fits b new" "inr b new x" "unat x - unat b < old"
  shows "unat (a + (x - b)) = unat a + (unat x - unat b)"
proof -
  have "unat (x - b) = unat x - unat b"
    using assms(3) by (simp add: inr_def unat_sub word_le_nat_alt)
  with assms show ?thesis by (subst unat_plus_no_wrap) (auto simp: fits_def)
qed

lemma const_on_move_dest:
  assumes "const_on m a old c" "fits a old" "fits b new" "old \<le> new"
  shows "const_on (move_range a old b new m) b old c"
proof -
  have "move_range a old b new m x = c" if x: "inr b old x" for x
  proof -
    have "inr b new x" "unat x - unat b < old" using x assms(4) by (auto simp: inr_def)
    moreover from unat_move [OF assms(2,3) this] x have "inr a old (a + (x - b))"
      by (auto simp: inr_def)
    ultimately show ?thesis using assms(1) by (simp add: move_range_def const_on_def)
  qed
  then show ?thesis by (simp add: const_on_def)
qed

lemma const_on_move_ext:
  assumes "const_on m a old (Some c)" "0 < old" "old \<le> new" "unat b' = unat b + old"
  shows "const_on (move_range a old b new m) b' (new - old) (extension (Some c))"
  using assms const_on_first [OF assms(1,2)] by (auto simp: const_on_def move_range_def inr_def)

lemma const_on_move_src:
  "apart a old b new \<Longrightarrow> const_on (move_range a old b new m) a old None"
  by (auto simp: const_on_def move_range_def inr_def apart_def)

lemma const_on_move_other:
  "const_on m d k c \<Longrightarrow> apart d k a old \<Longrightarrow> apart d k b new \<Longrightarrow> const_on (move_range a old b new m) d k c"
  by (auto simp: const_on_def move_range_def inr_def apart_def)

lemma apart_iff_not_overlap: "0 < n \<Longrightarrow> 0 < k \<Longrightarrow> apart a n b k \<longleftrightarrow> \<not> overlap a n b k"
  by (auto simp: apart_def overlap_def)

lemma mapped_unmapped_apart:
  assumes "const_on m a n (Some c)" "unmapped m b k" "fits a n" "fits b k"
  shows "n = 0 \<or> k = 0 \<or> apart a n b k"
proof (rule ccontr)
  assume n: "\<not> ?thesis"
  define x where "x = (if unat a \<le> unat b then b else a)"
  have "inr a n x" "inr b k x" using n by (auto simp: x_def inr_def apart_def)
  with assms show False by (auto simp: const_on_def unmapped_def)
qed

end
