(* ===== verification/Drv_Spec.thy ===== *)
theory Drv_Spec
  imports Kernel_Spec
begin

text \<open>
  What a Linux driver may rely on of the kernel it is part of: a ledger of the resources that are
  registered, and for every call how its answer and the ledger before and after are related.
  Acquiring may fail and then changes nothing; what it answers is new. Deleting a character device
  that was never added is outside the interface, and nothing is said of it.
\<close>

definition MKDEV :: "int \<Rightarrow> int \<Rightarrow> u32" where
  "MKDEV ma mi = word_of_int (push_bit 20 ma OR mi)"

definition MAJOR :: "u32 \<Rightarrow> int" where
  "MAJOR d = uint (drop_bit 20 d)"

record linux =
  l_regions :: "(u32 \<times> int) set"
  l_classes :: "int set"
  l_cdevs :: "(nat \<times> u32) set"
  l_devices :: "(int \<times> u32) set"
  l_bufs :: "(u64 \<times> u64) set"
  l_procs :: "(string \<times> string) set"

definition refused :: "linux \<Rightarrow> sysres \<Rightarrow> linux \<Rightarrow> bool" where
  "refused l r l' \<longleftrightarrow> (\<exists>e>0. r = SErr e) \<and> l' = l"

fun linux_rel :: "drv_call \<Rightarrow> linux \<Rightarrow> sysres \<Rightarrow> linux \<Rightarrow> bool" where
  "linux_rel (Alloc_chrdev_region mi n) l r l' =
     (refused l r l' \<or>
      (\<exists>ma. 0 < ma \<and> ma < 4096 \<and> r = SOk 0 [OInt (uint (MKDEV ma mi))] \<and> (MKDEV ma mi, n) \<notin> l_regions l \<and>
         l' = l\<lparr>l_regions := insert (MKDEV ma mi, n) (l_regions l)\<rparr>))"
| "linux_rel (Unregister_chrdev_region d n) l r l' =
     (r = SOk 0 [] \<and> l' = l\<lparr>l_regions := l_regions l - {(d, n)}\<rparr>)"
| "linux_rel (Class_create nm) l r l' =
     (refused l r l' \<or>
      (\<exists>h. h \<noteq> 0 \<and> h \<notin> l_classes l \<and> h \<notin> fst ` l_devices l \<and> r = SOk h [] \<and>
         l' = l\<lparr>l_classes := insert h (l_classes l)\<rparr>))"
| "linux_rel (Class_destroy h) l r l' =
     (r = SOk 0 [] \<and> l' = l\<lparr>l_classes := l_classes l - {h}\<rparr>)"
| "linux_rel (Cdev_add i d) l r l' =
     (refused l r l' \<or> (r = SOk 0 [] \<and> l' = l\<lparr>l_cdevs := insert (i, d) (l_cdevs l)\<rparr>))"
| "linux_rel (Cdev_del i) l r l' =
     (i \<in> fst ` l_cdevs l \<longrightarrow> r = SOk 0 [] \<and> l' = l\<lparr>l_cdevs := {c \<in> l_cdevs l. fst c \<noteq> i}\<rparr>)"
| "linux_rel (Device_create h d nm) l r l' =
     (refused l r l' \<or> (r = SOk 0 [] \<and> l' = l\<lparr>l_devices := insert (h, d) (l_devices l)\<rparr>))"
| "linux_rel (Device_destroy h d) l r l' =
     (r = SOk 0 [] \<and> l' = l\<lparr>l_devices := l_devices l - {(h, d)}\<rparr>)"
| "linux_rel (Vmalloc_user n) l r l' =
     (refused l r l' \<or>
      (\<exists>b. b \<noteq> 0 \<and> unat b mod 4096 = 0 \<and> unat b + unat n < 2 ^ 64 \<and> b \<notin> fst ` l_bufs l \<and> r = SOk (uint b) [] \<and>
         l' = l\<lparr>l_bufs := insert (b, n) (l_bufs l)\<rparr>))"
| "linux_rel (Vfree b) l r l' =
     (r = SOk 0 [] \<and> l' = l\<lparr>l_bufs := {c \<in> l_bufs l. fst c \<noteq> b}\<rparr>)"
| "linux_rel (Proc_mkdir nm) l r l' =
     (refused l r l' \<or> (r = SOk 1 [] \<and> l' = l\<lparr>l_procs := insert ([], nm) (l_procs l)\<rparr>))"
| "linux_rel (Proc_create dir nm) l r l' =
     (refused l r l' \<or> (r = SOk 1 [] \<and> l' = l\<lparr>l_procs := insert (dir, nm) (l_procs l)\<rparr>))"
| "linux_rel (Remove_proc_entry dir nm) l r l' =
     (r = SOk 0 [] \<and> l' = l\<lparr>l_procs := l_procs l - {(dir, nm)}\<rparr>)"
| "linux_rel (Remap_pfn_range a pfn n) l r l' =
     (refused l r l' \<or> (r = SOk 0 [] \<and> l' = l))"
| "linux_rel (Copy_to_user buf) l r l' =
     ((\<exists>rest. 0 \<le> rest \<and> rest \<le> int (length buf) \<and> r = SOk rest []) \<and> l' = l)"

definition conforms_linux :: "'s kernel \<Rightarrow> ('s \<Rightarrow> linux) \<Rightarrow> bool" where
  "conforms_linux K view \<longleftrightarrow>
     (\<forall>c s. linux_rel c (view s) (fst (k_sys K (Drv c) s)) (view (snd (k_sys K (Drv c) s))))"

lemma conforms_linuxD:
  "conforms_linux K view \<Longrightarrow> linux_rel c (view s) (fst (k_sys K (Drv c) s)) (view (snd (k_sys K (Drv c) s)))"
  by (simp add: conforms_linux_def)

lemma MAJOR_MKDEV:
  assumes "0 \<le> ma" "ma < 4096"
  shows "MAJOR (MKDEV ma 0) = ma"
proof -
  have "uint (MKDEV ma 0) = (ma * 1048576) mod 2 ^ 32"
    unfolding MKDEV_def by (subst uint_word_of_int) (simp add: push_bit_eq_mult)
  with assms have "uint (MKDEV ma 0) = ma * 1048576" by simp
  then show ?thesis using assms unfolding MAJOR_def unsigned_drop_bit_eq by (simp add: drop_bit_eq_div take_bit_eq_mod)
qed

end
