(* ===== verification/Ref_Kernel.thy ===== *)
theory Ref_Kernel
  imports Kernel_Spec Vm_Spec Drv_Spec
begin

text \<open>
  One kernel built from the machines of \<^verbatim>\<open>Kernel_Spec\<close> and \<^verbatim>\<open>Vm_Spec\<close>. It shows that the
  conformance predicates, which are the hypotheses of the theorems about the test programs, hold
  together of a concrete kernel.
\<close>

record world =
  w_cred :: cred
  w_rlims :: rlims
  w_sched :: sched
  w_fs :: fs
  w_vm :: vmem
  w_linux :: linux

definition sched_view :: "world \<Rightarrow> sched" where
  "sched_view w = (w_sched w)\<lparr>own_pid := 1\<rparr>"

definition free_range :: "(u64 \<Rightarrow> 'c option) \<Rightarrow> u64 \<Rightarrow> nat \<Rightarrow> bool" where
  "free_range m a n \<longleftrightarrow> list_all (\<lambda>i. m (a + of_nat i) = None) [0..<n]"

definition alloc_base :: u64 where
  "alloc_base = 0x10000000"

definition ref_mmap :: "u64 \<Rightarrow> u64 \<Rightarrow> int \<Rightarrow> int \<Rightarrow> vmem \<Rightarrow> sysres \<times> vmem" where
  "ref_mmap a n pr fl m =
     (if mmap_fixed fl
      then (SOk (uint a) [], map_range a (unat n) (\<lambda>_. Some (fresh_cell pr (mmap_shared fl))) m)
      else if fits alloc_base (unat n) \<and> free_range m alloc_base (unat n)
      then (SOk (uint alloc_base) [],
            map_range alloc_base (unat n) (\<lambda>_. Some (fresh_cell pr (mmap_shared fl))) m)
      else (SErr ENOMEM, m))"

definition ref_mremap :: "u64 \<Rightarrow> u64 \<Rightarrow> u64 \<Rightarrow> int \<Rightarrow> u64 \<Rightarrow> vmem \<Rightarrow> sysres \<times> vmem" where
  "ref_mremap a old new fl na m =
     (if fl = 3 then
        (if overlap a (unat old) na (unat new) then (SErr EINVAL, m)
         else (SOk (uint na) [], move_range a (unat old) na (unat new) m))
      else if new \<le> old then
        (SOk (uint a) [], map_range (a + new) (unat old - unat new) (\<lambda>_. None) m)
      else if free_range m (a + old) (unat new - unat old) then
        (SOk (uint a) [], map_range (a + old) (unat new - unat old) (\<lambda>_. extension (m a)) m)
      else if fl = 1 \<and> fits alloc_base (unat new) \<and> free_range m alloc_base (unat new) then
        (SOk (uint alloc_base) [], move_range a (unat old) alloc_base (unat new) m)
      else (SErr ENOMEM, m))"

definition ref_mkstemp :: "string \<Rightarrow> fs \<Rightarrow> sysres \<times> fs" where
  "ref_mkstemp tmpl f =
     (let p = take (length tmpl - 6) tmpl @ ''AAAAAA'' in
      if files f p = None \<and> fds f 3 = None
      then (SOk 3 [OStr p], f\<lparr>files := (files f)(p \<mapsto> []), fds := (fds f)(3 \<mapsto> (p, 0, O_RDWR))\<rparr>)
      else (SErr 17, f))"

definition ref_status :: "cred \<Rightarrow> string" where
  "ref_status c = unlines [''Name:mck'', id_line ''Uid:'' (uids c), id_line ''Gid:'' (gids c)]"

text \<open>The driver interface: a few handles, given out while they are free.\<close>

definition first_free :: "('a \<Rightarrow> bool) \<Rightarrow> 'a list \<Rightarrow> 'a option" where
  "first_free used xs = find (\<lambda>x. \<not> used x) xs"

definition acquire :: "'a option \<Rightarrow> ('a \<Rightarrow> sysres \<times> linux) \<Rightarrow> linux \<Rightarrow> sysres \<times> linux" where
  "acquire x f l = (case x of None \<Rightarrow> (SErr ENOMEM, l) | Some y \<Rightarrow> f y)"

fun ref_linux :: "drv_call \<Rightarrow> linux \<Rightarrow> sysres \<times> linux" where
  "ref_linux (Alloc_chrdev_region mi n) l =
     acquire (first_free (\<lambda>ma. (MKDEV ma mi, n) \<in> l_regions l) [240, 241])
       (\<lambda>ma. (SOk 0 [OInt (uint (MKDEV ma mi))], l\<lparr>l_regions := insert (MKDEV ma mi, n) (l_regions l)\<rparr>)) l"
| "ref_linux (Unregister_chrdev_region d n) l = (SOk 0 [], l\<lparr>l_regions := l_regions l - {(d, n)}\<rparr>)"
| "ref_linux (Class_create nm) l =
     acquire (first_free (\<lambda>h. h \<in> l_classes l \<or> h \<in> fst ` l_devices l) [1, 2, 3])
       (\<lambda>h. (SOk h [], l\<lparr>l_classes := insert h (l_classes l)\<rparr>)) l"
| "ref_linux (Class_destroy h) l = (SOk 0 [], l\<lparr>l_classes := l_classes l - {h}\<rparr>)"
| "ref_linux (Cdev_add i d) l = (SOk 0 [], l\<lparr>l_cdevs := insert (i, d) (l_cdevs l)\<rparr>)"
| "ref_linux (Cdev_del i) l = (SOk 0 [], l\<lparr>l_cdevs := {c \<in> l_cdevs l. fst c \<noteq> i}\<rparr>)"
| "ref_linux (Device_create h d nm) l = (SOk 0 [], l\<lparr>l_devices := insert (h, d) (l_devices l)\<rparr>)"
| "ref_linux (Device_destroy h d) l = (SOk 0 [], l\<lparr>l_devices := l_devices l - {(h, d)}\<rparr>)"
| "ref_linux (Vmalloc_user n) l =
     acquire (first_free (\<lambda>b. b \<in> fst ` l_bufs l \<or> 2 ^ 64 \<le> unat b + unat n) [0x100000, 0x200000])
       (\<lambda>b. (SOk (uint b) [], l\<lparr>l_bufs := insert (b, n) (l_bufs l)\<rparr>)) l"
| "ref_linux (Vfree b) l = (SOk 0 [], l\<lparr>l_bufs := {c \<in> l_bufs l. fst c \<noteq> b}\<rparr>)"
| "ref_linux (Proc_mkdir nm) l = (SOk 1 [], l\<lparr>l_procs := insert ([], nm) (l_procs l)\<rparr>)"
| "ref_linux (Proc_create dir nm) l = (SOk 1 [], l\<lparr>l_procs := insert (dir, nm) (l_procs l)\<rparr>)"
| "ref_linux (Remove_proc_entry dir nm) l = (SOk 0 [], l\<lparr>l_procs := l_procs l - {(dir, nm)}\<rparr>)"
| "ref_linux (Remap_pfn_range a pfn n) l = (SOk 0 [], l)"
| "ref_linux (Copy_to_user buf) l = (SOk 0 [], l)"

fun ref_sys :: "syscall \<Rightarrow> world \<Rightarrow> sysres \<times> world" where
  "ref_sys (Cred c) w = (case cred_step c (w_cred w) of (r, x) \<Rightarrow> (r, w\<lparr>w_cred := x\<rparr>))"
| "ref_sys (Rlim c) w = (case rlim_step c (w_rlims w) of (r, x) \<Rightarrow> (r, w\<lparr>w_rlims := x\<rparr>))"
| "ref_sys (Sched c) w = (case sched_step c (sched_view w) of (r, x) \<Rightarrow> (r, w\<lparr>w_sched := x\<rparr>))"
| "ref_sys (File (Mkstemp t)) w = (case ref_mkstemp t (w_fs w) of (r, x) \<Rightarrow> (r, w\<lparr>w_fs := x\<rparr>))"
| "ref_sys (File (Fopen f)) w =
     (if f = proc_status_file 1 then SOk 5 [OStr (ref_status (w_cred w))] else SErr ENOENT, w)"
| "ref_sys (File (Fclose fp)) w = (SOk 0 [], w)"
| "ref_sys (File c) w = (case fs_step c (w_fs w) of (r, x) \<Rightarrow> (r, w\<lparr>w_fs := x\<rparr>))"
| "ref_sys (Mem (Mmap a n pr fl fd off)) w = (case ref_mmap a n pr fl (w_vm w) of (r, x) \<Rightarrow> (r, w\<lparr>w_vm := x\<rparr>))"
| "ref_sys (Mem (Munmap a n)) w = (SOk 0 [], w\<lparr>w_vm := map_range a (unat n) (\<lambda>_. None) (w_vm w)\<rparr>)"
| "ref_sys (Mem (Mremap a old new fl na)) w =
     (case ref_mremap a old new fl na (w_vm w) of (r, x) \<Rightarrow> (r, w\<lparr>w_vm := x\<rparr>))"
| "ref_sys (Mem (Malloc n)) w = (SOk 4096 [], w)"
| "ref_sys (Mem (Free a)) w = (SOk 0 [], w)"
| "ref_sys (Proc Getpid) w = (SOk 1 [], w)"
| "ref_sys (Drv c) w = (case ref_linux c (w_linux w) of (r, x) \<Rightarrow> (r, w\<lparr>w_linux := x\<rparr>))"
| "ref_sys _ w = (SErr ENOSYS, w)"

definition ref_kernel :: "world kernel" where
  "ref_kernel =
     \<lparr>k_sys = ref_sys,
      k_load = (\<lambda>a w. case access_fault PROT_READ a (w_vm w) of
                  Some sg \<Rightarrow> Inl sg
                | None \<Rightarrow> Inr (c_val (the (w_vm w a)), w)),
      k_store = (\<lambda>a b w. case access_fault PROT_WRITE a (w_vm w) of
                   Some sg \<Rightarrow> Inl sg
                 | None \<Rightarrow> Inr (w\<lparr>w_vm := (w_vm w)(a := map_option (\<lambda>c. c\<lparr>c_val := b\<rparr>) (w_vm w a))\<rparr>)),
      k_sigaction = (\<lambda>sg w. (SOk 0 [], w))\<rparr>"

text \<open>A process about to start: root, no limits, default policy, no files and no memory.\<close>

definition init_world :: world where
  "init_world =
     \<lparr>w_cred = \<lparr>uids = \<lparr>rid = 0, eid = 0, sid = 0, fsid = 0\<rparr>, gids = \<lparr>rid = 0, eid = 0, sid = 0, fsid = 0\<rparr>\<rparr>,
      w_rlims = \<lparr>rlim_of = (\<lambda>_. \<lparr>rlim_cur = - 1, rlim_max = - 1\<rparr>), rlim_priv = True\<rparr>,
      w_sched = \<lparr>own_pid = 1, policy = 0, prio = 0, rr_quantum = 10000, other_quantum = 0, sched_priv = True\<rparr>,
      w_fs = \<lparr>files = (\<lambda>_. None), fds = (\<lambda>_. None)\<rparr>,
      w_vm = (\<lambda>_. None),
      w_linux = \<lparr>l_regions = {}, l_classes = {}, l_cdevs = {}, l_devices = {}, l_bufs = {}, l_procs = {}\<rparr>\<rparr>"

definition init_process :: "world process" where
  "init_process = \<lparr>kst = init_world, errno = 0, globals = (\<lambda>_. 0), gstrings = (\<lambda>_. []), disp = (\<lambda>_. SIG_DFL), out = []\<rparr>"

subsection \<open>It conforms\<close>

lemma ref_conforms_cred: "conforms_cred ref_kernel w_cred"
  by (simp add: conforms_cred_def simulates_def ref_kernel_def split_beta)

lemma ref_conforms_status: "conforms_status ref_kernel w_cred 1"
proof -
  have "status_content c (ref_status c)" for c
    unfolding status_content_def ref_status_def
    by (rule exI [of _ "[''Name:mck'']"], rule exI [of _ "[]"]) (simp add: other_line_def unlines_def)
  then show ?thesis by (simp add: conforms_status_def preserves_def ref_kernel_def)
qed

lemma ref_conforms_rlim: "conforms_rlim ref_kernel w_rlims"
  by (simp add: conforms_rlim_def simulates_def ref_kernel_def split_beta)

lemma sched_step_own_pid: "own_pid (snd (sched_step c s)) = own_pid s"
  by (cases c) simp_all

lemma ref_conforms_sched: "conforms_sched ref_kernel sched_view"
proof -
  have "(snd (sched_step c (sched_view w)))\<lparr>own_pid := 1\<rparr> = snd (sched_step c (sched_view w))" for c w
    using sched_step_own_pid [of c "sched_view w"]
    by (cases "snd (sched_step c (sched_view w))") (simp add: sched_view_def)
  then show ?thesis
    by (simp add: conforms_sched_def simulates_def preserves_def ref_kernel_def split_beta sched_view_def)
qed

lemma ref_conforms_file: "conforms_file ref_kernel w_fs"
proof -
  have "fst (ref_sys (File c) w) = fst (fs_step c (w_fs w)) \<and> w_fs (snd (ref_sys (File c) w)) = snd (fs_step c (w_fs w))"
    if "fs_det (w_fs w) c" for c w
    using that by (cases c) (simp_all add: split_beta)
  then show ?thesis
    by (auto simp: conforms_file_def preserves_def ref_kernel_def split_beta mkstemp_rel_def ref_mkstemp_def Let_def)
qed

lemma free_range_unmapped:
  assumes "fits a n"
  shows "free_range m a n \<longleftrightarrow> unmapped m a n"
proof
  assume "free_range m a n"
  then have f: "m (a + of_nat i) = None" if "i < n" for i using that by (simp add: free_range_def list_all_iff)
  show "unmapped m a n"
    unfolding unmapped_def
  proof (intro allI impI)
    fix x assume x: "inr a n x"
    have "a + of_nat (unat x - unat a) = x"
      using x fits_offset [OF assms, of "unat x - unat a"] by (simp add: inr_def word_unat_eq_iff)
    with f [of "unat x - unat a"] x show "m x = None" by (auto simp: inr_def)
  qed
next
  assume "unmapped m a n"
  then show "free_range m a n"
    using fits_offset [OF assms] by (auto simp: free_range_def list_all_iff unmapped_def inr_def)
qed

lemma alloc_base_ok: "page_aligned alloc_base" "alloc_base \<noteq> 0"
  by (simp_all add: alloc_base_def page_aligned_def)

lemma ref_mmap_rel: "mmap_rel a n pr fl m (fst (ref_mmap a n pr fl m)) (snd (ref_mmap a n pr fl m))"
  using alloc_base_ok free_range_unmapped [of alloc_base "unat n" m]
  by (auto simp: mmap_rel_def ref_mmap_def)

lemma ref_mremap_rel:
  "mremap_rel a old new fl na m (fst (ref_mremap a old new fl na m)) (snd (ref_mremap a old new fl na m))"
proof -
  have "free_range m (a + old) (unat new - unat old) \<longleftrightarrow> unmapped m (a + old) (unat new - unat old)"
    if "fits a (unat new)" "\<not> new \<le> old"
  proof (rule free_range_unmapped)
    have "unat (a + old) = unat a + unat old"
      using that by (intro unat_plus_no_wrap) (simp add: fits_def word_le_nat_alt)
    then show "fits (a + old) (unat new - unat old)"
      using that by (simp add: fits_def word_le_nat_alt)
  qed
  with alloc_base_ok free_range_unmapped [of alloc_base "unat new" m] show ?thesis
    by (auto simp: mremap_rel_def ref_mremap_def mremap_fixed_def mremap_shrink_def mremap_grow_def)
qed

lemma ref_conforms_vm: "conforms_vm ref_kernel w_vm"
  using ref_mmap_rel ref_mremap_rel
  by (simp add: conforms_vm_def ref_kernel_def split_beta munmap_rel_def load_law_def store_law_def split: option.split)

lemma first_free_Some: "first_free used xs = Some x \<Longrightarrow> x \<in> set xs \<and> \<not> used x"
  by (auto simp: first_free_def find_Some_iff)

lemma ref_linux_region:
  "linux_rel (Alloc_chrdev_region mi n) l (fst (ref_linux (Alloc_chrdev_region mi n) l))
     (snd (ref_linux (Alloc_chrdev_region mi n) l))"
proof (cases "first_free (\<lambda>ma. (MKDEV ma mi, n) \<in> l_regions l) [240, 241]")
  case None
  then show ?thesis by (simp add: acquire_def refused_def)
next
  case (Some ma)
  from first_free_Some [OF this] Some show ?thesis
    by (intro linux_rel.simps(1) [THEN iffD2] disjI2 exI [of _ ma]) (auto simp: acquire_def)
qed

lemma ref_linux_vmalloc:
  "linux_rel (Vmalloc_user n) l (fst (ref_linux (Vmalloc_user n) l)) (snd (ref_linux (Vmalloc_user n) l))"
proof (cases "first_free (\<lambda>b. b \<in> fst ` l_bufs l \<or> 2 ^ 64 \<le> unat b + unat n) [0x100000, 0x200000]")
  case None
  then show ?thesis by (simp add: acquire_def refused_def)
next
  case (Some b)
  from first_free_Some [OF this] Some show ?thesis
    by (intro linux_rel.simps(9) [THEN iffD2] disjI2 exI [of _ b]) (auto simp: acquire_def)
qed

lemma ref_linux_rel: "linux_rel c l (fst (ref_linux c l)) (snd (ref_linux c l))"
proof (cases c)
  case (Alloc_chrdev_region mi n)
  then show ?thesis using ref_linux_region by simp
next
  case (Vmalloc_user n)
  then show ?thesis using ref_linux_vmalloc by simp
qed (auto simp: acquire_def refused_def image_iff dest!: first_free_Some split: option.split)

lemma ref_conforms_linux: "conforms_linux ref_kernel w_linux"
  using ref_linux_rel by (simp add: conforms_linux_def ref_kernel_def split_beta)

end
