(* ===== verification/Test_Mck.thy ===== *)
theory Test_Mck
  imports Ref_Kernel
begin

text \<open>
  The test driver program, \<^verbatim>\<open>src/test_mck/src/test_mck.c\<close> and \<^verbatim>\<open>test_mck.h\<close>: the table
  of test cases and its lookup, the run of one test case, option handling in \<^verbatim>\<open>main\<close>, and the
  helpers the test cases share (alignment macros, temporary files, number arguments).
\<close>

subsection \<open>Test cases\<close>

text \<open>
  \<^verbatim>\<open>struct test_case\<close>. The \<^verbatim>\<open>void*\<close> that \<^verbatim>\<open>setup\<close> hands to \<^verbatim>\<open>run\<close> and
  \<^verbatim>\<open>teardown\<close> is the type parameter; \<^verbatim>\<open>argv\<close> carries its own length.
\<close>

record 'arg test_case =
  test_suite :: string
  num :: int
  tc_setup :: "int \<Rightarrow> string list \<Rightarrow> 'arg prog"
  tc_run :: "int \<Rightarrow> 'arg \<Rightarrow> verdict prog"
  tc_teardown :: "int \<Rightarrow> 'arg \<Rightarrow> unit prog"

text \<open>The macros \<^verbatim>\<open>SETUP_EMPTY\<close> and \<^verbatim>\<open>TEARDOWN_EMPTY\<close>.\<close>

definition SETUP_EMPTY :: "int \<Rightarrow> string list \<Rightarrow> 'arg option prog" where
  "SETUP_EMPTY tc_num tc_argv = Return None"

definition TEARDOWN_EMPTY :: "int \<Rightarrow> 'arg \<Rightarrow> unit prog" where
  "TEARDOWN_EMPTY tc_num tc_arg = Return ()"

text \<open>
  The macros \<^verbatim>\<open>SETUP_ALIAS\<close>, \<^verbatim>\<open>RUN_ALIAS\<close> and \<^verbatim>\<open>TEARDOWN_ALIAS\<close>: the functions of
  another case of the suite, called with the alias's own number.
\<close>

definition tc_alias :: "int \<Rightarrow> 'arg test_case \<Rightarrow> 'arg test_case" where
  "tc_alias alias_num tc = tc\<lparr>num := alias_num\<rparr>"

definition run_test_case :: "'arg test_case \<Rightarrow> string list \<Rightarrow> verdict prog" where
  "run_test_case tc argv =
     call (tc_setup tc (num tc) argv) (\<lambda>args.
     call (tc_run tc (num tc) args) (\<lambda>msg.
     call (tc_teardown tc (num tc) args) (\<lambda>_.
     Return msg)))"

fun find_test_case :: "'arg test_case list \<Rightarrow> string \<Rightarrow> int \<Rightarrow> 'arg test_case option" where
  "find_test_case [] ts n = None"
| "find_test_case (tc # test_cases) ts n =
     (if num tc = n \<and> test_suite tc = ts then Some tc else find_test_case test_cases ts n)"

subsection \<open>The main program\<close>

fun usage_suites :: "string list \<Rightarrow> 'a prog \<Rightarrow> 'a prog" where
  "usage_suites [] k = k"
| "usage_suites (s # ss) k = Printf ''             %s\<newline>'' [FStr s] (usage_suites ss k)"

definition usage :: "string list \<Rightarrow> string \<Rightarrow> 'a prog \<Rightarrow> 'a prog" where
  "usage test_suites the_app k =
     Printf ''Usage: %s -s test_suite -n test_number [-h] -- [args]\<newline>'' [FStr the_app] (
     Printf ''   -s      test suite name.\<newline>'' [] (
     usage_suites test_suites (
     Printf ''   -n      test case number.\<newline>'' [] (
     Printf ''   -h      show this message.\<newline>'' [] (
     Printf ''   args    test case arguments.\<newline>'' [] k)))))"

abbreviation (input) INT_MIN :: int where "INT_MIN \<equiv> - 2147483648"
abbreviation (input) EXIT_SUCCESS :: int where "EXIT_SUCCESS \<equiv> 0"
abbreviation (input) EXIT_FAILURE :: int where "EXIT_FAILURE \<equiv> 1"

text \<open>The option loop: it ends with the suite and number found, or leaves \<^verbatim>\<open>main\<close> with a status.\<close>

datatype optloop = Parsed "string option" int | Leave int

fun main_options :: "optres list \<Rightarrow> string option \<Rightarrow> int \<Rightarrow> optloop" where
  "main_options [] ts n = Parsed ts n"
| "main_options ((opt, optarg) # rs) ts n =
     (if opt = CHR ''s'' then main_options rs optarg n
      else if opt = CHR ''n'' then main_options rs ts (case optarg of None \<Rightarrow> 0 | Some a \<Rightarrow> atoi a)
      else if opt = CHR ''h'' then Leave EXIT_SUCCESS
      else Leave EXIT_FAILURE)"

text \<open>\<^verbatim>\<open>argv[optind - 1] = argv[0]; argv += (optind - 1)\<close>\<close>

definition shift_argv :: "string list \<Rightarrow> nat \<Rightarrow> string list" where
  "shift_argv argv optind = drop (optind - 1) (argv[optind - 1 := hd argv])"

fun print_args :: "string list \<Rightarrow> 'a prog \<Rightarrow> 'a prog" where
  "print_args [] k = k"
| "print_args (a # as) k = Printf ''%s '' [FStr a] (print_args as k)"

text \<open>The end of \<^verbatim>\<open>main\<close>, from the lookup on.\<close>

definition main_run :: "'arg test_case \<Rightarrow> string list \<Rightarrow> int prog" where
  "main_run tc argv =
     Printf ''TEST_SUITE: %s\<newline>'' [FStr (test_suite tc)] (
     Printf ''TEST_NUMBER: %d\<newline>'' [FInt (num tc)] (
     Printf ''ARGS: '' [] (
     print_args (tl argv) (
     Printf ''\<newline>'' [] (
     call (run_test_case tc argv) (\<lambda>result.
       case result of
         Some msg \<Rightarrow> Printf ''RESULT: %s\<newline>'' [FStr msg] (Return EXIT_FAILURE)
       | None \<Rightarrow> Printf ''RESULT: ok\<newline>'' [] (Return EXIT_SUCCESS)))))))"

definition main :: "string list \<Rightarrow> 'arg test_case list \<Rightarrow> string list \<Rightarrow> int prog" where
  "main test_suites test_cases argv0 =
     (let the_app = hd argv0;
          (opts, argv, optind) = getopt_all None ''s:n:h'' argv0
      in case main_options opts None INT_MIN of
        Leave st \<Rightarrow> usage test_suites the_app (Return st)
      | Parsed ts n \<Rightarrow>
          (let argv' = shift_argv argv optind in
           if ts = None \<or> n = INT_MIN then usage test_suites the_app (Return EXIT_FAILURE)
           else (case find_test_case test_cases (the ts) n of
                   None \<Rightarrow> Printf ''%s#%d is not found.\<newline>'' [FStr (the ts), FInt n] (Return EXIT_FAILURE)
                 | Some tc \<Rightarrow> main_run tc argv')))"

subsection \<open>Helpers\<close>

definition align_down :: "u64 \<Rightarrow> u64 \<Rightarrow> u64" where
  "align_down addr sz = addr AND NOT (sz - 1)"

definition align_up :: "u64 \<Rightarrow> u64 \<Rightarrow> u64" where
  "align_up addr sz = align_down (addr + sz - 1) sz"

definition PAGE_SIZE :: u64 where "PAGE_SIZE = push_bit 12 1"
definition PAGE_OFFSET :: u64 where "PAGE_OFFSET = PAGE_SIZE - 1"
definition PAGE_MASK :: u64 where "PAGE_MASK = NOT PAGE_OFFSET"
definition LARGE_PAGE_SIZE :: u64 where "LARGE_PAGE_SIZE = push_bit 21 1"
definition LARGEST_PAGE_SIZE :: u64 where "LARGEST_PAGE_SIZE = push_bit 30 1"

lemma page_size_numerals [abi_defs]:
  "PAGE_SIZE = 4096" "LARGE_PAGE_SIZE = 2097152" "LARGEST_PAGE_SIZE = 1073741824"
  by (simp_all add: PAGE_SIZE_def LARGE_PAGE_SIZE_def LARGEST_PAGE_SIZE_def)

text \<open>
  \<^verbatim>\<open>test_mck_create_temp_file\<close>: the string built by \<^verbatim>\<open>asprintf\<close> is a heap block (its
  address) and its contents, which \<^verbatim>\<open>mkstemp\<close> overwrites with the name it chose. The result of
  \<^verbatim>\<open>lseek\<close> goes through an \<^verbatim>\<open>int\<close>.
\<close>

type_synonym cstr = "u64 \<times> string"

definition create_temp_fail :: "int \<Rightarrow> cstr option \<Rightarrow> cstr option prog" where
  "create_temp_fail fd path =
     (let rest = (case path of
                    None \<Rightarrow> Return None
                  | Some (ptr, _) \<Rightarrow> free ptr (Return None))
      in if fd \<noteq> - 1
         then sys_int (File (Close fd)) (\<lambda>_.
              sys_int (File (Unlink (case path of None \<Rightarrow> [] | Some (_, name) \<Rightarrow> name))) (\<lambda>_. rest))
         else rest)"

text \<open>From the \<^verbatim>\<open>lseek\<close> on: the last byte is written, so that the file has its size.\<close>

definition temp_file_fill :: "int \<Rightarrow> cstr \<Rightarrow> u64 \<Rightarrow> cstr option prog" where
  "temp_file_fill fd path sz =
     sys_int (File (Lseek fd (sint (sz - 1)) 0)) (\<lambda>off.
       (let state = c_int off in
        if state = - 1 then create_temp_fail fd (Some path)
        else sys_int (File (Write fd ''Z'')) (\<lambda>_.
             sys_int (File (Fsync fd)) (\<lambda>_.
             sys_int (File (Close fd)) (\<lambda>_.
             Return (Some path))))))"

definition test_mck_create_temp_file :: "string \<Rightarrow> u64 \<Rightarrow> cstr option prog" where
  "test_mck_create_temp_file prefix sz =
     (let tmpl = prefix @ ''-XXXXXX'' in
      Sys (Mem (Malloc (of_nat (length tmpl + 1)))) (\<lambda>m. case m of
        SErr e \<Rightarrow> SetErrno e (create_temp_fail (- 1) None)
      | SOk ptr _ \<Rightarrow>
          sys_out (File (Mkstemp tmpl)) [OStr tmpl] (\<lambda>fd os.
          (let path = (word_of_int ptr, case os of [OStr name] \<Rightarrow> name | _ \<Rightarrow> tmpl) in
           if fd = - 1 then create_temp_fail fd (Some path)
           else temp_file_fill fd path sz))))"

definition test_mck_delete_temp_file :: "cstr option \<Rightarrow> unit prog" where
  "test_mck_delete_temp_file path =
     (case path of
        None \<Rightarrow> Return ()
      | Some (ptr, name) \<Rightarrow>
          sys_int (File (Unlink name)) (\<lambda>_. free ptr (Return ())))"

text \<open>
  \<^verbatim>\<open>test_mck_strtoul\<close>: the comparison with \<^verbatim>\<open>LONG_MIN\<close> and \<^verbatim>\<open>LONG_MAX\<close> converts them
  to \<^verbatim>\<open>unsigned long\<close>.
\<close>

definition test_mck_strtoul :: "string option \<Rightarrow> u64 \<Rightarrow> u64 prog" where
  "test_mck_strtoul nptr default_value =
     (case nptr of
        None \<Rightarrow> Return default_value
      | Some s \<Rightarrow>
          SetErrno 0
            (case strtoll 0 s of (v, noconv, erange) \<Rightarrow>
               (let rest = Errno (\<lambda>e.
                      let ret = word_of_int v :: u64 in
                      if ret = 0 \<and> noconv then Return default_value
                      else if (ret = word_of_int LONG_MIN \<or> ret = word_of_int LONG_MAX) \<and> e = ERANGE
                      then Return default_value
                      else Return ret)
                in if erange then SetErrno ERANGE rest else rest)))"

definition gettid :: "(int \<Rightarrow> 'a prog) \<Rightarrow> 'a prog" where
  "gettid k = sys_int (Proc Gettid) k"

subsection \<open>The table and the command line\<close>

lemma find_test_case_Some:
  assumes "find_test_case tcs ts n = Some tc"
  shows "tc \<in> set tcs \<and> test_suite tc = ts \<and> num tc = n"
  using assms by (induction tcs) (auto split: if_splits)

lemma find_test_case_None:
  "find_test_case tcs ts n = None \<longleftrightarrow> (\<forall>tc\<in>set tcs. \<not> (test_suite tc = ts \<and> num tc = n))"
  by (induction tcs) auto

lemma find_test_case_find: "find_test_case tcs ts n = find (\<lambda>tc. (test_suite tc, num tc) = (ts, n)) tcs"
  by (induction tcs) auto

lemma find_registered:
  assumes "distinct (map (\<lambda>tc. (test_suite tc, num tc)) tcs)" "tc \<in> set tcs"
  shows "find_test_case tcs (test_suite tc) (num tc) = Some tc"
  using find_map_key [OF assms] by (simp add: find_test_case_find)

lemma shift_argv_operands:
  assumes "getopt_scan None os as = (rs, es, ns)"
    and "getopt_all None os (a0 # as) = (rs', argv, optind)"
  shows "shift_argv argv optind = a0 # ns"
proof -
  from assms have "argv = a0 # es @ ns" "optind = Suc (length es)"
    by (auto simp: getopt_all_def)
  moreover have "drop (length es) ((a0 # es @ ns)[length es := a0]) = a0 # ns"
  proof (cases es rule: rev_cases)
    case (snoc es' e)
    then show ?thesis by (simp add: list_update_append)
  qed simp
  ultimately show ?thesis by (simp add: shift_argv_def)
qed

lemma getopt_canonical:
  "getopt_scan None ''s:n:h'' (''-s'' # ts # ''-n'' # nn # ''--'' # args) =
     ([(CHR ''s'', Some ts), (CHR ''n'', Some nn)], [''-s'', ts, ''-n'', nn, ''--''], args)"
  by (simp add: opt_elem_def)

lemma main_canonical:
  assumes "- 2147483648 < n" "n < 2147483648"
  shows "main suites tcs (app # ''-s'' # ts # ''-n'' # dec_int n # ''--'' # args) =
    (case find_test_case tcs ts n of
       None \<Rightarrow> Printf ''%s#%d is not found.\<newline>'' [FStr ts, FInt n] (Return 1)
     | Some tc \<Rightarrow> main_run tc (app # args))"
proof -
  let ?as = "''-s'' # ts # ''-n'' # dec_int n # ''--'' # args"
  obtain rs argv optind where g: "getopt_all None ''s:n:h'' (app # ?as) = (rs, argv, optind)"
    by (metis prod_cases3)
  have rs: "rs = [(CHR ''s'', Some ts), (CHR ''n'', Some (dec_int n))]"
    using g by (simp add: getopt_all_def getopt_canonical del: getopt_scan.simps)
  have sh: "shift_argv argv optind = app # args"
    using shift_argv_operands [OF getopt_canonical g] .
  have at: "atoi (dec_int n) = n" using assms by (simp add: atoi_dec)
  show ?thesis
    unfolding main_def g Let_def prod.case rs using assms by (simp add: at sh split: option.splits)
qed

lemma exec_print_args [exec_simps]:
  "exec K (print_args as k) p = exec K k (p\<lparr>out := out p @ map (\<lambda>a. (Stdout, ''%s '', [FStr a])) as\<rparr>)"
  by (induction as arbitrary: p) simp_all

lemma exec_usage_suites [exec_simps]:
  "exec K (usage_suites ss k) p =
     exec K k (p\<lparr>out := out p @ map (\<lambda>s. (Stdout, ''             %s\<newline>'', [FStr s])) ss\<rparr>)"
  by (induction ss arbitrary: p) simp_all

lemma run_test_case_order:
  assumes "exec K (tc_setup tc (num tc) argv) p = (Returned args, p1)"
    and "exec K (tc_run tc (num tc) args) p1 = (Returned v, p2)"
    and "exec K (tc_teardown tc (num tc) args) p2 = (Returned (), p3)"
  shows "exec K (run_test_case tc argv) p = (Returned v, p3)"
  using assms by (simp add: run_test_case_def exec_simps)

subsection \<open>Alignment\<close>

lemma and_not_mask: fixes a :: u64 shows "a AND NOT (mask k) = a - take_bit k a"
proof -
  have "(a AND NOT (mask k)) + (a AND mask k) = (a AND NOT (mask k)) OR (a AND mask k)"
    by (rule disjunctive_add_eq_or) (simp add: bit_eq_iff bit_simps)
  also have "\<dots> = a" by (rule bit_eqI) (auto simp: bit_simps)
  finally show ?thesis by (simp add: take_bit_eq_mask algebra_simps eq_diff_eq)
qed

lemma unat_exp [simp]: "k < 64 \<Longrightarrow> unat (2 ^ k :: u64) = 2 ^ k"
proof -
  assume "k < 64"
  then have "(2::nat) ^ k < 2 ^ 64" by (rule power_strict_increasing) simp
  moreover have "(2 ^ k :: u64) = of_nat (2 ^ k)" by simp
  ultimately show ?thesis by (simp only: unat_of_nat) simp
qed

lemma unat_align_down:
  assumes "k < 64"
  shows "unat (align_down a (2 ^ k)) = unat a div 2 ^ k * 2 ^ k"
proof -
  have eq: "align_down a (2 ^ k) = a - take_bit k a"
    by (simp add: align_down_def and_not_mask flip: mask_eq_exp_minus_1)
  have tb: "unat (take_bit k a) = unat a mod 2 ^ k"
    using assms by (simp add: take_bit_eq_mod unat_mod)
  then have "take_bit k a \<le> a" by (simp add: word_le_nat_alt)
  then have "unat (align_down a (2 ^ k)) = unat a - unat a mod 2 ^ k"
    by (simp add: eq unat_sub tb)
  also have "\<dots> = unat a div 2 ^ k * 2 ^ k" by (simp add: minus_mod_eq_div_mult)
  finally show ?thesis .
qed

lemma unat_align_up:
  assumes "k < 64" "unat a + 2 ^ k \<le> 2 ^ 64"
  shows "unat (align_up a (2 ^ k)) = (unat a + 2 ^ k - 1) div 2 ^ k * 2 ^ k"
proof -
  have p: "unat (2 ^ k :: u64) = 2 ^ k" using assms(1) by simp
  have e: "a + 2 ^ k - 1 = a + (2 ^ k - 1)" by simp
  moreover have "unat (2 ^ k - 1 :: u64) = 2 ^ k - 1"
    using assms(1) p by (subst unat_minus_one) auto
  ultimately have "unat (a + 2 ^ k - 1) = unat a + (2 ^ k - 1)"
    using assms(2) p unat_plus_no_wrap [of a "2 ^ k - 1"] unfolding e by simp
  then show ?thesis
    unfolding align_up_def by (simp add: unat_align_down assms(1))
qed


subsection \<open>Temporary files\<close>

lemma exec_create_temp_fail:
  assumes K: "conforms_file K view"
    and fd: "fd \<noteq> - 1 \<Longrightarrow> path = Some (ptr, name) \<and> fds (view (kst p)) fd = Some (name, off, O_RDWR) \<and>
            files (view (kst p)) name \<noteq> None"
  shows "\<exists>p'. exec K (create_temp_fail fd path) p = (Returned None, p') \<and>
     (if fd = - 1 then view (kst p') = view (kst p)
      else fds (view (kst p')) = (fds (view (kst p)))(fd := None) \<and>
           files (view (kst p')) = (files (view (kst p)))(name := None))"
proof (cases "fd = - 1")
  case True
  then show ?thesis
    by (cases path) (simp_all add: create_temp_fail_def exec_simps conforms_fileD [OF K] fd_regular_def split: prod.split)
next
  case False
  with fd show ?thesis
    by (auto simp: create_temp_fail_def exec_simps conforms_fileD [OF K] fd_regular_def)
qed

lemma c_int_size_minus_one: "c_int (sint (sz - 1 :: u64)) = - 1 \<longleftrightarrow> unat sz mod 2 ^ 32 = 0"
proof -
  have "c_int (sint (sz - 1 :: u64)) = - 1 \<longleftrightarrow> (ucast (sz - 1) :: u32) = - 1"
    unfolding c_int_sint using signed_word_eqI [of "ucast (sz - 1) :: u32" "- 1"] by auto
  also have "\<dots> \<longleftrightarrow> (ucast sz :: u32) - 1 = - 1"
  proof -
    have "(ucast (sz - 1) :: u32) = ucast sz - 1"
      by transfer (simp add: take_bit_eq_mod minus_one_mod_cancel mod_mod_cancel)
    then show ?thesis by simp
  qed
  also have "\<dots> \<longleftrightarrow> unat (ucast sz :: u32) = 0"
    by (simp add: unat_eq_0)
  also have "\<dots> \<longleftrightarrow> unat sz mod 2 ^ 32 = 0"
    by (simp add: unsigned_ucast_eq take_bit_eq_mod)
  finally show ?thesis .
qed

lemma sint_size_minus_one:
  assumes "sz \<noteq> (0 :: u64)"
  shows "unat sz \<le> 2 ^ 63 \<Longrightarrow> sint (sz - 1) = int (unat sz) - 1"
    and "2 ^ 63 < unat sz \<Longrightarrow> sint (sz - 1) < 0"
proof -
  have "unat (sz - 1) = unat sz - 1" and pos: "0 < unat sz"
    using assms by (simp_all add: unat_minus_one unat_gt_0)
  then have u: "uint (sz - 1) = int (unat sz) - 1"
    by (metis One_nat_def Suc_leI of_nat_1 of_nat_diff uint_nat)
  show "sint (sz - 1) = int (unat sz) - 1" if "unat sz \<le> 2 ^ 63"
  proof -
    have "0 \<le> uint (sz - 1)" "uint (sz - 1) < 2 ^ 63"
      using that pos u unfolding uint_nat [of "sz - 1"] by (simp_all del: of_nat_unat)
    then show ?thesis unfolding sint_uint u [symmetric] by (intro signed_take_bit_int_eq_self) (simp_all add: order_trans [OF _ uint_ge_0])
  qed
  show "sint (sz - 1) < 0" if "2 ^ 63 < unat sz"
  proof -
    have "2 ^ 63 \<le> uint (sz - 1)" using that u unfolding uint_nat [of "sz - 1"] by (simp del: of_nat_unat)
    then show ?thesis using uint_lt2p [of "sz - 1"] unfolding sint_uint
      by (simp add: signed_take_bit_negative_iff bit_iff_odd div_pos_geq div_pos_pos_trivial)
  qed
qed

text \<open>The sizes for which seeking to the last byte works and its result survives the \<^verbatim>\<open>int\<close>.\<close>

definition seek_fits :: "u64 \<Rightarrow> bool" where
  "seek_fits sz \<longleftrightarrow> unat sz mod 2 ^ 32 \<noteq> 0 \<and> unat sz \<le> 2 ^ 63"

lemma seek_fitsD:
  assumes "seek_fits sz"
  shows "sint (sz - 1) = int (unat sz - 1)" "c_int (int (unat sz - 1)) \<noteq> - 1"
proof -
  have "sz \<noteq> 0" "unat sz \<le> 2 ^ 63" using assms by (auto simp: seek_fits_def)
  then show s: "sint (sz - 1) = int (unat sz - 1)"
    using sint_size_minus_one(1) [of sz] by (simp add: of_nat_diff Suc_leI unat_gt_0 del: of_nat_unat)
  show "c_int (int (unat sz - 1)) \<noteq> - 1"
    using assms c_int_size_minus_one [of sz] unfolding s [symmetric] by (simp add: seek_fits_def)
qed

lemma not_seek_fitsD: "\<not> seek_fits sz \<Longrightarrow> sint (sz - 1) < 0 \<or> c_int (sint (sz - 1)) = - 1"
  using c_int_size_minus_one [of sz] sint_size_minus_one(2) [of sz]
  by (cases "sz = 0") (auto simp: seek_fits_def not_le)

lemma exec_temp_file_fill:
  assumes K: "conforms_file K view" and sz: "seek_fits sz"
    and fd: "fds (view (kst p)) fd = Some (name, 0, O_RDWR)" "files (view (kst p)) name = Some []"
  shows "\<exists>p'. exec K (temp_file_fill fd (ptr, name) sz) p = (Returned (Some (ptr, name)), p') \<and>
     fds (view (kst p')) = (fds (view (kst p)))(fd := None) \<and>
     files (view (kst p')) = (files (view (kst p)))(name \<mapsto> replicate (unat sz - 1) (CHR 0x00) @ ''Z'')"
  using seek_fitsD [OF sz]
  by (simp add: temp_file_fill_def exec_simps conforms_fileD [OF K] fd_regular_def fd write_at_end del: of_nat_diff)

lemma exec_temp_file_fill_fail:
  assumes K: "conforms_file K view" and sz: "\<not> seek_fits sz"
    and fd: "fd \<noteq> - 1" "fds (view (kst p)) fd = Some (name, 0, O_RDWR)" "files (view (kst p)) name = Some []"
  shows "\<exists>p'. exec K (temp_file_fill fd (ptr, name) sz) p = (Returned None, p') \<and>
     fds (view (kst p')) = (fds (view (kst p)))(fd := None) \<and>
     files (view (kst p')) = (files (view (kst p)))(name := None)"
  using not_seek_fitsD [OF sz] fd
  by (cases "sint (sz - 1) < 0")
     (simp_all add: temp_file_fill_def create_temp_fail_def exec_simps conforms_fileD [OF K] fd_regular_def)

definition temp_file_possible :: "'s kernel \<Rightarrow> string \<Rightarrow> 's \<Rightarrow> bool" where
  "temp_file_possible K prefix s \<longleftrightarrow>
     (let m = Mem (Malloc (of_nat (length (prefix @ ''-XXXXXX'') + 1)))
      in succeeds (fst (k_sys K m s)) \<and>
         succeeds (fst (k_sys K (File (Mkstemp (prefix @ ''-XXXXXX''))) (snd (k_sys K m s)))))"

text \<open>What \<^verbatim>\<open>main\<close> prints before and after the run.\<close>

definition banner :: "'arg test_case \<Rightarrow> string list \<Rightarrow> (stream \<times> string \<times> fmtarg list) list" where
  "banner tc args =
     [(Stdout, ''TEST_SUITE: %s\<newline>'', [FStr (test_suite tc)]),
      (Stdout, ''TEST_NUMBER: %d\<newline>'', [FInt (num tc)]),
      (Stdout, ''ARGS: '', [])] @
     map (\<lambda>a. (Stdout, ''%s '', [FStr a])) args @
     [(Stdout, ''\<newline>'', [])]"

definition result_line :: "verdict \<Rightarrow> stream \<times> string \<times> fmtarg list" where
  "result_line v = (case v of
     None \<Rightarrow> (Stdout, ''RESULT: ok\<newline>'', [])
   | Some msg \<Rightarrow> (Stdout, ''RESULT: %s\<newline>'', [FStr msg]))"

lemma exec_main_run:
  "exec K (main_run tc argv) p =
     (case exec K (run_test_case tc argv) (p\<lparr>out := out p @ banner tc (tl argv)\<rparr>) of
        (Returned v, p') \<Rightarrow> (Returned (if v = None then 0 else 1), p'\<lparr>out := out p' @ [result_line v]\<rparr>)
      | (Exited n, p') \<Rightarrow> (Exited n, p')
      | (Killed sg, p') \<Rightarrow> (Killed sg, p')
      | (Undefined, p') \<Rightarrow> (Undefined, p'))"
  by (simp add: main_run_def exec_print_args exec_call banner_def result_line_def
      split: prod.split outcome.split option.split)

text \<open>A test case of the simplest kind, for examples.\<close>

definition sample_case :: "unit option test_case" where
  "sample_case =
     \<lparr>test_suite = ''sample'', num = 7, tc_setup = SETUP_EMPTY,
      tc_run = (\<lambda>_ _. sys_int (Cred Getuid) (\<lambda>u. tp_assert (u = 0) ''not root'' (Return None))),
      tc_teardown = TEARDOWN_EMPTY\<rparr>"

lemma main_options_success: "main_options rs ts n = Leave 0 \<Longrightarrow> \<exists>a. (CHR ''h'', a) \<in> set rs"
  by (induction rs ts n rule: main_options.induct) (auto split: if_splits)

lemma exec_usage: "fst (exec K (usage suites a (Return st)) p) = Returned st"
  by (simp add: usage_def exec_usage_suites)

lemma silent_strtoul: "silent (test_mck_strtoul s d)"
  by (simp add: test_mck_strtoul_def Let_def split: option.split prod.split)

subsection \<open>Properties\<close>

text \<open>C3. For every registered test case, the command line \<^verbatim>\<open>-s suite -n number -- args\<close> makes
  \<^verbatim>\<open>main\<close> print the banner, run exactly that case with the program name and the operands as its
  arguments, print the result line, and return success exactly when the case returned no
  message.\<close>

theorem main_runs_registered_case:
  assumes "- 2147483648 < n" "n < 2147483648" "find_test_case tcs ts n = Some tc"
    and "exec K (run_test_case tc (app # args)) (p\<lparr>out := out p @ banner tc args\<rparr>) = (Returned v, p')"
  shows "exec K (main suites tcs (app # ''-s'' # ts # ''-n'' # dec_int n # ''--'' # args)) p =
     (Returned (if v = None then 0 else 1), p'\<lparr>out := out p' @ [result_line v]\<rparr>)"
  using assms by (simp add: main_canonical exec_main_run)

theorem main_runs_registered_case_witness:
  "fst (exec ref_kernel
     (main [''sample''] [sample_case] (''mck'' # ''-s'' # ''sample'' # ''-n'' # dec_int 7 # ''--'' # [''x'']))
     init_process) = Returned 0"
  using main_runs_registered_case [of 7 "[sample_case]" "''sample''" sample_case ref_kernel "''mck''" "[''x'']"
      init_process None "init_process\<lparr>out := banner sample_case [''x'']\<rparr>" "[''sample'']"]
  by (simp add: sample_case_def run_test_case_def SETUP_EMPTY_def TEARDOWN_EMPTY_def init_process_def
      exec_simps ref_kernel_def init_world_def)



text \<open>C39. The lookup finds the first case of the table with the given suite and number, and nothing when
  the table has none.\<close>

theorem find_test_case_first:
  "find_test_case tcs ts n = r \<longleftrightarrow>
     (case r of
        None \<Rightarrow> \<not> (\<exists>tc. tc \<in> set tcs \<and> test_suite tc = ts \<and> num tc = n)
      | Some tc \<Rightarrow> \<exists>i<length tcs. tcs ! i = tc \<and> test_suite tc = ts \<and> num tc = n \<and>
           \<not> (\<exists>j<i. test_suite (tcs ! j) = ts \<and> num (tcs ! j) = n))"
  by (cases r) (auto simp: find_test_case_find find_first_match find_None_iff)

text \<open>C37. \<^verbatim>\<open>align_down\<close> is the greatest multiple of a power of two not above the address, and
  \<^verbatim>\<open>align_up\<close> the least one not below it, except in the last block of the address space, where
  the sum wraps and the result is 0.\<close>

theorem align_bounds:
  assumes "k < 64"
  shows "2 ^ k dvd unat (align_down a (2 ^ k)) \<and>
    unat (align_down a (2 ^ k)) \<le> unat a \<and> unat a < unat (align_down a (2 ^ k)) + 2 ^ k \<and>
    (if unat a + 2 ^ k \<le> 2 ^ 64
     then 2 ^ k dvd unat (align_up a (2 ^ k)) \<and>
          unat a \<le> unat (align_up a (2 ^ k)) \<and> unat (align_up a (2 ^ k)) < unat a + 2 ^ k
     else align_up a (2 ^ k) = 0)"
proof -
  define m where "m = (2 ^ k :: nat)"
  have m: "0 < m" by (simp add: m_def)
  have down: "unat a div m * m \<le> unat a" "unat a < m + unat a div m * m"
    using dividend_less_div_times [OF m, of "unat a"] by simp_all
  have up: "unat a \<le> (unat a + m - 1) div m * m" "(unat a + m - 1) div m * m < unat a + m"
    using dividend_less_div_times [OF m, of "unat a + m - 1"] div_times_less_eq_dividend [of "unat a + m - 1" m] m
    by linarith+
  have lt: "unat a < 2 ^ 64" using unsigned_less [of a, where 'a = nat] by simp
  have wrap: "align_up a (2 ^ k) = 0" if "\<not> unat a + m \<le> 2 ^ 64"
  proof -
    have e: "a + 2 ^ k - 1 = a + (2 ^ k - 1)" by simp
    have "unat (2 ^ k - 1 :: u64) = m - 1"
      using assms by (simp add: unat_minus_one m_def)
    then have "unat (a + 2 ^ k - 1) = (unat a + (m - 1)) mod 2 ^ 64"
      unfolding e by (simp add: unat_word_ariths)
    also have "\<dots> = (unat a + (m - 1) - 2 ^ 64) mod 2 ^ 64"
      using that m by (intro le_mod_geq) simp
    also have "\<dots> \<le> unat a + (m - 1) - 2 ^ 64" by (rule mod_less_eq_dividend)
    also have "\<dots> < m" using that m lt by simp
    finally have "unat (a + 2 ^ k - 1) < m" .
    then show ?thesis
      by (simp add: align_up_def unat_align_down [OF assms] m_def flip: unat_eq_0)
  qed
  show ?thesis
    using unat_align_down [OF assms, of a] unat_align_up [OF assms, of a] down up wrap
    unfolding m_def [symmetric] by (auto simp: algebra_simps)
qed

theorem align_bounds_witness:
  "2 ^ 12 dvd unat (align_down 5000 (2 ^ 12)) \<and> unat (align_down 5000 (2 ^ 12)) \<le> 5000 \<and>
   align_up (- 1) (2 ^ 12) = 0"
  using align_bounds [of 12 5000] align_bounds [of 12 "- 1"] by (simp add: unsigned_minus_1_eq_mask mask_eq_exp_minus_1)

text \<open>C38. \<^verbatim>\<open>test_mck_strtoul\<close> reads back every decimal number below 2^63; from 2^63 on it answers the default,
  although the type of its result reaches 2^64, because the conversion goes through \<^verbatim>\<open>strtoll\<close>.\<close>

theorem test_mck_strtoul_decimal:
  "fst (exec K (test_mck_strtoul (Some (dec_nat n)) d) p) = Returned (if n < 2 ^ 63 then of_nat n else d)"
proof (cases "n < 2 ^ 63")
  case True
  then have "int n \<le> LONG_MAX" by simp
  with True show ?thesis
    by (simp add: test_mck_strtoul_def strtoll_def strto_int_0_dec)
next
  case False
  then have "LONG_MAX < int n" by simp
  with False show ?thesis
    by (simp add: test_mck_strtoul_def strtoll_def strto_int_0_dec)
qed



end
