(* ===== verification/Mremap_Anon.thy ===== *)
theory Mremap_Anon
  imports Test_Mck
begin

text \<open>
  The suite \<^verbatim>\<open>src/test_mck/src/mremap_mmap_anon\<close>: its shared functions
  (\<^verbatim>\<open>mremap_mmap_anon.c\<close>) and its 68 test cases. The cases are 17 bodies in four variants:
  the hundreds digit of a case's number selects private or shared mappings and ranges of four
  pages or of a large page. Each body is written once over these two parameters
  (\<^verbatim>\<open>run_000\<close> to \<^verbatim>\<open>run_016\<close>, and \<^verbatim>\<open>run_103\<close> and \<^verbatim>\<open>run_105\<close> where the
  shared variants differ) and every source file has a definition that instantiates it.
\<close>

subsection \<open>Arguments\<close>

record mremap_args =
  text_arg :: u64
  text_len :: u64
  data_arg :: u64
  data_len :: u64
  bss_arg :: u64
  bss_len :: u64

definition mremap_longopts :: "longopt list" where
  "mremap_longopts =
     [(''text'', CHR ''t''), (''text-len'', CHR ''T''), (''data'', CHR ''d''),
      (''data-len'', CHR ''D''), (''bss'', CHR ''b''), (''bss-len'', CHR ''B'')]"

definition set_mremap_arg :: "char \<Rightarrow> u64 \<Rightarrow> mremap_args \<Rightarrow> mremap_args" where
  "set_mremap_arg opt v a =
     (if opt = CHR ''t'' then a\<lparr>text_arg := v\<rparr>
      else if opt = CHR ''T'' then a\<lparr>text_len := v\<rparr>
      else if opt = CHR ''d'' then a\<lparr>data_arg := v\<rparr>
      else if opt = CHR ''D'' then a\<lparr>data_len := v\<rparr>
      else if opt = CHR ''b'' then a\<lparr>bss_arg := v\<rparr>
      else if opt = CHR ''B'' then a\<lparr>bss_len := v\<rparr>
      else a)"

fun mremap_parse_loop :: "optres list \<Rightarrow> mremap_args \<Rightarrow> mremap_args prog" where
  "mremap_parse_loop [] a = Return a"
| "mremap_parse_loop ((opt, optarg) # rs) a =
     (if opt = CHR ''?'' then mremap_parse_loop rs a
      else call (test_mck_strtoul optarg 0) (\<lambda>v. mremap_parse_loop rs (set_mremap_arg opt v a)))"

definition mremap_mmap_anon_parse_argument :: "string list \<Rightarrow> mremap_args prog" where
  "mremap_mmap_anon_parse_argument argv =
     mremap_parse_loop (fst (getopt_all (Some mremap_longopts) ''t:T:d:D:b:B:'' argv))
       \<lparr>text_arg = 0, text_len = 0, data_arg = 0, data_len = 0, bss_arg = 0, bss_len = 0\<rparr>"

definition mremap_mmap_anon_verify_section_argument :: "mremap_args \<Rightarrow> verdict prog" where
  "mremap_mmap_anon_verify_section_argument args =
     tp_assert (text_arg args \<noteq> 0) ''invalid argument(-t, --text).'' (
     tp_assert (text_len args \<noteq> 0) ''invalid argument(-T, --text-len).'' (
     tp_assert (data_arg args \<noteq> 0) ''invalid argument(-d, --data).'' (
     tp_assert (data_len args \<noteq> 0) ''invalid argument(-D, --data-len).'' (
     tp_assert (bss_arg args \<noteq> 0) ''invalid argument(-b, --bss).'' (
     tp_assert (bss_len args \<noteq> 0) ''invalid argument(-B, --bss-len).'' (
     Return None))))))"

subsection \<open>Shared functions\<close>

definition mremap_mmap_anon_signal_handler :: sighandler where
  "mremap_mmap_anon_signal_handler = SIG_EXIT 0"

definition mremap_mmap_anon_setup_signal_handler :: "int \<Rightarrow> verdict prog" where
  "mremap_mmap_anon_setup_signal_handler signum =
     Sigaction signum mremap_mmap_anon_signal_handler (\<lambda>r. case r of
       SErr e \<Rightarrow> SetErrno e (Return (Some ''sigaction(SIGSEGV) error.''))
     | SOk v _ \<Rightarrow> if 0 \<noteq> v then Return (Some ''sigaction(SIGSEGV) error.'') else Return None)"

record mremap_mmap_anon_param =
  addr :: u64
  psize :: u64
  nopage :: int
  shared :: int
  prot :: int

text \<open>The designated initialisers of the test cases.\<close>

definition use_space :: "u64 \<Rightarrow> int \<Rightarrow> int \<Rightarrow> mremap_mmap_anon_param" where
  "use_space sz pr sh = \<lparr>addr = 0, psize = sz, nopage = 0, shared = sh, prot = pr\<rparr>"

definition free_space :: "u64 \<Rightarrow> mremap_mmap_anon_param" where
  "free_space sz = \<lparr>addr = 0, psize = sz, nopage = 1, shared = 0, prot = 0\<rparr>"

text \<open>The first loop of \<^verbatim>\<open>mremap_mmap_anon\<close>: the sizes are added up until the sum wraps.\<close>

fun init_params :: "mremap_mmap_anon_param list \<Rightarrow> u64 \<Rightarrow> mremap_mmap_anon_param list \<times> u64 option" where
  "init_params [] total_size = ([], Some total_size)"
| "init_params (q # qs) total_size =
     (let sum = total_size + psize q in
      if sum < total_size then (q # qs, None)
      else apfst (Cons (q\<lparr>addr := MAP_FAILED\<rparr>)) (init_params qs sum))"

definition param_flags :: "mremap_mmap_anon_param \<Rightarrow> int" where
  "param_flags q = (MAP_ANONYMOUS OR MAP_FIXED) OR (if shared q \<noteq> 0 then MAP_SHARED else MAP_PRIVATE)"

text \<open>The second loop, with the parameters already formatted in \<^verbatim>\<open>qs0\<close>.\<close>

fun format_space :: "mremap_mmap_anon_param list \<Rightarrow> mremap_mmap_anon_param list \<Rightarrow> u64
  \<Rightarrow> (nat \<times> mremap_mmap_anon_param list) prog" where
  "format_space qs0 [] a = Return (length qs0, qs0)"
| "format_space qs0 (q # qs) a =
     (let q' = q\<lparr>addr := a\<rparr> in
      if nopage q' \<noteq> 0 then
        sys_int (Mem (Munmap a (psize q'))) (\<lambda>r.
          if 0 \<noteq> r then Return (length qs0, qs0 @ q' # qs)
          else format_space (qs0 @ [q']) qs (a + psize q'))
      else
        sys_ptr (Mem (Mmap a (psize q') (prot q') (param_flags q') (- 1) 0)) (\<lambda>a'.
          if a' = MAP_FAILED then Return (length qs0, qs0 @ q' # qs)
          else (let k = format_space (qs0 @ [q']) qs (a' + psize q') in
                if prot q' AND PROT_WRITE \<noteq> 0
                then memset (unat (psize q')) a' (0x30 + of_nat (length qs0)) k
                else k)))"

definition mremap_mmap_anon :: "mremap_mmap_anon_param list \<Rightarrow> (nat \<times> mremap_mmap_anon_param list) prog" where
  "mremap_mmap_anon params =
     (case init_params params 0 of
        (params', None) \<Rightarrow> Return (0, params')
      | (params', Some total_size) \<Rightarrow>
          sys_ptr (Mem (Mmap 0 total_size PROT_NONE (MAP_SHARED OR MAP_ANONYMOUS) (- 1) 0)) (\<lambda>a.
            if a = MAP_FAILED then Return (0, params') else format_space [] params' a))"

primrec data_check_loop :: "nat \<Rightarrow> u64 \<Rightarrow> u8 \<Rightarrow> verdict prog" where
  "data_check_loop 0 a ex = Return None"
| "data_check_loop (Suc n) a ex =
     Load a (\<lambda>ch. if ch \<noteq> ex then Return (Some ''data check error.'') else data_check_loop n (a + 1) ex)"

definition mremap_mmap_anon_data_check :: "u64 \<Rightarrow> u64 \<Rightarrow> u8 \<Rightarrow> verdict prog" where
  "mremap_mmap_anon_data_check a len ex = data_check_loop (unat len) a ex"

definition mremap_mmap_anon_access_check :: "u64 \<Rightarrow> u64 \<Rightarrow> verdict prog" where
  "mremap_mmap_anon_access_check a len =
     (if a = 0 then Return (Some ''invalid address'')
      else if len \<le> 0 then Return None
      else
        Store a 0x41 (Load a (\<lambda>ch.
        tp_assert (ch = 0x41) ''first page access error'' (
        Store (a + (len - 1)) 0x5A (Load (a + (len - 1)) (\<lambda>ch.
        tp_assert (ch = 0x5A) ''last page access error'' (
        memset (unat len) a 0x30 (Return None))))))))"

subsection \<open>The blocks of the test bodies\<close>

text \<open>The block \<^verbatim>\<open>//init\<close>.\<close>

definition init_block :: "mremap_mmap_anon_param list \<Rightarrow> (mremap_mmap_anon_param list \<Rightarrow> verdict prog) \<Rightarrow> verdict prog" where
  "init_block params k =
     call (mremap_mmap_anon params) (\<lambda>(maps, params').
       tp_assert (maps = length params) ''mmap error.'' (k params'))"

text \<open>
  The block \<^verbatim>\<open>//remap\<close> in its three forms: the call must succeed, must return the address asked
  for, or must fail with an error number.
\<close>

definition remap_block :: "u64 \<Rightarrow> u64 \<Rightarrow> u64 \<Rightarrow> int \<Rightarrow> (u64 \<Rightarrow> verdict prog) \<Rightarrow> verdict prog" where
  "remap_block a old_size new_size flags k =
     SetErrno 0 (
     sys_ptr (Mem (Mremap a old_size new_size flags 0)) (\<lambda>remap.
     tp_assert (remap \<noteq> MAP_FAILED) ''mremap error.'' (
     Errno (\<lambda>e. tp_assert (e = 0) ''invalid errno.'' (k remap)))))"

definition remap_fixed_block :: "u64 \<Rightarrow> u64 \<Rightarrow> u64 \<Rightarrow> u64 \<Rightarrow> (u64 \<Rightarrow> verdict prog) \<Rightarrow> verdict prog" where
  "remap_fixed_block a old_size new_size naddr k =
     SetErrno 0 (
     sys_ptr (Mem (Mremap a old_size new_size (MREMAP_MAYMOVE OR MREMAP_FIXED) naddr)) (\<lambda>remap.
     tp_assert (remap = naddr) ''mremap error.'' (
     Errno (\<lambda>e. tp_assert (e = 0) ''invalid errno.'' (k remap)))))"

definition remap_error_block :: "u64 \<Rightarrow> u64 \<Rightarrow> u64 \<Rightarrow> int \<Rightarrow> u64 \<Rightarrow> int \<Rightarrow> verdict prog" where
  "remap_error_block a old_size new_size flags naddr err =
     SetErrno 0 (
     sys_ptr (Mem (Mremap a old_size new_size flags naddr)) (\<lambda>remap.
     tp_assert (remap = MAP_FAILED) ''mremap error.'' (
     Errno (\<lambda>e. tp_assert (e = err) ''invalid errno.'' (Return None)))))"

text \<open>The blocks \<^verbatim>\<open>//verify\<close>, \<^verbatim>\<open>//access\<close> and \<^verbatim>\<open>//signal\<close>; the last two end the body.\<close>

definition verify_block :: "u64 \<Rightarrow> u64 \<Rightarrow> u8 \<Rightarrow> verdict prog \<Rightarrow> verdict prog" where
  "verify_block a len ex k = call (mremap_mmap_anon_data_check a len ex) (\<lambda>msg. tp_assert_msg msg k)"

definition access_block :: "u64 \<Rightarrow> u64 \<Rightarrow> verdict prog" where
  "access_block a len = call (mremap_mmap_anon_access_check a len) (\<lambda>msg. tp_assert_msg msg (Return None))"

definition signal_block :: "int \<Rightarrow> u64 \<Rightarrow> verdict prog" where
  "signal_block signum a =
     call (mremap_mmap_anon_setup_signal_handler signum) (\<lambda>msg.
       tp_assert_msg msg (Load a (\<lambda>ch. Return (Some ''signal handling error''))))"

subsection \<open>The test bodies\<close>

definition MREMAP_RANGE_SIZE :: u64 where "MREMAP_RANGE_SIZE = PAGE_SIZE * 4"
definition MREMAP_RANGE_LARGE_SIZE :: u64 where
  "MREMAP_RANGE_LARGE_SIZE = align_up LARGE_PAGE_SIZE MREMAP_RANGE_SIZE"

text \<open>\<^verbatim>\<open>sh\<close> is the \<^verbatim>\<open>.shared\<close> of the used ranges, \<^verbatim>\<open>r\<close> the size of a range.\<close>

definition params_000 :: "int \<Rightarrow> u64 \<Rightarrow> mremap_mmap_anon_param list" where
  "params_000 sh r =
     [use_space r (PROT_READ OR PROT_WRITE) sh,
      use_space r PROT_NONE sh]"

definition run_000 :: "int \<Rightarrow> u64 \<Rightarrow> verdict prog" where
  "run_000 sh r =
     (let params = params_000 sh r; old_size = psize (params ! 0); new_size = old_size in
      init_block params (\<lambda>ps.
      remap_block (addr (ps ! 0)) old_size new_size 0 (\<lambda>remap.
       verify_block remap old_size 0x30 (
       access_block remap new_size))))"

definition params_001 :: "int \<Rightarrow> u64 \<Rightarrow> mremap_mmap_anon_param list" where
  "params_001 sh r =
     [use_space r (PROT_READ OR PROT_WRITE) sh,
      use_space r PROT_NONE sh]"

definition run_001 :: "int \<Rightarrow> u64 \<Rightarrow> verdict prog" where
  "run_001 sh r =
     (let params = params_001 sh r; old_size = 0xffffffffffffe000; new_size = 0xffffffffffffe000 in
      init_block params (\<lambda>ps.
      remap_block (addr (ps ! 0)) old_size new_size 0 (\<lambda>remap.
       verify_block remap (psize (params ! 0)) 0x30 (
       access_block remap (psize (params ! 0))))))"

definition params_002 :: "int \<Rightarrow> u64 \<Rightarrow> mremap_mmap_anon_param list" where
  "params_002 sh r =
     [use_space (r * 2) (PROT_READ OR PROT_WRITE) sh,
      use_space r PROT_NONE sh]"

definition run_002 :: "int \<Rightarrow> u64 \<Rightarrow> verdict prog" where
  "run_002 sh r =
     (let params = params_002 sh r; old_size = psize (params ! 0); new_size = old_size - PAGE_SIZE in
      init_block params (\<lambda>ps.
      remap_block (addr (ps ! 0)) old_size new_size 0 (\<lambda>remap.
       verify_block remap new_size 0x30 (
       access_block remap new_size))))"

definition params_003 :: "int \<Rightarrow> u64 \<Rightarrow> mremap_mmap_anon_param list" where
  "params_003 sh r =
     [use_space r (PROT_READ OR PROT_WRITE) sh,
      free_space r,
      use_space r PROT_NONE sh]"

definition run_003 :: "int \<Rightarrow> u64 \<Rightarrow> verdict prog" where
  "run_003 sh r =
     (let params = params_003 sh r; old_size = psize (params ! 0); new_size = old_size + psize (params ! 1) in
      init_block params (\<lambda>ps.
      remap_block (addr (ps ! 0)) old_size new_size 0 (\<lambda>remap.
       verify_block remap old_size 0x30 (
       access_block remap new_size))))"

definition params_103 :: "int \<Rightarrow> u64 \<Rightarrow> mremap_mmap_anon_param list" where
  "params_103 sh r =
     [use_space r (PROT_READ OR PROT_WRITE) sh,
      free_space r,
      use_space r PROT_NONE sh]"

definition run_103 :: "int \<Rightarrow> u64 \<Rightarrow> verdict prog" where
  "run_103 sh r =
     (let params = params_103 sh r; old_size = psize (params ! 0); new_size = old_size + psize (params ! 1) in
      init_block params (\<lambda>ps.
      remap_block (addr (ps ! 0)) old_size new_size 0 (\<lambda>remap.
       verify_block remap old_size 0x30 (
       signal_block SIGBUS (remap + old_size)))))"

definition params_004 :: "int \<Rightarrow> u64 \<Rightarrow> mremap_mmap_anon_param list" where
  "params_004 sh r =
     [use_space r (PROT_READ OR PROT_WRITE) sh,
      use_space r PROT_NONE sh]"

definition run_004 :: "int \<Rightarrow> u64 \<Rightarrow> verdict prog" where
  "run_004 sh r =
     (let params = params_004 sh r; old_size = psize (params ! 0); new_size = old_size + psize (params ! 1) in
      init_block params (\<lambda>ps.
      remap_error_block (addr (ps ! 0)) old_size new_size 0 0 ENOMEM))"

definition params_005 :: "int \<Rightarrow> u64 \<Rightarrow> mremap_mmap_anon_param list" where
  "params_005 sh r =
     [use_space r (PROT_READ OR PROT_WRITE) sh,
      use_space r PROT_NONE sh]"

definition run_005 :: "int \<Rightarrow> u64 \<Rightarrow> verdict prog" where
  "run_005 sh r =
     (let params = params_005 sh r; old_size = psize (params ! 0); new_size = old_size + psize (params ! 1) in
      init_block params (\<lambda>ps.
      remap_block (addr (ps ! 0)) old_size new_size MREMAP_MAYMOVE (\<lambda>remap.
       verify_block remap old_size 0x30 (
       access_block remap new_size))))"

definition params_105 :: "int \<Rightarrow> u64 \<Rightarrow> mremap_mmap_anon_param list" where
  "params_105 sh r =
     [use_space r (PROT_READ OR PROT_WRITE) sh,
      use_space r PROT_NONE sh]"

definition run_105 :: "int \<Rightarrow> u64 \<Rightarrow> verdict prog" where
  "run_105 sh r =
     (let params = params_105 sh r; old_size = psize (params ! 0); new_size = old_size + psize (params ! 1) in
      init_block params (\<lambda>ps.
      remap_block (addr (ps ! 0)) old_size new_size MREMAP_MAYMOVE (\<lambda>remap.
       verify_block remap old_size 0x30 (
       signal_block SIGBUS (remap + old_size)))))"

definition params_006 :: "int \<Rightarrow> u64 \<Rightarrow> mremap_mmap_anon_param list" where
  "params_006 sh r =
     [use_space r (PROT_READ OR PROT_WRITE) sh,
      free_space r,
      use_space r PROT_NONE sh]"

definition run_006 :: "int \<Rightarrow> u64 \<Rightarrow> verdict prog" where
  "run_006 sh r =
     (let params = params_006 sh r; old_size = psize (params ! 0); new_size = old_size in
      init_block params (\<lambda>ps.
      remap_fixed_block (addr (ps ! 0)) old_size new_size (addr (ps ! 1)) (\<lambda>remap.
       verify_block remap old_size 0x30 (
       access_block remap new_size))))"

definition params_007 :: "int \<Rightarrow> u64 \<Rightarrow> mremap_mmap_anon_param list" where
  "params_007 sh r =
     [use_space r (PROT_READ OR PROT_WRITE) sh,
      use_space r PROT_NONE sh,
      use_space (r * 2) (PROT_READ OR PROT_WRITE) sh,
      use_space r PROT_NONE sh]"

definition run_007 :: "int \<Rightarrow> u64 \<Rightarrow> verdict prog" where
  "run_007 sh r =
     (let params = params_007 sh r; old_size = psize (params ! 0); new_size = old_size in
      init_block params (\<lambda>ps.
      remap_fixed_block (addr (ps ! 0)) old_size new_size (addr (ps ! 2)) (\<lambda>remap.
       verify_block remap old_size 0x30 (
       verify_block (addr (ps ! 2) + new_size) (psize (params ! 2) - new_size) 0x32 (
       access_block remap new_size)))))"

definition params_008 :: "int \<Rightarrow> u64 \<Rightarrow> mremap_mmap_anon_param list" where
  "params_008 sh r =
     [use_space r PROT_NONE sh,
      use_space r PROT_READ sh,
      use_space r (PROT_READ OR PROT_WRITE) sh,
      use_space r PROT_READ sh,
      use_space r PROT_NONE sh]"

definition run_008 :: "int \<Rightarrow> u64 \<Rightarrow> verdict prog" where
  "run_008 sh r =
     (let params = params_008 sh r; old_size = psize (params ! 2); new_size = psize (params ! 1) + psize (params ! 2) + psize (params ! 3) in
      init_block params (\<lambda>ps.
      remap_error_block (addr (ps ! 2)) old_size new_size (MREMAP_MAYMOVE OR MREMAP_FIXED) (addr (ps ! 1)) EINVAL))"

definition params_009 :: "int \<Rightarrow> u64 \<Rightarrow> mremap_mmap_anon_param list" where
  "params_009 sh r =
     [use_space r PROT_NONE sh,
      use_space (r * 2) (PROT_READ OR PROT_WRITE) sh,
      use_space r PROT_NONE sh]"

definition run_009 :: "int \<Rightarrow> u64 \<Rightarrow> verdict prog" where
  "run_009 sh r =
     (let params = params_009 sh r; old_size = psize (params ! 1); new_size = PAGE_SIZE in
      init_block params (\<lambda>ps.
      remap_error_block (addr (ps ! 1)) old_size new_size (MREMAP_MAYMOVE OR MREMAP_FIXED) (addr (ps ! 1) + PAGE_SIZE) EINVAL))"

definition params_010 :: "int \<Rightarrow> u64 \<Rightarrow> mremap_mmap_anon_param list" where
  "params_010 sh r =
     [use_space r PROT_NONE sh,
      free_space r,
      use_space (r * 2) (PROT_READ OR PROT_WRITE) sh,
      use_space r PROT_NONE sh]"

definition run_010 :: "int \<Rightarrow> u64 \<Rightarrow> verdict prog" where
  "run_010 sh r =
     (let params = params_010 sh r; old_size = psize (params ! 2); new_size = old_size in
      init_block params (\<lambda>ps.
      remap_error_block (addr (ps ! 2)) old_size new_size (MREMAP_MAYMOVE OR MREMAP_FIXED) (addr (ps ! 1)) EINVAL))"

definition params_011 :: "int \<Rightarrow> u64 \<Rightarrow> mremap_mmap_anon_param list" where
  "params_011 sh r =
     [use_space r PROT_NONE sh,
      use_space (r * 2) (PROT_READ OR PROT_WRITE) sh,
      free_space r,
      use_space r PROT_NONE sh]"

definition run_011 :: "int \<Rightarrow> u64 \<Rightarrow> verdict prog" where
  "run_011 sh r =
     (let params = params_011 sh r; old_size = psize (params ! 1); new_size = old_size in
      init_block params (\<lambda>ps.
      remap_error_block (addr (ps ! 1)) old_size new_size (MREMAP_MAYMOVE OR MREMAP_FIXED) (addr (ps ! 1) + PAGE_SIZE) EINVAL))"

definition params_012 :: "int \<Rightarrow> u64 \<Rightarrow> mremap_mmap_anon_param list" where
  "params_012 sh r =
     [use_space r PROT_NONE sh,
      free_space r,
      use_space r (PROT_READ OR PROT_WRITE) sh,
      use_space r PROT_NONE sh]"

definition run_012 :: "int \<Rightarrow> u64 \<Rightarrow> verdict prog" where
  "run_012 sh r =
     (let params = params_012 sh r; old_size = psize (params ! 2); new_size = old_size in
      init_block params (\<lambda>ps.
      remap_fixed_block (addr (ps ! 2)) old_size new_size (addr (ps ! 1)) (\<lambda>remap.
       verify_block remap old_size 0x32 (
       access_block remap new_size))))"

definition params_013 :: "int \<Rightarrow> u64 \<Rightarrow> mremap_mmap_anon_param list" where
  "params_013 sh r =
     [use_space r PROT_NONE sh,
      use_space r (PROT_READ OR PROT_WRITE) sh,
      free_space r,
      use_space r PROT_NONE sh]"

definition run_013 :: "int \<Rightarrow> u64 \<Rightarrow> verdict prog" where
  "run_013 sh r =
     (let params = params_013 sh r; old_size = psize (params ! 1); new_size = old_size in
      init_block params (\<lambda>ps.
      remap_fixed_block (addr (ps ! 1)) old_size new_size (addr (ps ! 2)) (\<lambda>remap.
       verify_block remap old_size 0x31 (
       access_block remap new_size))))"

definition params_014 :: "int \<Rightarrow> u64 \<Rightarrow> mremap_mmap_anon_param list" where
  "params_014 sh r =
     [use_space (r * 2) (PROT_READ OR PROT_WRITE) sh,
      use_space r PROT_NONE sh]"

definition run_014 :: "int \<Rightarrow> u64 \<Rightarrow> verdict prog" where
  "run_014 sh r =
     (let params = params_014 sh r; old_size = psize (params ! 0); new_size = old_size - PAGE_SIZE in
      init_block params (\<lambda>ps.
      remap_block (addr (ps ! 0)) old_size new_size 0 (\<lambda>remap.
       verify_block remap new_size 0x30 (
       signal_block SIGSEGV (remap + new_size)))))"

definition params_015 :: "int \<Rightarrow> u64 \<Rightarrow> mremap_mmap_anon_param list" where
  "params_015 sh r =
     [use_space r (PROT_READ OR PROT_WRITE) sh,
      use_space r PROT_NONE sh]"

definition run_015 :: "int \<Rightarrow> u64 \<Rightarrow> verdict prog" where
  "run_015 sh r =
     (let params = params_015 sh r; old_size = psize (params ! 0); new_size = old_size + psize (params ! 1) in
      init_block params (\<lambda>ps.
      remap_block (addr (ps ! 0)) old_size new_size MREMAP_MAYMOVE (\<lambda>remap.
       verify_block remap old_size 0x30 (
       signal_block SIGSEGV (addr (ps ! 0))))))"

definition params_016 :: "int \<Rightarrow> u64 \<Rightarrow> mremap_mmap_anon_param list" where
  "params_016 sh r =
     [use_space r (PROT_READ OR PROT_WRITE) sh,
      free_space r,
      use_space r PROT_NONE sh]"

definition run_016 :: "int \<Rightarrow> u64 \<Rightarrow> verdict prog" where
  "run_016 sh r =
     (let params = params_016 sh r; old_size = psize (params ! 0); new_size = old_size in
      init_block params (\<lambda>ps.
      remap_fixed_block (addr (ps ! 0)) old_size new_size (addr (ps ! 1)) (\<lambda>remap.
       verify_block remap old_size 0x30 (
       signal_block SIGSEGV (addr (ps ! 0))))))"

subsection \<open>The test cases\<close>

definition mremap_mmap_anon_000 :: "verdict prog" where
  "mremap_mmap_anon_000 = run_000 0 MREMAP_RANGE_SIZE"

definition mremap_mmap_anon_001 :: "verdict prog" where
  "mremap_mmap_anon_001 = run_001 0 MREMAP_RANGE_SIZE"

definition mremap_mmap_anon_002 :: "verdict prog" where
  "mremap_mmap_anon_002 = run_002 0 MREMAP_RANGE_SIZE"

definition mremap_mmap_anon_003 :: "verdict prog" where
  "mremap_mmap_anon_003 = run_003 0 MREMAP_RANGE_SIZE"

definition mremap_mmap_anon_004 :: "verdict prog" where
  "mremap_mmap_anon_004 = run_004 0 MREMAP_RANGE_SIZE"

definition mremap_mmap_anon_005 :: "verdict prog" where
  "mremap_mmap_anon_005 = run_005 0 MREMAP_RANGE_SIZE"

definition mremap_mmap_anon_006 :: "verdict prog" where
  "mremap_mmap_anon_006 = run_006 0 MREMAP_RANGE_SIZE"

definition mremap_mmap_anon_007 :: "verdict prog" where
  "mremap_mmap_anon_007 = run_007 0 MREMAP_RANGE_SIZE"

definition mremap_mmap_anon_008 :: "verdict prog" where
  "mremap_mmap_anon_008 = run_008 0 MREMAP_RANGE_SIZE"

definition mremap_mmap_anon_009 :: "verdict prog" where
  "mremap_mmap_anon_009 = run_009 0 MREMAP_RANGE_SIZE"

definition mremap_mmap_anon_010 :: "verdict prog" where
  "mremap_mmap_anon_010 = run_010 0 MREMAP_RANGE_SIZE"

definition mremap_mmap_anon_011 :: "verdict prog" where
  "mremap_mmap_anon_011 = run_011 0 MREMAP_RANGE_SIZE"

definition mremap_mmap_anon_012 :: "verdict prog" where
  "mremap_mmap_anon_012 = run_012 0 MREMAP_RANGE_SIZE"

definition mremap_mmap_anon_013 :: "verdict prog" where
  "mremap_mmap_anon_013 = run_013 0 MREMAP_RANGE_SIZE"

definition mremap_mmap_anon_014 :: "verdict prog" where
  "mremap_mmap_anon_014 = run_014 0 MREMAP_RANGE_SIZE"

definition mremap_mmap_anon_015 :: "verdict prog" where
  "mremap_mmap_anon_015 = run_015 0 MREMAP_RANGE_SIZE"

definition mremap_mmap_anon_016 :: "verdict prog" where
  "mremap_mmap_anon_016 = run_016 0 MREMAP_RANGE_SIZE"

definition mremap_mmap_anon_100 :: "verdict prog" where
  "mremap_mmap_anon_100 = run_000 1 MREMAP_RANGE_SIZE"

definition mremap_mmap_anon_101 :: "verdict prog" where
  "mremap_mmap_anon_101 = run_001 1 MREMAP_RANGE_SIZE"

definition mremap_mmap_anon_102 :: "verdict prog" where
  "mremap_mmap_anon_102 = run_002 1 MREMAP_RANGE_SIZE"

definition mremap_mmap_anon_103 :: "verdict prog" where
  "mremap_mmap_anon_103 = run_103 1 MREMAP_RANGE_SIZE"

definition mremap_mmap_anon_104 :: "verdict prog" where
  "mremap_mmap_anon_104 = run_004 1 MREMAP_RANGE_SIZE"

definition mremap_mmap_anon_105 :: "verdict prog" where
  "mremap_mmap_anon_105 = run_105 1 MREMAP_RANGE_SIZE"

definition mremap_mmap_anon_106 :: "verdict prog" where
  "mremap_mmap_anon_106 = run_006 1 MREMAP_RANGE_SIZE"

definition mremap_mmap_anon_107 :: "verdict prog" where
  "mremap_mmap_anon_107 = run_007 1 MREMAP_RANGE_SIZE"

definition mremap_mmap_anon_108 :: "verdict prog" where
  "mremap_mmap_anon_108 = run_008 1 MREMAP_RANGE_SIZE"

definition mremap_mmap_anon_109 :: "verdict prog" where
  "mremap_mmap_anon_109 = run_009 1 MREMAP_RANGE_SIZE"

definition mremap_mmap_anon_110 :: "verdict prog" where
  "mremap_mmap_anon_110 = run_010 1 MREMAP_RANGE_SIZE"

definition mremap_mmap_anon_111 :: "verdict prog" where
  "mremap_mmap_anon_111 = run_011 1 MREMAP_RANGE_SIZE"

definition mremap_mmap_anon_112 :: "verdict prog" where
  "mremap_mmap_anon_112 = run_012 1 MREMAP_RANGE_SIZE"

definition mremap_mmap_anon_113 :: "verdict prog" where
  "mremap_mmap_anon_113 = run_013 1 MREMAP_RANGE_SIZE"

definition mremap_mmap_anon_114 :: "verdict prog" where
  "mremap_mmap_anon_114 = run_014 1 MREMAP_RANGE_SIZE"

definition mremap_mmap_anon_115 :: "verdict prog" where
  "mremap_mmap_anon_115 = run_015 1 MREMAP_RANGE_SIZE"

definition mremap_mmap_anon_116 :: "verdict prog" where
  "mremap_mmap_anon_116 = run_016 1 MREMAP_RANGE_SIZE"

definition mremap_mmap_anon_200 :: "verdict prog" where
  "mremap_mmap_anon_200 = run_000 0 MREMAP_RANGE_LARGE_SIZE"

definition mremap_mmap_anon_201 :: "verdict prog" where
  "mremap_mmap_anon_201 = run_001 0 MREMAP_RANGE_LARGE_SIZE"

definition mremap_mmap_anon_202 :: "verdict prog" where
  "mremap_mmap_anon_202 = run_002 0 MREMAP_RANGE_LARGE_SIZE"

definition mremap_mmap_anon_203 :: "verdict prog" where
  "mremap_mmap_anon_203 = run_003 0 MREMAP_RANGE_LARGE_SIZE"

definition mremap_mmap_anon_204 :: "verdict prog" where
  "mremap_mmap_anon_204 = run_004 0 MREMAP_RANGE_LARGE_SIZE"

definition mremap_mmap_anon_205 :: "verdict prog" where
  "mremap_mmap_anon_205 = run_005 0 MREMAP_RANGE_LARGE_SIZE"

definition mremap_mmap_anon_206 :: "verdict prog" where
  "mremap_mmap_anon_206 = run_006 0 MREMAP_RANGE_LARGE_SIZE"

definition mremap_mmap_anon_207 :: "verdict prog" where
  "mremap_mmap_anon_207 = run_007 0 MREMAP_RANGE_LARGE_SIZE"

definition mremap_mmap_anon_208 :: "verdict prog" where
  "mremap_mmap_anon_208 = run_008 0 MREMAP_RANGE_LARGE_SIZE"

definition mremap_mmap_anon_209 :: "verdict prog" where
  "mremap_mmap_anon_209 = run_009 0 MREMAP_RANGE_LARGE_SIZE"

definition mremap_mmap_anon_210 :: "verdict prog" where
  "mremap_mmap_anon_210 = run_010 0 MREMAP_RANGE_LARGE_SIZE"

definition mremap_mmap_anon_211 :: "verdict prog" where
  "mremap_mmap_anon_211 = run_011 0 MREMAP_RANGE_LARGE_SIZE"

definition mremap_mmap_anon_212 :: "verdict prog" where
  "mremap_mmap_anon_212 = run_012 0 MREMAP_RANGE_LARGE_SIZE"

definition mremap_mmap_anon_213 :: "verdict prog" where
  "mremap_mmap_anon_213 = run_013 0 MREMAP_RANGE_LARGE_SIZE"

definition mremap_mmap_anon_214 :: "verdict prog" where
  "mremap_mmap_anon_214 = run_014 0 MREMAP_RANGE_LARGE_SIZE"

definition mremap_mmap_anon_215 :: "verdict prog" where
  "mremap_mmap_anon_215 = run_015 0 MREMAP_RANGE_LARGE_SIZE"

definition mremap_mmap_anon_216 :: "verdict prog" where
  "mremap_mmap_anon_216 = run_016 0 MREMAP_RANGE_LARGE_SIZE"

definition mremap_mmap_anon_300 :: "verdict prog" where
  "mremap_mmap_anon_300 = run_000 1 MREMAP_RANGE_LARGE_SIZE"

definition mremap_mmap_anon_301 :: "verdict prog" where
  "mremap_mmap_anon_301 = run_001 1 MREMAP_RANGE_LARGE_SIZE"

definition mremap_mmap_anon_302 :: "verdict prog" where
  "mremap_mmap_anon_302 = run_002 1 MREMAP_RANGE_LARGE_SIZE"

definition mremap_mmap_anon_303 :: "verdict prog" where
  "mremap_mmap_anon_303 = run_103 1 MREMAP_RANGE_LARGE_SIZE"

definition mremap_mmap_anon_304 :: "verdict prog" where
  "mremap_mmap_anon_304 = run_004 1 MREMAP_RANGE_LARGE_SIZE"

definition mremap_mmap_anon_305 :: "verdict prog" where
  "mremap_mmap_anon_305 = run_105 1 MREMAP_RANGE_LARGE_SIZE"

definition mremap_mmap_anon_306 :: "verdict prog" where
  "mremap_mmap_anon_306 = run_006 1 MREMAP_RANGE_LARGE_SIZE"

definition mremap_mmap_anon_307 :: "verdict prog" where
  "mremap_mmap_anon_307 = run_007 1 MREMAP_RANGE_LARGE_SIZE"

definition mremap_mmap_anon_308 :: "verdict prog" where
  "mremap_mmap_anon_308 = run_008 1 MREMAP_RANGE_LARGE_SIZE"

definition mremap_mmap_anon_309 :: "verdict prog" where
  "mremap_mmap_anon_309 = run_009 1 MREMAP_RANGE_LARGE_SIZE"

definition mremap_mmap_anon_310 :: "verdict prog" where
  "mremap_mmap_anon_310 = run_010 1 MREMAP_RANGE_LARGE_SIZE"

definition mremap_mmap_anon_311 :: "verdict prog" where
  "mremap_mmap_anon_311 = run_011 1 MREMAP_RANGE_LARGE_SIZE"

definition mremap_mmap_anon_312 :: "verdict prog" where
  "mremap_mmap_anon_312 = run_012 1 MREMAP_RANGE_LARGE_SIZE"

definition mremap_mmap_anon_313 :: "verdict prog" where
  "mremap_mmap_anon_313 = run_013 1 MREMAP_RANGE_LARGE_SIZE"

definition mremap_mmap_anon_314 :: "verdict prog" where
  "mremap_mmap_anon_314 = run_014 1 MREMAP_RANGE_LARGE_SIZE"

definition mremap_mmap_anon_315 :: "verdict prog" where
  "mremap_mmap_anon_315 = run_015 1 MREMAP_RANGE_LARGE_SIZE"

definition mremap_mmap_anon_316 :: "verdict prog" where
  "mremap_mmap_anon_316 = run_016 1 MREMAP_RANGE_LARGE_SIZE"

text \<open>All cases share the setup of case 0 and an empty teardown, and none reads its arguments.\<close>

definition mremap_case :: "int \<times> verdict prog \<Rightarrow> mremap_args test_case" where
  "mremap_case c =
     \<lparr>test_suite = ''mremap_mmap_anon'', num = fst c,
      tc_setup = (\<lambda>tc_num tc_argv. mremap_mmap_anon_parse_argument tc_argv),
      tc_run = (\<lambda>tc_num tc_arg. snd c),
      tc_teardown = TEARDOWN_EMPTY\<rparr>"

definition mremap_runs :: "(int \<times> verdict prog) list" where
  "mremap_runs =
     [(0, mremap_mmap_anon_000), (1, mremap_mmap_anon_001), (2, mremap_mmap_anon_002),
      (3, mremap_mmap_anon_003), (4, mremap_mmap_anon_004), (5, mremap_mmap_anon_005),
      (6, mremap_mmap_anon_006), (7, mremap_mmap_anon_007), (8, mremap_mmap_anon_008),
      (9, mremap_mmap_anon_009), (10, mremap_mmap_anon_010), (11, mremap_mmap_anon_011),
      (12, mremap_mmap_anon_012), (13, mremap_mmap_anon_013), (14, mremap_mmap_anon_014),
      (15, mremap_mmap_anon_015), (16, mremap_mmap_anon_016), (100, mremap_mmap_anon_100),
      (101, mremap_mmap_anon_101), (102, mremap_mmap_anon_102), (103, mremap_mmap_anon_103),
      (104, mremap_mmap_anon_104), (105, mremap_mmap_anon_105), (106, mremap_mmap_anon_106),
      (107, mremap_mmap_anon_107), (108, mremap_mmap_anon_108), (109, mremap_mmap_anon_109),
      (110, mremap_mmap_anon_110), (111, mremap_mmap_anon_111), (112, mremap_mmap_anon_112),
      (113, mremap_mmap_anon_113), (114, mremap_mmap_anon_114), (115, mremap_mmap_anon_115),
      (116, mremap_mmap_anon_116), (200, mremap_mmap_anon_200), (201, mremap_mmap_anon_201),
      (202, mremap_mmap_anon_202), (203, mremap_mmap_anon_203), (204, mremap_mmap_anon_204),
      (205, mremap_mmap_anon_205), (206, mremap_mmap_anon_206), (207, mremap_mmap_anon_207),
      (208, mremap_mmap_anon_208), (209, mremap_mmap_anon_209), (210, mremap_mmap_anon_210),
      (211, mremap_mmap_anon_211), (212, mremap_mmap_anon_212), (213, mremap_mmap_anon_213),
      (214, mremap_mmap_anon_214), (215, mremap_mmap_anon_215), (216, mremap_mmap_anon_216),
      (300, mremap_mmap_anon_300), (301, mremap_mmap_anon_301), (302, mremap_mmap_anon_302),
      (303, mremap_mmap_anon_303), (304, mremap_mmap_anon_304), (305, mremap_mmap_anon_305),
      (306, mremap_mmap_anon_306), (307, mremap_mmap_anon_307), (308, mremap_mmap_anon_308),
      (309, mremap_mmap_anon_309), (310, mremap_mmap_anon_310), (311, mremap_mmap_anon_311),
      (312, mremap_mmap_anon_312), (313, mremap_mmap_anon_313), (314, mremap_mmap_anon_314),
      (315, mremap_mmap_anon_315), (316, mremap_mmap_anon_316)]"

definition mremap_mmap_anon_cases :: "mremap_args test_case list" where
  "mremap_mmap_anon_cases = map mremap_case mremap_runs"

subsection \<open>Formatting the space\<close>

definition params_ok :: "mremap_mmap_anon_param list \<Rightarrow> bool" where
  "params_ok qs \<longleftrightarrow> (\<forall>q \<in> set qs. page_aligned (psize q) \<and> 0 < unat (psize q))"

definition params_total :: "mremap_mmap_anon_param list \<Rightarrow> nat" where
  "params_total qs = sum_list (map (\<lambda>q. unat (psize q)) qs)"

fun placed :: "u64 \<Rightarrow> mremap_mmap_anon_param list \<Rightarrow> mremap_mmap_anon_param list" where
  "placed b [] = []"
| "placed b (q # qs) = q\<lparr>addr := b\<rparr> # placed (b + psize q) qs"

text \<open>The content the source gives range \<^verbatim>\<open>i\<close>: its digit where the range is writable.\<close>

definition param_cell :: "nat \<Rightarrow> mremap_mmap_anon_param \<Rightarrow> cell option" where
  "param_cell i q =
     (if nopage q \<noteq> 0 then None
      else Some \<lparr>c_prot = prot q, c_val = (if prot q AND PROT_WRITE \<noteq> 0 then 0x30 + of_nat i else 0),
                 c_shared = (shared q \<noteq> 0), c_bus = False\<rparr>)"

fun laid_out :: "nat \<Rightarrow> u64 \<Rightarrow> mremap_mmap_anon_param list \<Rightarrow> vmem \<Rightarrow> bool" where
  "laid_out i b [] m = True"
| "laid_out i b (q # qs) m =
     (const_on m b (unat (psize q)) (param_cell i q) \<and> laid_out (Suc i) (b + psize q) qs m)"

lemma params_simps [simp]:
  "params_ok []" "params_total [] = 0"
  "params_ok (q # qs) \<longleftrightarrow> page_aligned (psize q) \<and> 0 < unat (psize q) \<and> params_ok qs"
  "params_total (q # qs) = unat (psize q) + params_total qs"
  by (auto simp: params_ok_def params_total_def)

lemma init_params_total:
  "unat t + params_total qs < 2 ^ 64 \<Longrightarrow>
     init_params qs t = (map (\<lambda>q. q\<lparr>addr := - 1\<rparr>) qs, Some (t + of_nat (params_total qs)))"
proof (induction qs arbitrary: t)
  case (Cons q qs)
  then have u: "unat (t + psize q) = unat t + unat (psize q)" by (simp add: unat_plus_no_wrap)
  with Cons show ?case by (simp add: Let_def word_less_nat_alt add.assoc)
qed simp

lemma placed_map_addr [simp]: "placed b (map (\<lambda>q. q\<lparr>addr := x\<rparr>) qs) = placed b qs"
  by (induction qs arbitrary: b) simp_all

lemma laid_out_map_addr [simp]: "laid_out i b (map (\<lambda>q. q\<lparr>addr := x\<rparr>) qs) m = laid_out i b qs m"
  by (induction qs arbitrary: i b) (simp_all add: param_cell_def)

lemma params_map_addr [simp]:
  "params_ok (map (\<lambda>q. q\<lparr>addr := x\<rparr>) qs) = params_ok qs"
  "params_total (map (\<lambda>q. q\<lparr>addr := x\<rparr>) qs) = params_total qs"
  by (induction qs) simp_all

lemma param_flags_bits [simp]:
  "mmap_anonymous (param_flags q)" "mmap_fixed (param_flags q)"
  "mmap_shared (param_flags q) \<longleftrightarrow> shared q \<noteq> 0"
  by (simp_all add: param_flags_def mmap_anonymous_def mmap_fixed_def mmap_shared_def)

lemma exec_format_free:
  assumes K: "conforms_vm K view" and q: "page_aligned b" "page_aligned (psize q)" "0 < unat (psize q)"
    "fits b (unat (psize q))" "nopage q \<noteq> 0"
  shows "(\<exists>s e. exec K (format_space qs0 (q # qs) b) p =
            (Returned (length qs0, qs0 @ q\<lparr>addr := b\<rparr> # qs), p\<lparr>kst := s, errno := e\<rparr>)) \<or>
         (\<exists>s. exec K (format_space qs0 (q # qs) b) p =
              exec K (format_space (qs0 @ [q\<lparr>addr := b\<rparr>]) qs (b + psize q)) (p\<lparr>kst := s\<rparr>) \<and>
              view s = map_range b (unat (psize q)) (\<lambda>_. param_cell i q) (view (kst p)))"
proof -
  let ?c = "Mem (Munmap b (psize q))"
  consider (err) e where "fst (k_sys K ?c (kst p)) = SErr e"
    | (ok) "fst (k_sys K ?c (kst p)) = SOk 0 []"
        "view (snd (k_sys K ?c (kst p))) = map_range b (unat (psize q)) (\<lambda>_. None) (view (kst p))"
    using conforms_munmap [OF K, of b "psize q" "kst p"] q
    by (auto simp: munmap_rel_def word_less_nat_alt)
  then show ?thesis
  proof cases
    case err
    then have "\<exists>s e. exec K (format_space qs0 (q # qs) b) p =
            (Returned (length qs0, qs0 @ q\<lparr>addr := b\<rparr> # qs), p\<lparr>kst := s, errno := e\<rparr>)"
      using q(5) by (auto simp: exec_simps Let_def)
    then show ?thesis by blast
  next
    case ok
    then show ?thesis using q(5) by (auto simp: exec_simps param_cell_def Let_def)
  qed
qed

lemma exec_format_use:
  assumes K: "conforms_vm K view" and q: "page_aligned b" "page_aligned (psize q)" "0 < unat (psize q)"
    "fits b (unat (psize q))" "nopage q = 0"
  shows "(\<exists>s e. exec K (format_space qs0 (q # qs) b) p =
            (Returned (length qs0, qs0 @ q\<lparr>addr := b\<rparr> # qs), p\<lparr>kst := s, errno := e\<rparr>)) \<or>
         (\<exists>s. exec K (format_space qs0 (q # qs) b) p =
              exec K (format_space (qs0 @ [q\<lparr>addr := b\<rparr>]) qs (b + psize q)) (p\<lparr>kst := s\<rparr>) \<and>
              view s = map_range b (unat (psize q)) (\<lambda>_. param_cell (length qs0) q) (view (kst p)))"
proof -
  let ?c = "Mem (Mmap b (psize q) (prot q) (param_flags q) (- 1) 0)"
  let ?z = "fresh_cell (prot q) (shared q \<noteq> 0)"
  let ?k = "format_space (qs0 @ [q\<lparr>addr := b\<rparr>]) qs (b + psize q)"
  have fl: "param_flags (q\<lparr>addr := b\<rparr>) = param_flags q" by (simp add: param_flags_def)
  consider (err) e where "fst (k_sys K ?c (kst p)) = SErr e"
    | (ok) "fst (k_sys K ?c (kst p)) = SOk (uint b) []"
        "view (snd (k_sys K ?c (kst p))) = map_range b (unat (psize q)) (\<lambda>_. Some ?z) (view (kst p))"
    using conforms_mmap [OF K, of b "psize q" "prot q" "param_flags q" "kst p" "- 1" 0] q
    by (auto simp: mmap_rel_def word_less_nat_alt)
  then show ?thesis
  proof cases
    case err
    then have "\<exists>s e. exec K (format_space qs0 (q # qs) b) p =
            (Returned (length qs0, qs0 @ q\<lparr>addr := b\<rparr> # qs), p\<lparr>kst := s, errno := e\<rparr>)"
      using q(5) by (auto simp: exec_simps fl Let_def)
    then show ?thesis by blast
  next
    case ok
    define s where "s = snd (k_sys K ?c (kst p))"
    have run: "exec K (format_space qs0 (q # qs) b) p =
        exec K (if prot q AND PROT_WRITE \<noteq> 0
                then memset (unat (psize q)) b (0x30 + of_nat (length qs0)) ?k else ?k) (p\<lparr>kst := s\<rparr>)"
      using ok(1) q(5) page_aligned_not_failed [OF q(1)] by (simp add: exec_simps fl s_def Let_def)
    show ?thesis
    proof (cases "prot q AND PROT_WRITE = 0")
      case True
      then show ?thesis using ok(2) q(5) unfolding run by (auto simp: s_def param_cell_def fresh_cell_def)
    next
      case False
      have "writable (view s) b (unat (psize q))"
        using False ok(2) by (simp add: writable_def s_def map_range_def access_fault_def fresh_cell_def)
      from exec_memset [OF K q(4), of "p\<lparr>kst := s\<rparr>" "0x30 + of_nat (length qs0)" ?k] this obtain s' where
        "exec K (format_space qs0 (q # qs) b) p = exec K ?k (p\<lparr>kst := s'\<rparr>)"
        "view s' = fill b (unat (psize q)) (0x30 + of_nat (length qs0)) (view s)"
        using False unfolding run by auto
      moreover have "fill b (unat (psize q)) (0x30 + of_nat (length qs0)) (view s) =
          map_range b (unat (psize q)) (\<lambda>_. param_cell (length qs0) q) (view (kst p))"
        using False ok(2) q(5) by (auto simp: s_def fill_def map_range_def param_cell_def fresh_cell_def)
      ultimately show ?thesis by auto
    qed
  qed
qed

lemma exec_format_space:
  assumes K: "conforms_vm K view"
  shows "params_ok qs \<Longrightarrow> page_aligned b \<Longrightarrow> fits b (params_total qs) \<Longrightarrow>
    \<exists>r s e. exec K (format_space qs0 qs b) p = (Returned r, p\<lparr>kst := s, errno := e\<rparr>) \<and>
      (fst r = length qs0 + length qs \<longrightarrow>
         snd r = qs0 @ placed b qs \<and> laid_out (length qs0) b qs (view s) \<and>
         (\<forall>x. \<not> inr b (params_total qs) x \<longrightarrow> view s x = view (kst p) x))"
proof (induction qs arbitrary: qs0 b p)
  case Nil
  then show ?case by (auto intro!: exI [of _ "kst p"] exI [of _ "errno p"])
next
  case (Cons q qs)
  let ?n = "unat (psize q)" and ?q = "q\<lparr>addr := b\<rparr>"
  have fits: "fits b ?n" and fits': "fits (b + psize q) (params_total qs)"
    and u: "unat (b + psize q) = unat b + ?n"
    using Cons.prems(3) by (auto simp: fits_def unat_plus_no_wrap)
  have al: "page_aligned (b + psize q)"
    using Cons.prems fits by (auto intro: page_aligned_add)
  from exec_format_free [OF K, of b q qs0 qs p] exec_format_use [OF K, of b q qs0 qs p] Cons.prems fits
  consider (err) s e where "exec K (format_space qs0 (q # qs) b) p =
        (Returned (length qs0, qs0 @ ?q # qs), p\<lparr>kst := s, errno := e\<rparr>)"
    | (ok) s where "exec K (format_space qs0 (q # qs) b) p =
        exec K (format_space (qs0 @ [?q]) qs (b + psize q)) (p\<lparr>kst := s\<rparr>)"
        "view s = map_range b ?n (\<lambda>_. param_cell (length qs0) q) (view (kst p))"
    by (cases "nopage q = 0") (simp_all del: format_space.simps, blast+)
  then show ?case
  proof cases
    case err
    then show ?thesis by (auto simp del: format_space.simps)
  next
    case ok
    from Cons.IH [OF _ al fits', of "qs0 @ [?q]" "p\<lparr>kst := s\<rparr>"] Cons.prems(1) obtain r s' e where
      run: "exec K (format_space (qs0 @ [?q]) qs (b + psize q)) (p\<lparr>kst := s\<rparr>) = (Returned r, p\<lparr>kst := s', errno := e\<rparr>)"
      and post: "fst r = Suc (length qs0) + length qs \<Longrightarrow>
         snd r = qs0 @ ?q # placed (b + psize q) qs \<and> laid_out (Suc (length qs0)) (b + psize q) qs (view s') \<and>
         (\<forall>x. \<not> inr (b + psize q) (params_total qs) x \<longrightarrow> view s' x = view s x)"
      by auto
    have "const_on (view s') b ?n (param_cell (length qs0) q)"
      and "\<forall>x. \<not> inr b (?n + params_total qs) x \<longrightarrow> view s' x = view (kst p) x"
      if "fst r = Suc (length qs0) + length qs"
      using post [OF that] u ok(2) by (auto simp: const_on_def map_range_def inr_def)
    with run post ok(1) show ?thesis
      by (intro exI [of _ r] exI [of _ s'] exI [of _ e]) (simp del: format_space.simps)
  qed
qed

lemma exec_mremap_mmap_anon:
  assumes K: "conforms_vm K view" and qs: "params_ok qs" "params_total qs < 2 ^ 63" "qs \<noteq> []"
  shows "\<exists>r s e. exec K (mremap_mmap_anon qs) p = (Returned r, p\<lparr>kst := s, errno := e\<rparr>) \<and>
      (fst r = length qs \<longrightarrow>
         (\<exists>b. page_aligned b \<and> b \<noteq> 0 \<and> fits b (params_total qs) \<and> snd r = placed b qs \<and>
              laid_out 0 b qs (view s)))"
proof -
  define n where "n = (of_nat (params_total qs) :: u64)"
  have un: "unat n = params_total qs" using qs(2) by (simp add: n_def unat_of_nat)
  have al: "page_aligned n"
    using qs(1) unfolding page_aligned_def un by (induction qs) (simp_all add: page_aligned_def mod_add_eq [symmetric])
  have pos: "0 < n" using qs un by (cases qs) (auto simp: word_less_nat_alt)
  have ini: "init_params qs 0 = (map (\<lambda>q. q\<lparr>addr := - 1\<rparr>) qs, Some n)"
    using init_params_total [of 0 qs] qs(2) by (simp add: n_def)
  let ?c = "Mem (Mmap 0 n PROT_NONE (MAP_SHARED OR MAP_ANONYMOUS) (- 1) 0)"
  consider (err) e where "fst (k_sys K ?c (kst p)) = SErr e"
    | (ok) b where "fst (k_sys K ?c (kst p)) = SOk (uint b) []" "page_aligned b" "b \<noteq> 0" "fits b (params_total qs)"
    using conforms_mmap [OF K, of 0 n PROT_NONE "MAP_SHARED OR MAP_ANONYMOUS" "kst p" "- 1" 0] al pos
    by (auto simp: mmap_rel_def mmap_anonymous_def mmap_fixed_def un)
  then show ?thesis
  proof cases
    case err
    then show ?thesis using qs(3) by (auto simp: mremap_mmap_anon_def ini exec_simps)
  next
    case ok
    let ?p = "p\<lparr>kst := snd (k_sys K ?c (kst p))\<rparr>"
    from exec_format_space [OF K, of "map (\<lambda>q. q\<lparr>addr := - 1\<rparr>) qs" b "[]" ?p] qs(1) ok
    obtain r s e where r: "exec K (format_space [] (map (\<lambda>q. q\<lparr>addr := - 1\<rparr>) qs) b) ?p =
        (Returned r, ?p\<lparr>kst := s, errno := e\<rparr>)"
      "fst r = length qs \<longrightarrow> snd r = placed b qs \<and> laid_out 0 b qs (view s)"
      by auto
    have "exec K (mremap_mmap_anon qs) p = exec K (format_space [] (map (\<lambda>q. q\<lparr>addr := - 1\<rparr>) qs) b) ?p"
      using ok(1) page_aligned_not_failed [OF ok(2)] by (simp add: mremap_mmap_anon_def ini exec_simps)
    with r ok show ?thesis
      by (intro exI [of _ r] exI [of _ s] exI [of _ e]) auto
  qed
qed

text \<open>Whether the kernel granted all the mappings a test asks for.\<close>

definition space_formatted :: "'s kernel \<Rightarrow> mremap_mmap_anon_param list \<Rightarrow> 's process \<Rightarrow> bool" where
  "space_formatted K qs p \<longleftrightarrow>
     (case fst (exec K (mremap_mmap_anon qs) p) of Returned r \<Rightarrow> fst r = length qs | _ \<Rightarrow> False)"

lemma exec_init_block:
  assumes K: "conforms_vm K view" and qs: "params_ok qs" "params_total qs < 2 ^ 63" "qs \<noteq> []"
  shows "if space_formatted K qs p
    then \<exists>b s e. exec K (init_block qs k) p = exec K (k (placed b qs)) (p\<lparr>kst := s, errno := e\<rparr>) \<and>
           page_aligned b \<and> b \<noteq> 0 \<and> fits b (params_total qs) \<and> laid_out 0 b qs (view s)
    else \<exists>p'. exec K (init_block qs k) p = (Returned (Some ''mmap error.''), p')"
proof -
  obtain r s e where r: "exec K (mremap_mmap_anon qs) p = (Returned r, p\<lparr>kst := s, errno := e\<rparr>)"
    "fst r = length qs \<longrightarrow>
         (\<exists>b. page_aligned b \<and> b \<noteq> 0 \<and> fits b (params_total qs) \<and> snd r = placed b qs \<and>
              laid_out 0 b qs (view s))"
    using exec_mremap_mmap_anon [OF assms] by blast
  show ?thesis
  proof (cases "fst r = length qs")
    case True
    with r obtain b where "page_aligned b" "b \<noteq> 0" "fits b (params_total qs)" "snd r = placed b qs"
      "laid_out 0 b qs (view s)" by blast
    moreover from True r(1) this(4) have "exec K (init_block qs k) p = exec K (k (placed b qs)) (p\<lparr>kst := s, errno := e\<rparr>)"
      by (simp add: init_block_def exec_simps split_beta)
    ultimately show ?thesis using True r(1) by (auto simp: space_formatted_def)
  next
    case False
    with r(1) show ?thesis by (simp add: space_formatted_def init_block_def exec_simps split_beta)
  qed
qed

subsection \<open>The checks\<close>

definition readable :: "cell \<Rightarrow> bool" where
  "readable c \<longleftrightarrow> c_prot c AND PROT_READ \<noteq> 0 \<and> \<not> c_bus c"

lemma exec_data_check_loop:
  assumes K: "conforms_vm K view"
  shows "fits a n \<Longrightarrow> const_on (view (kst p)) a n (Some c) \<Longrightarrow> readable c \<Longrightarrow> c_val c = ex \<Longrightarrow>
    \<exists>s. exec K (data_check_loop n a ex) p = (Returned None, p\<lparr>kst := s\<rparr>) \<and> view s = view (kst p)"
proof (induction n arbitrary: a p)
  case 0
  show ?case by (auto intro: exI [of _ "kst p"])
next
  case (Suc n)
  have a: "view (kst p) a = Some c" using const_on_first [OF Suc.prems(2)] by simp
  then have "access_fault PROT_READ a (view (kst p)) = None"
    using Suc.prems(3) by (simp add: access_fault_def readable_def)
  from conforms_load [OF K this] a obtain s where
    s: "k_load K a (kst p) = Inr (c_val c, s)" "view s = view (kst p)" by auto
  have "const_on (view (kst (p\<lparr>kst := s\<rparr>))) (a + 1) n (Some c)"
    using Suc.prems(1,2) s(2) by (auto simp: const_on_def inr_Suc)
  from Suc.IH [OF _ this Suc.prems(3,4)] Suc.prems(1) obtain s' where
    "exec K (data_check_loop n (a + 1) ex) (p\<lparr>kst := s\<rparr>) = (Returned None, p\<lparr>kst := s'\<rparr>)" "view s' = view s"
    by (auto simp: fits_Suc)
  with s Suc.prems(4) show ?case by auto
qed

lemma exec_verify_block:
  assumes K: "conforms_vm K view" and "fits a (unat len)" "const_on (view (kst p)) a (unat len) (Some c)"
    "readable c" "c_val c = ex"
  shows "\<exists>s. exec K (verify_block a len ex k) p = exec K k (p\<lparr>kst := s\<rparr>) \<and> view s = view (kst p)"
  using exec_data_check_loop [OF assms]
  by (auto simp: verify_block_def mremap_mmap_anon_data_check_def exec_simps)

definition accessible :: "vmem \<Rightarrow> u64 \<Rightarrow> nat \<Rightarrow> bool" where
  "accessible m a n \<longleftrightarrow> (\<forall>x. inr a n x \<longrightarrow>
     access_fault PROT_READ x m = None \<and> access_fault PROT_WRITE x m = None)"

lemma exec_store_load:
  assumes K: "conforms_vm K view" and "access_fault PROT_READ a (view (kst p)) = None"
    "access_fault PROT_WRITE a (view (kst p)) = None"
  shows "\<exists>s. exec K (Store a v (Load a (\<lambda>ch. tp_assert (ch = v) msg k))) p = exec K k (p\<lparr>kst := s\<rparr>) \<and>
     (\<forall>need x. access_fault need x (view s) = access_fault need x (view (kst p)))"
proof -
  obtain s where s: "k_store K a v (kst p) = Inr s"
      "view s = (view (kst p))(a := map_option (\<lambda>c. c\<lparr>c_val := v\<rparr>) (view (kst p) a))"
    using conforms_store [OF K assms(3)] by blast
  obtain c where c: "view (kst p) a = Some c"
    using assms(2) by (auto simp: access_fault_def split: option.splits)
  have "access_fault PROT_READ a (view s) = None" using assms(2) by (simp add: s(2) access_fault_upd)
  from conforms_load [OF K this] obtain s' where
    ld: "k_load K a s = Inr (c_val (the (view s a)), s')" "view s' = view s" by blast
  have v: "c_val (the (view s a)) = v" using s(2) c by simp
  have "exec K (Store a v (Load a (\<lambda>ch. tp_assert (ch = v) msg k))) p = exec K k (p\<lparr>kst := s'\<rparr>)"
    using s(1) ld(1) v by simp
  moreover have "\<forall>need x. access_fault need x (view s') = access_fault need x (view (kst p))"
    unfolding ld(2) s(2) by (simp add: access_fault_upd)
  ultimately show ?thesis by blast
qed

lemma exec_access_block:
  assumes K: "conforms_vm K view" and "a \<noteq> 0" "0 < unat len" "fits a (unat len)"
    "accessible (view (kst p)) a (unat len)"
  shows "\<exists>p'. exec K (access_block a len) p = (Returned None, p')"
proof -
  have last: "unat (a + (len - 1)) = unat a + (unat len - 1)"
    using assms(3,4) by (subst unat_plus_no_wrap) (auto simp: fits_def unat_minus_one unat_gt_0)
  have in_range: "inr a (unat len) a" "inr a (unat len) (a + (len - 1))"
    using assms(3) last by (auto simp: inr_def)
  have nz: "\<not> len \<le> 0" using assms(3) by auto
  let ?rest = "\<lambda>k. Store (a + (len - 1)) 0x5A (Load (a + (len - 1)) (\<lambda>ch.
        tp_assert (ch = 0x5A) ''last page access error'' k))"
  let ?ms = "memset (unat len) a 0x30 (Return None) :: verdict prog"
  obtain s1 where s1: "exec K (Store a 0x41 (Load a (\<lambda>ch.
        tp_assert (ch = 0x41) ''first page access error'' (?rest ?ms)))) p = exec K (?rest ?ms) (p\<lparr>kst := s1\<rparr>)"
      "\<forall>need x. access_fault need x (view s1) = access_fault need x (view (kst p))"
    using exec_store_load [OF K, of a p] assms(5) in_range(1) unfolding accessible_def by blast
  obtain s2 where s2: "exec K (?rest ?ms) (p\<lparr>kst := s1\<rparr>) = exec K ?ms (p\<lparr>kst := s2\<rparr>)"
      "\<forall>need x. access_fault need x (view s2) = access_fault need x (view s1)"
    using exec_store_load [OF K, of "a + (len - 1)" "p\<lparr>kst := s1\<rparr>" "0x5A" "''last page access error''" ?ms]
      assms(5) in_range(2) s1(2) by (auto simp: accessible_def)
  obtain s3 where s3: "exec K ?ms (p\<lparr>kst := s2\<rparr>) = (Returned None, p\<lparr>kst := s3\<rparr>)"
    using exec_memset [OF K assms(4), of "p\<lparr>kst := s2\<rparr>" "0x30" "Return None"] assms(5) s1(2) s2(2)
    by (auto simp: writable_def accessible_def)
  have "exec K (mremap_mmap_anon_access_check a len) p = (Returned None, p\<lparr>kst := s3\<rparr>)"
    using s1(1) s2(1) s3 assms(2) nz unfolding mremap_mmap_anon_access_check_def by (simp only: if_False)
  then show ?thesis by (simp add: access_block_def exec_simps)
qed

lemma exec_signal_block:
  assumes K: "conforms_vm K view" and sg: "sg = SIGBUS \<or> sg = SIGSEGV"
    and "read_fault a (view (kst p)) sg"
  shows "\<exists>p'. exec K (signal_block sg a) p = (Exited 0, p')"
proof -
  let ?s = "snd (k_sigaction K sg (kst p))"
  let ?h = "SIG_EXIT 0"
  have "exec K (mremap_mmap_anon_setup_signal_handler sg) p =
      (Returned None, p\<lparr>kst := ?s, disp := (disp p)(sg := ?h)\<rparr>)"
    using conforms_sigaction [OF K sg, of "kst p"]
    by (simp add: mremap_mmap_anon_setup_signal_handler_def mremap_mmap_anon_signal_handler_def)
  moreover have "k_load K a ?s = Inl sg"
    using conforms_sigaction [OF K sg, of "kst p"] assms(3) conforms_load_fault [OF K] by simp
  ultimately show ?thesis by (simp add: signal_block_def exec_simps fault_def)
qed

end
