(* ===== verification/Mremap_Suite.thy ===== *)
theory Mremap_Suite
  imports Mremap_Anon
begin

text \<open>
  The test cases of \<^verbatim>\<open>mremap_mmap_anon\<close> on a conforming kernel: rules that take a body through
  its blocks, the outcome of each of the bodies, and the outcome of every case of the suite.
\<close>

subsection \<open>The remapping calls\<close>

lemma exec_remap_block:
  assumes "fst (k_sys K (Mem (Mremap a old new fl 0)) (kst p)) = SOk (uint b) []" "b \<noteq> - 1"
  shows "exec K (remap_block a old new fl k) p =
     exec K (k b) (p\<lparr>errno := 0, kst := snd (k_sys K (Mem (Mremap a old new fl 0)) (kst p))\<rparr>)"
  using assms by (simp add: remap_block_def exec_simps)

lemma exec_remap_fixed_block:
  assumes "fst (k_sys K (Mem (Mremap a old new 3 b)) (kst p)) = SOk (uint b) []"
  shows "exec K (remap_fixed_block a old new b k) p =
     exec K (k b) (p\<lparr>errno := 0, kst := snd (k_sys K (Mem (Mremap a old new 3 b)) (kst p))\<rparr>)"
  using assms by (simp add: remap_fixed_block_def exec_simps)

lemma exec_remap_error_block:
  assumes "fst (k_sys K (Mem (Mremap a old new fl na)) (kst p)) = SErr e"
  shows "\<exists>p'. exec K (remap_error_block a old new fl na e) p = (Returned None, p')"
  using assms by (simp add: remap_error_block_def exec_simps)

definition range_ok :: "u64 \<Rightarrow> bool" where
  "range_ok r \<longleftrightarrow> page_aligned r \<and> 8192 \<le> unat r \<and> unat r \<le> 2 ^ 32"

lemma range_okD:
  assumes "range_ok r"
  shows "page_aligned r" "0 < unat r" "8192 \<le> unat r" "unat r \<le> 4294967296"
    "unat (r * 2) = 2 * unat r" "unat (2 * r) = 2 * unat r" "unat (3 * r) = 3 * unat r"
    "unat (r * 2 - 4096) = 2 * unat r - 4096"
    "page_aligned (r * 2)" "page_aligned (2 * r)" "page_aligned (3 * r)" "page_aligned (r * 2 - 4096)"
proof -
  show r: "page_aligned r" "0 < unat r" "8192 \<le> unat r" "unat r \<le> 4294967296"
    using assms by (auto simp: range_ok_def)
  show u: "unat (r * 2) = 2 * unat r" "unat (2 * r) = 2 * unat r" "unat (3 * r) = 3 * unat r"
    using r(4) by (simp_all add: unat_word_ariths)
  have "unat (r * 2 - 4096) = unat (r * 2) - unat (4096 :: u64)"
    using r u by (intro unat_sub) (simp add: word_le_nat_alt)
  then show s: "unat (r * 2 - 4096) = 2 * unat r - 4096" using u by simp
  from r(1) obtain k where k: "unat r = 4096 * k" by (auto simp: page_aligned_def mod_eq_0_iff_dvd dvd_def)
  show "page_aligned (r * 2)" "page_aligned (2 * r)" "page_aligned (3 * r)"
    using u k by (simp_all add: page_aligned_def)
  have "2 * unat r - 4096 = 4096 * (2 * k - 1)" using k by (simp add: algebra_simps)
  then show "page_aligned (r * 2 - 4096)" using s by (simp add: page_aligned_def)
qed

text \<open>Addresses inside the formatted space.\<close>

lemma space_offset:
  assumes "fits b n" "page_aligned b" "unat o1 \<le> n" "page_aligned o1"
  shows "unat (b + o1) = unat b + unat o1" "page_aligned (b + o1)"
proof -
  show u: "unat (b + o1) = unat b + unat o1"
    using assms by (intro unat_plus_no_wrap) (simp add: fits_def)
  show "page_aligned (b + o1)"
    using assms by (simp add: page_aligned_def u mod_add_eq [symmetric])
qed

lemma init_block_rule:
  fixes K :: "'s kernel"
  assumes K: "conforms_vm K view" and qs: "params_ok qs" "params_total qs < 2 ^ 63" "qs \<noteq> []"
    and body: "\<And>b q. page_aligned b \<Longrightarrow> b \<noteq> 0 \<Longrightarrow> fits b (params_total qs) \<Longrightarrow> laid_out 0 b qs (view (kst q)) \<Longrightarrow>
      fst (exec K (k (placed b qs)) q) = o1"
  shows "fst (exec K (init_block qs k) p) =
     (if space_formatted K qs p then o1 else Returned (Some ''mmap error.''))"
  using exec_init_block [OF K qs, of p k] body by (fastforce split: if_splits)

lemma shrink_rule:
  fixes K :: "'s kernel"
  assumes K: "conforms_vm K view"
    and "page_aligned a" "page_aligned old" "page_aligned new" "0 < unat new" "unat new \<le> unat old"
    and "new = old \<or> (fits a (unat old) \<and> mapped (view (kst q)) a (unat old))"
    and body: "\<And>q'. view (kst q') = map_range (a + new) (unat old - unat new) (\<lambda>_. None) (view (kst q)) \<Longrightarrow>
      fst (exec K (k a) q') = o1"
  shows "fst (exec K (remap_block a old new 0 k) q) = o1"
proof -
  have "mremap_shrink a old new (view (kst q)) (fst (k_sys K (Mem (Mremap a old new 0 0)) (kst q)))
          (view (snd (k_sys K (Mem (Mremap a old new 0 0)) (kst q))))"
    using conforms_mremap [OF K, of a old new 0 0 "kst q"] assms
    by (simp add: mremap_rel_def word_less_nat_alt word_le_nat_alt)
  with assms(7) exec_remap_block [of K a old new 0 q a k] page_aligned_not_failed [OF assms(2)] body
  show ?thesis by (simp add: mremap_shrink_def)
qed

lemma grow_rule:
  fixes K :: "'s kernel"
  assumes K: "conforms_vm K view"
    and "page_aligned a" "page_aligned old" "page_aligned new" "unat old < unat new"
    and m: "one_mapping (view (kst q)) a (unat old)" "fits a (unat new)"
      "unmapped (view (kst q)) (a + old) (unat new - unat old)"
    and body: "\<And>q'. view (kst q') = map_range (a + old) (unat new - unat old)
         (\<lambda>_. extension (view (kst q) a)) (view (kst q)) \<Longrightarrow> fst (exec K (k a) q') = o1"
  shows "fst (exec K (remap_block a old new 0 k) q) = o1"
proof -
  have "mremap_grow False a old new (view (kst q)) (fst (k_sys K (Mem (Mremap a old new 0 0)) (kst q)))
          (view (snd (k_sys K (Mem (Mremap a old new 0 0)) (kst q))))"
    using conforms_mremap [OF K, of a old new 0 0 "kst q"] assms
    by (simp add: mremap_rel_def word_less_nat_alt word_le_nat_alt)
  with m exec_remap_block [of K a old new 0 q a k] page_aligned_not_failed [OF assms(2)] body
  show ?thesis by (simp add: mremap_grow_def)
qed

lemma grow_blocked_rule:
  fixes K :: "'s kernel"
  assumes K: "conforms_vm K view"
    and "page_aligned a" "page_aligned old" "page_aligned new" "unat old < unat new"
    and m: "one_mapping (view (kst q)) a (unat old)" "fits a (unat new)"
      "\<not> unmapped (view (kst q)) (a + old) (unat new - unat old)"
  shows "fst (exec K (remap_error_block a old new 0 0 ENOMEM) q) = Returned None"
proof -
  have "mremap_grow False a old new (view (kst q)) (fst (k_sys K (Mem (Mremap a old new 0 0)) (kst q)))
          (view (snd (k_sys K (Mem (Mremap a old new 0 0)) (kst q))))"
    using conforms_mremap [OF K, of a old new 0 0 "kst q"] assms
    by (simp add: mremap_rel_def word_less_nat_alt word_le_nat_alt)
  with m exec_remap_error_block [of K a old new 0 0 q ENOMEM]
  show ?thesis by (auto simp: mremap_grow_def)
qed

lemma move_rule:
  fixes K :: "'s kernel"
  assumes K: "conforms_vm K view"
    and "page_aligned a" "page_aligned old" "page_aligned new" "unat old < unat new"
    and m: "one_mapping (view (kst q)) a (unat old)" "fits a (unat new)"
      "\<not> unmapped (view (kst q)) (a + old) (unat new - unat old)"
    and body: "\<And>q' b. page_aligned b \<Longrightarrow> b \<noteq> 0 \<Longrightarrow> fits b (unat new) \<Longrightarrow> unmapped (view (kst q)) b (unat new) \<Longrightarrow>
       view (kst q') = move_range a (unat old) b (unat new) (view (kst q)) \<Longrightarrow>
       fst (exec K (k b) q') = o1"
  shows "fst (exec K (remap_block a old new 1 k) q) =
     (if succeeds (fst (k_sys K (Mem (Mremap a old new 1 0)) (kst q))) then o1
      else Returned (Some ''mremap error.''))"
proof -
  let ?c = "Mem (Mremap a old new 1 0)"
  have "mremap_grow True a old new (view (kst q)) (fst (k_sys K ?c (kst q))) (view (snd (k_sys K ?c (kst q))))"
    using conforms_mremap [OF K, of a old new 1 0 "kst q"] assms
    by (simp add: mremap_rel_def word_less_nat_alt word_le_nat_alt)
  with m consider (err) "fst (k_sys K ?c (kst q)) = SErr ENOMEM"
    | (ok) b where "fst (k_sys K ?c (kst q)) = SOk (uint b) []" "page_aligned b" "b \<noteq> 0" "fits b (unat new)"
      "unmapped (view (kst q)) b (unat new)"
      "view (snd (k_sys K ?c (kst q))) = move_range a (unat old) b (unat new) (view (kst q))"
    by (auto simp: mremap_grow_def)
  then show ?thesis
  proof cases
    case err
    then show ?thesis by (simp add: remap_block_def exec_simps)
  next
    case ok
    with exec_remap_block [of K a old new 1 q b k] page_aligned_not_failed [OF ok(2)] body
    show ?thesis by simp
  qed
qed

lemma fixed_rule:
  fixes K :: "'s kernel"
  assumes K: "conforms_vm K view"
    and "page_aligned a" "page_aligned old" "page_aligned new" "0 < unat new" "page_aligned na"
    and m: "one_mapping (view (kst q)) a (unat old)" "fits na (unat new)" "\<not> overlap a (unat old) na (unat new)"
    and body: "\<And>q'. view (kst q') = move_range a (unat old) na (unat new) (view (kst q)) \<Longrightarrow>
       fst (exec K (k na) q') = o1"
  shows "fst (exec K (remap_fixed_block a old new na k) q) = o1"
proof -
  have "mremap_fixed a old new na (view (kst q)) (fst (k_sys K (Mem (Mremap a old new 3 na)) (kst q)))
          (view (snd (k_sys K (Mem (Mremap a old new 3 na)) (kst q))))"
    using conforms_mremap [OF K, of a old new 3 na "kst q"] assms
    by (simp add: mremap_rel_def word_less_nat_alt word_le_nat_alt)
  with assms exec_remap_fixed_block [of K a old new na q k]
  show ?thesis by (simp add: mremap_fixed_def)
qed

lemma fixed_overlap_rule:
  fixes K :: "'s kernel"
  assumes K: "conforms_vm K view"
    and "page_aligned a" "page_aligned old" "page_aligned new" "0 < unat new" "page_aligned na"
    and m: "one_mapping (view (kst q)) a (unat old)" "fits na (unat new)" "overlap a (unat old) na (unat new)"
  shows "fst (exec K (remap_error_block a old new (MREMAP_MAYMOVE OR MREMAP_FIXED) na EINVAL) q) = Returned None"
proof -
  have "mremap_fixed a old new na (view (kst q)) (fst (k_sys K (Mem (Mremap a old new 3 na)) (kst q)))
          (view (snd (k_sys K (Mem (Mremap a old new 3 na)) (kst q))))"
    using conforms_mremap [OF K, of a old new 3 na "kst q"] assms
    by (simp add: mremap_rel_def word_less_nat_alt word_le_nat_alt)
  with assms exec_remap_error_block [of K a old new 3 na q EINVAL]
  show ?thesis by (auto simp: mremap_fixed_def)
qed

lemma verify_rule:
  fixes K :: "'s kernel"
  assumes K: "conforms_vm K view" and "fits a (unat len)" "const_on (view (kst q)) a (unat len) (Some c)"
    "readable c" "c_val c = ex"
    and body: "\<And>q'. view (kst q') = view (kst q) \<Longrightarrow> fst (exec K k q') = o1"
  shows "fst (exec K (verify_block a len ex k) q) = o1"
  using exec_verify_block [OF K assms(2-5), of k] body by auto

lemma access_rule:
  fixes K :: "'s kernel"
  assumes K: "conforms_vm K view" and "a \<noteq> 0" "0 < unat len" "fits a (unat len)"
    "accessible (view (kst q)) a (unat len)"
  shows "fst (exec K (access_block a len) q) = Returned None"
  using exec_access_block [OF assms] by auto

lemma signal_rule:
  fixes K :: "'s kernel"
  assumes K: "conforms_vm K view" and sg: "sg = SIGBUS \<or> sg = SIGSEGV"
    and "read_fault a (view (kst q)) sg"
  shows "fst (exec K (signal_block sg a) q) = Exited 0"
  using exec_signal_block [OF assms] by auto

lemma accessible_const: 
  "const_on m a n (Some c) \<Longrightarrow> c_prot c = 3 \<Longrightarrow> \<not> c_bus c \<Longrightarrow> accessible m a n"
  by (simp add: accessible_def const_on_def access_fault_def)

lemma accessible_append:
  "accessible m a n \<Longrightarrow> accessible m a' k \<Longrightarrow> unat a' = unat a + n \<Longrightarrow> accessible m a (n + k)"
  by (smt (verit) accessible_def inr_def add.assoc not_less)

subsection \<open>The bodies after the space is formatted\<close>

abbreviation rw_cell :: "u8 \<Rightarrow> int \<Rightarrow> cell" where
  "rw_cell v sh \<equiv> \<lparr>c_prot = 3, c_val = v, c_shared = (sh \<noteq> 0), c_bus = False\<rparr>"

abbreviation none_cell :: "int \<Rightarrow> cell" where
  "none_cell sh \<equiv> \<lparr>c_prot = 0, c_val = 0, c_shared = (sh \<noteq> 0), c_bus = False\<rparr>"

lemma rw_cell_accessible: "const_on m a n (Some (rw_cell v sh)) \<Longrightarrow> accessible m a n"
  by (erule accessible_const) simp_all

lemma verify_access_rule:
  fixes K :: "'s kernel"
  assumes K: "conforms_vm K view" and "fits a (unat len)" "const_on (view (kst q)) a (unat len) (Some (rw_cell v sh))"
    and "a \<noteq> 0" "0 < unat len'" "fits a (unat len')" "accessible (view (kst q)) a (unat len')"
  shows "fst (exec K (verify_block a len v (access_block a len')) q) = Returned None"
proof (rule verify_rule [OF K assms(2,3)])
  fix q' :: "'s process" assume "view (kst q') = view (kst q)"
  with assms show "fst (exec K (access_block a len') q') = Returned None" by (intro access_rule [OF K]) simp_all
qed (simp_all add: readable_def)

lemma verify_signal_rule:
  fixes K :: "'s kernel"
  assumes K: "conforms_vm K view" and "fits a (unat len)" "const_on (view (kst q)) a (unat len) (Some (rw_cell v sh))"
    and "sg = SIGBUS \<or> sg = SIGSEGV" "read_fault d (view (kst q)) sg"
  shows "fst (exec K (verify_block a len v (signal_block sg d)) q) = Exited 0"
proof (rule verify_rule [OF K assms(2,3)])
  fix q' :: "'s process" assume "view (kst q') = view (kst q)"
  with assms show "fst (exec K (signal_block sg d) q') = Exited 0" by (intro signal_rule [OF K]) simp_all
qed (simp_all add: readable_def)

lemma same_size_ok:
  fixes K :: "'s kernel"
  assumes K: "conforms_vm K view" and b: "page_aligned b" "b \<noteq> 0" and n: "page_aligned n" "0 < unat n"
    and len: "0 < unat len" "fits b (unat len)" "const_on (view (kst q)) b (unat len) (Some (rw_cell v sh))"
  shows "fst (exec K (remap_block b n n 0 (\<lambda>remap. verify_block remap len v (access_block remap len))) q) = Returned None"
proof (rule shrink_rule [OF K])
  fix q' :: "'s process" assume "view (kst q') = map_range (b + n) (unat n - unat n) (\<lambda>_. None) (view (kst q))"
  then have v: "view (kst q') = view (kst q)" by simp
  show "fst (exec K (verify_block b len v (access_block b len)) q') = Returned None"
    using b len rw_cell_accessible [OF len(3)] v by (intro verify_access_rule [OF K]) auto
qed (use b n in simp_all)

lemma shrink_const:
  assumes c: "const_on m b old c" "fits b old" "unat new \<le> old"
  shows "const_on (map_range (b + new) (old - unat new) (\<lambda>_. None) m) b (unat new) c"
proof -
  have "unat (b + new) = unat b + unat new" using c by (intro unat_plus_no_wrap) (simp add: fits_def)
  then have "apart b (unat new) (b + new) (old - unat new)" by (simp add: apart_def)
  with const_on_sub [OF c(1), of b "unat new"] c show ?thesis by (intro const_on_map_other) auto
qed

lemma shrink_ok:
  fixes K :: "'s kernel"
  assumes K: "conforms_vm K view" and b: "page_aligned b" "b \<noteq> 0"
    and n: "page_aligned old" "page_aligned new" "0 < unat new" "unat new \<le> unat old"
    and m: "fits b (unat old)" "const_on (view (kst q)) b (unat old) (Some (rw_cell v sh))"
  shows "fst (exec K (remap_block b old new 0 (\<lambda>remap. verify_block remap new v (access_block remap new))) q) = Returned None"
proof (rule shrink_rule [OF K])
  fix q' :: "'s process" assume v: "view (kst q') = map_range (b + new) (unat old - unat new) (\<lambda>_. None) (view (kst q))"
  have c: "const_on (view (kst q')) b (unat new) (Some (rw_cell v sh))"
    unfolding v by (rule shrink_const [OF m(2,1) n(4)])
  have f: "fits b (unat new)" using m n by (simp add: fits_def)
  show "fst (exec K (verify_block b new v (access_block b new)) q') = Returned None"
    using b n f rw_cell_accessible [OF c] by (intro verify_access_rule [OF K f c])
qed (use b n m const_on_mapped [of "view (kst q)"] in auto)

lemma shrink_segv:
  fixes K :: "'s kernel"
  assumes K: "conforms_vm K view" and b: "page_aligned b"
    and n: "page_aligned old" "page_aligned new" "0 < unat new" "unat new < unat old"
    and m: "fits b (unat old)" "const_on (view (kst q)) b (unat old) (Some (rw_cell v sh))"
  shows "fst (exec K (remap_block b old new 0 (\<lambda>remap. verify_block remap new v (signal_block SIGSEGV (remap + new)))) q) = Exited 0"
proof (rule shrink_rule [OF K])
  fix q' :: "'s process" assume v: "view (kst q') = map_range (b + new) (unat old - unat new) (\<lambda>_. None) (view (kst q))"
  have c: "const_on (view (kst q')) b (unat new) (Some (rw_cell v sh))"
    unfolding v using shrink_const [OF m(2,1), of new] n(4) by simp
  have f: "fits b (unat new)" using m n by (simp add: fits_def)
  have "view (kst q') (b + new) = None" unfolding v using n(4) by (simp add: map_range_def inr_self)
  then show "fst (exec K (verify_block b new v (signal_block SIGSEGV (b + new))) q') = Exited 0"
    by (intro verify_signal_rule [OF K f c]) (simp_all add: read_fault_def read_defined_def access_fault_def)
qed (use b n m const_on_mapped [of "view (kst q)"] in auto)

lemma grow_const:
  assumes c: "const_on m b old (Some c)" "fits b new" "0 < old" "old < new" "unat b' = unat b + old"
  shows "const_on (map_range b' (new - old) (\<lambda>_. extension (m b)) m) b old (Some c)"
    "const_on (map_range b' (new - old) (\<lambda>_. extension (m b)) m) b' (new - old) (extension (Some c))"
  using const_on_map_other [OF c(1), of b' "new - old"] const_on_map_same [of b' "new - old" "extension (m b)" m]
    const_on_first [OF c(1,3)] c(5)
  by (simp_all add: apart_def)

lemma grow_ok:
  fixes K :: "'s kernel"
  assumes K: "conforms_vm K view" and b: "page_aligned b" "b \<noteq> 0"
    and n: "page_aligned old" "page_aligned new" "0 < unat old" "unat old < unat new"
    and m: "fits b (unat new)" "const_on (view (kst q)) b (unat old) (Some (rw_cell v 0))"
      "unmapped (view (kst q)) (b + old) (unat new - unat old)"
  shows "fst (exec K (remap_block b old new 0 (\<lambda>remap. verify_block remap old v (access_block remap new))) q) = Returned None"
proof (rule grow_rule [OF K])
  have u: "unat (b + old) = unat b + unat old" using m(1) n by (intro unat_plus_no_wrap) (simp add: fits_def)
  have f: "fits b (unat old)" using m n by (simp add: fits_def)
  show "one_mapping (view (kst q)) b (unat old)" using const_on_one_mapping [OF m(2) n(3) f] .
  fix q' :: "'s process" assume v: "view (kst q') = map_range (b + old) (unat new - unat old)
         (\<lambda>_. extension (view (kst q) b)) (view (kst q))"
  note c = grow_const [OF m(2,1) n(3,4) u, folded v]
  have a: "accessible (view (kst q')) b (unat new)"
    using accessible_append [OF rw_cell_accessible [OF c(1)] accessible_const [OF c(2) [unfolded extension_def, simplified]] u] n
    by simp
  show "fst (exec K (verify_block b old v (access_block b new)) q') = Returned None"
    using b n m a by (intro verify_access_rule [OF K f c(1)]) auto
qed (use b n m in simp_all)

lemma grow_bus:
  fixes K :: "'s kernel"
  assumes K: "conforms_vm K view" and b: "page_aligned b" and sh: "sh \<noteq> 0"
    and n: "page_aligned old" "page_aligned new" "0 < unat old" "unat old < unat new"
    and m: "fits b (unat new)" "const_on (view (kst q)) b (unat old) (Some (rw_cell v sh))"
      "unmapped (view (kst q)) (b + old) (unat new - unat old)"
  shows "fst (exec K (remap_block b old new 0 (\<lambda>remap. verify_block remap old v (signal_block SIGBUS (remap + old)))) q) = Exited 0"
proof (rule grow_rule [OF K])
  have u: "unat (b + old) = unat b + unat old" using m(1) n by (intro unat_plus_no_wrap) (simp add: fits_def)
  have f: "fits b (unat old)" using m n by (simp add: fits_def)
  show "one_mapping (view (kst q)) b (unat old)" using const_on_one_mapping [OF m(2) n(3) f] .
  fix q' :: "'s process" assume v: "view (kst q') = map_range (b + old) (unat new - unat old)
         (\<lambda>_. extension (view (kst q) b)) (view (kst q))"
  note c = grow_const [OF m(2,1) n(3,4) u, folded v]
  show "fst (exec K (verify_block b old v (signal_block SIGBUS (b + old))) q') = Exited 0"
    using const_on_first [OF c(2)] n(4) sh
    by (intro verify_signal_rule [OF K f c(1)]) (simp_all add: read_fault_def read_defined_def access_fault_def extension_def)
qed (use b n m in simp_all)

lemma move_ok:
  fixes K :: "'s kernel"
  assumes K: "conforms_vm K view" and b: "page_aligned b"
    and n: "page_aligned old" "page_aligned new" "0 < unat old" "unat old < unat new"
    and m: "fits b (unat new)" "const_on (view (kst q)) b (unat old) (Some (rw_cell v 0))"
      "\<not> unmapped (view (kst q)) (b + old) (unat new - unat old)"
  shows "fst (exec K (remap_block b old new 1 (\<lambda>remap. verify_block remap old v (access_block remap new))) q) =
    (if succeeds (fst (k_sys K (Mem (Mremap b old new 1 0)) (kst q))) then Returned None
     else Returned (Some ''mremap error.''))"
proof (rule move_rule [OF K])
  have f: "fits b (unat old)" using m n by (simp add: fits_def)
  show "one_mapping (view (kst q)) b (unat old)" using const_on_one_mapping [OF m(2) n(3) f] .
  fix q' :: "'s process" and d
  assume d: "page_aligned d" "d \<noteq> 0" "fits d (unat new)"
    and v: "view (kst q') = move_range b (unat old) d (unat new) (view (kst q))"
  have fd: "fits d (unat old)" using d n by (simp add: fits_def)
  have u: "unat (d + old) = unat d + unat old" using fd by (intro unat_plus_no_wrap) (simp add: fits_def)
  have c: "const_on (view (kst q')) d (unat old) (Some (rw_cell v 0))"
    unfolding v using const_on_move_dest [OF m(2) f d(3)] n(4) by simp
  have e: "const_on (view (kst q')) (d + old) (unat new - unat old) (extension (Some (rw_cell v 0)))"
    unfolding v using const_on_move_ext [OF m(2) n(3) _ u] n(4) by simp
  have a: "accessible (view (kst q')) d (unat new)"
    using accessible_append [OF rw_cell_accessible [OF c] accessible_const [OF e [unfolded extension_def, simplified]] u] n
    by simp
  show "fst (exec K (verify_block d old v (access_block d new)) q') = Returned None"
    using d n a by (intro verify_access_rule [OF K fd c]) auto
qed (use b n m in simp_all)

lemma move_bus:
  fixes K :: "'s kernel"
  assumes K: "conforms_vm K view" and b: "page_aligned b" and sh: "sh \<noteq> 0"
    and n: "page_aligned old" "page_aligned new" "0 < unat old" "unat old < unat new"
    and m: "fits b (unat new)" "const_on (view (kst q)) b (unat old) (Some (rw_cell v sh))"
      "\<not> unmapped (view (kst q)) (b + old) (unat new - unat old)"
  shows "fst (exec K (remap_block b old new 1 (\<lambda>remap. verify_block remap old v (signal_block SIGBUS (remap + old)))) q) =
    (if succeeds (fst (k_sys K (Mem (Mremap b old new 1 0)) (kst q))) then Exited 0
     else Returned (Some ''mremap error.''))"
proof (rule move_rule [OF K])
  have f: "fits b (unat old)" using m n by (simp add: fits_def)
  show "one_mapping (view (kst q)) b (unat old)" using const_on_one_mapping [OF m(2) n(3) f] .
  fix q' :: "'s process" and d
  assume d: "page_aligned d" "d \<noteq> 0" "fits d (unat new)"
    and v: "view (kst q') = move_range b (unat old) d (unat new) (view (kst q))"
  have fd: "fits d (unat old)" using d n by (simp add: fits_def)
  have u: "unat (d + old) = unat d + unat old" using fd by (intro unat_plus_no_wrap) (simp add: fits_def)
  have c: "const_on (view (kst q')) d (unat old) (Some (rw_cell v sh))"
    unfolding v using const_on_move_dest [OF m(2) f d(3)] n(4) by simp
  have e: "const_on (view (kst q')) (d + old) (unat new - unat old) (extension (Some (rw_cell v sh)))"
    unfolding v using const_on_move_ext [OF m(2) n(3) _ u] n(4) by simp
  show "fst (exec K (verify_block d old v (signal_block SIGBUS (d + old))) q') = Exited 0"
    using const_on_first [OF e] n(4) sh
    by (intro verify_signal_rule [OF K fd c]) (simp_all add: read_fault_def read_defined_def access_fault_def extension_def)
qed (use b n m in simp_all)

lemma move_segv:
  fixes K :: "'s kernel"
  assumes K: "conforms_vm K view" and b: "page_aligned b"
    and n: "page_aligned old" "page_aligned new" "0 < unat old" "unat old < unat new"
    and m: "fits b (unat new)" "const_on (view (kst q)) b (unat old) (Some (rw_cell v sh))"
      "\<not> unmapped (view (kst q)) (b + old) (unat new - unat old)"
  shows "fst (exec K (remap_block b old new 1 (\<lambda>remap. verify_block remap old v (signal_block SIGSEGV b))) q) =
    (if succeeds (fst (k_sys K (Mem (Mremap b old new 1 0)) (kst q))) then Exited 0
     else Returned (Some ''mremap error.''))"
proof (rule move_rule [OF K])
  have f: "fits b (unat old)" using m n by (simp add: fits_def)
  show "one_mapping (view (kst q)) b (unat old)" using const_on_one_mapping [OF m(2) n(3) f] .
  fix q' :: "'s process" and d
  assume d: "page_aligned d" "d \<noteq> 0" "fits d (unat new)" "unmapped (view (kst q)) d (unat new)"
    and v: "view (kst q') = move_range b (unat old) d (unat new) (view (kst q))"
  have fd: "fits d (unat old)" using d n by (simp add: fits_def)
  have c: "const_on (view (kst q')) d (unat old) (Some (rw_cell v sh))"
    unfolding v using const_on_move_dest [OF m(2) f d(3)] n(4) by simp
  have "apart b (unat old) d (unat new)"
    using mapped_unmapped_apart [OF m(2) d(4) f d(3)] n by auto
  from const_on_first [OF const_on_move_src [OF this]] n(3) have "view (kst q') b = None" by (simp add: v)
  then show "fst (exec K (verify_block d old v (signal_block SIGSEGV b)) q') = Exited 0"
    by (intro verify_signal_rule [OF K fd c]) (simp_all add: read_fault_def read_defined_def access_fault_def)
qed (use b n m in simp_all)

lemma fixed_ok:
  fixes K :: "'s kernel"
  assumes K: "conforms_vm K view" and b: "page_aligned b" "page_aligned d" "d \<noteq> 0"
    and n: "page_aligned n" "0 < unat n"
    and m: "fits b (unat n)" "fits d (unat n)" "const_on (view (kst q)) b (unat n) (Some (rw_cell v sh))"
      "apart b (unat n) d (unat n)"
  shows "fst (exec K (remap_fixed_block b n n d (\<lambda>remap. verify_block remap n v (access_block remap n))) q) = Returned None"
proof (rule fixed_rule [OF K])
  show "one_mapping (view (kst q)) b (unat n)" using const_on_one_mapping [OF m(3) n(2) m(1)] .
  fix q' :: "'s process" assume v: "view (kst q') = move_range b (unat n) d (unat n) (view (kst q))"
  have c: "const_on (view (kst q')) d (unat n) (Some (rw_cell v sh))"
    unfolding v using const_on_move_dest [OF m(3,1,2)] by simp
  show "fst (exec K (verify_block d n v (access_block d n)) q') = Returned None"
    using b n m rw_cell_accessible [OF c] by (intro verify_access_rule [OF K m(2) c]) auto
qed (use b n m in \<open>simp_all flip: apart_iff_not_overlap\<close>)

lemma fixed_rest_ok:
  fixes K :: "'s kernel"
  assumes K: "conforms_vm K view" and b: "page_aligned b" "page_aligned d" "d \<noteq> 0"
    and n: "page_aligned n" "0 < unat n"
    and m: "fits b (unat n)" "fits d (unat n)" "const_on (view (kst q)) b (unat n) (Some (rw_cell v sh))"
      "apart b (unat n) d (unat n)"
    and rest: "fits g (unat k)" "const_on (view (kst q)) g (unat k) (Some (rw_cell w sh))"
      "apart g (unat k) b (unat n)" "apart g (unat k) d (unat n)"
  shows "fst (exec K (remap_fixed_block b n n d (\<lambda>remap.
     verify_block remap n v (verify_block g k w (access_block remap n)))) q) = Returned None"
proof (rule fixed_rule [OF K])
  show "one_mapping (view (kst q)) b (unat n)" using const_on_one_mapping [OF m(3) n(2) m(1)] .
  fix q' :: "'s process" assume v: "view (kst q') = move_range b (unat n) d (unat n) (view (kst q))"
  have c: "const_on (view (kst q')) d (unat n) (Some (rw_cell v sh))"
    unfolding v using const_on_move_dest [OF m(3,1,2)] by simp
  have g: "const_on (view (kst q')) g (unat k) (Some (rw_cell w sh))"
    unfolding v by (rule const_on_move_other [OF rest(2-4)])
  show "fst (exec K (verify_block d n v (verify_block g k w (access_block d n))) q') = Returned None"
  proof (rule verify_rule [OF K m(2) c])
    fix q2 :: "'s process" assume v2: "view (kst q2) = view (kst q')"
    show "fst (exec K (verify_block g k w (access_block d n)) q2) = Returned None"
    proof (rule verify_rule [OF K rest(1) g [folded v2]])
      fix q3 :: "'s process" assume "view (kst q3) = view (kst q2)"
      then show "fst (exec K (access_block d n) q3) = Returned None"
        using b n m rw_cell_accessible [OF c] v2 by (intro access_rule [OF K]) simp_all
    qed (simp_all add: readable_def)
  qed (simp_all add: readable_def)
qed (use b n m in \<open>simp_all flip: apart_iff_not_overlap\<close>)

lemma fixed_segv:
  fixes K :: "'s kernel"
  assumes K: "conforms_vm K view" and b: "page_aligned b" "page_aligned d"
    and n: "page_aligned n" "0 < unat n"
    and m: "fits b (unat n)" "fits d (unat n)" "const_on (view (kst q)) b (unat n) (Some (rw_cell v sh))"
      "apart b (unat n) d (unat n)"
  shows "fst (exec K (remap_fixed_block b n n d (\<lambda>remap. verify_block remap n v (signal_block SIGSEGV b))) q) = Exited 0"
proof (rule fixed_rule [OF K])
  show "one_mapping (view (kst q)) b (unat n)" using const_on_one_mapping [OF m(3) n(2) m(1)] .
  fix q' :: "'s process" assume v: "view (kst q') = move_range b (unat n) d (unat n) (view (kst q))"
  have c: "const_on (view (kst q')) d (unat n) (Some (rw_cell v sh))"
    unfolding v using const_on_move_dest [OF m(3,1,2)] by simp
  have "view (kst q') b = None"
    using const_on_first [OF const_on_move_src [OF m(4)] n(2)] by (simp add: v)
  then show "fst (exec K (verify_block d n v (signal_block SIGSEGV b)) q') = Exited 0"
    by (intro verify_signal_rule [OF K m(2) c]) (simp_all add: read_fault_def read_defined_def access_fault_def)
qed (use b n m in \<open>simp_all flip: apart_iff_not_overlap\<close>)

lemma grow_blocked_ok:
  fixes K :: "'s kernel"
  assumes K: "conforms_vm K view" and b: "page_aligned b"
    and n: "page_aligned old" "page_aligned new" "0 < unat old" "unat old < unat new"
    and m: "fits b (unat new)" "const_on (view (kst q)) b (unat old) (Some c)"
      "const_on (view (kst q)) (b + old) (unat new - unat old) (Some d)"
  shows "fst (exec K (remap_error_block b old new 0 0 ENOMEM) q) = Returned None"
proof (rule grow_blocked_rule [OF K])
  have f: "fits b (unat old)" using m n by (simp add: fits_def)
  show "one_mapping (view (kst q)) b (unat old)" using const_on_one_mapping [OF m(2) n(3) f] .
  show "\<not> unmapped (view (kst q)) (b + old) (unat new - unat old)"
    using const_on_not_unmapped [OF m(3)] n(4) by simp
qed (use b n m in simp_all)

lemma fixed_overlap_ok:
  fixes K :: "'s kernel"
  assumes K: "conforms_vm K view" and b: "page_aligned b" "page_aligned d"
    and n: "page_aligned old" "page_aligned new" "0 < unat old" "0 < unat new"
    and m: "fits b (unat old)" "fits d (unat new)" "const_on (view (kst q)) b (unat old) (Some c)"
      "overlap b (unat old) d (unat new)"
  shows "fst (exec K (remap_error_block b old new (MREMAP_MAYMOVE OR MREMAP_FIXED) d EINVAL) q) = Returned None"
  using assms by (intro fixed_overlap_rule [OF K] const_on_one_mapping)

lemma init_block_rule_some:
  fixes K :: "'s kernel"
  assumes K: "conforms_vm K view" and qs: "params_ok qs" "params_total qs < 2 ^ 63" "qs \<noteq> []"
    and body: "\<And>b q. page_aligned b \<Longrightarrow> b \<noteq> 0 \<Longrightarrow> fits b (params_total qs) \<Longrightarrow> laid_out 0 b qs (view (kst q)) \<Longrightarrow>
      fst (exec K (k (placed b qs)) q) \<in> S"
  shows "fst (exec K (init_block qs k) p) \<in>
     (if space_formatted K qs p then S else {Returned (Some ''mmap error.'')})"
  using exec_init_block [OF K qs, of p k] body by (fastforce split: if_splits)

subsection \<open>The cases\<close>

lemmas param_defs = use_space_def free_space_def param_cell_def Let_def page_size_numerals

lemma space_addr:
  assumes "page_aligned b" "b \<noteq> 0" "fits b n" "unat x \<le> n"
  shows "unat (b + x) = unat b + unat x" "unat (x + b) = unat b + unat x" "b + x \<noteq> 0" "x + b \<noteq> 0"
    "page_aligned x \<Longrightarrow> page_aligned (b + x)" "page_aligned x \<Longrightarrow> page_aligned (x + b)"
proof -
  show u: "unat (b + x) = unat b + unat x"
    using assms by (intro unat_plus_no_wrap) (simp add: fits_def)
  then show "unat (x + b) = unat b + unat x" by (simp add: add.commute)
  have "0 < unat b" using assms(2) by (simp add: unat_gt_0)
  with u show "b + x \<noteq> 0" by (metis add_is_0 less_numeral_extra(3) unsigned_0)
  then show "x + b \<noteq> 0" by (simp add: add.commute)
  show "page_aligned (b + x)" if "page_aligned x"
    using assms that by (simp add: page_aligned_def u mod_add_eq [symmetric])
  then show "page_aligned (x + b)" if "page_aligned x" using that by (simp add: add.commute)
qed

lemma run_000_correct:
  fixes K :: "'s kernel"
  assumes K: "conforms_vm K view" and r: "range_ok r"
  shows "fst (exec K (run_000 sh r) p) =
     (if space_formatted K (params_000 sh r) p then Returned None else Returned (Some ''mmap error.''))"
proof -
  note rr = range_okD [OF r]
  show ?thesis
    unfolding run_000_def Let_def
  proof (rule init_block_rule [OF K], goal_cases)
    case (4 b q)
    note b = 4(1,2) 4(3,4) [unfolded params_000_def param_defs, simplified]
    show ?case
      using rr b same_size_ok [OF K b(1,2), of r r q "0x30" sh]
      by (simp add: params_000_def param_defs fits_def)
  qed (use rr in \<open>simp_all add: params_000_def param_defs\<close>)
qed

lemma run_001_correct:
  fixes K :: "'s kernel"
  assumes K: "conforms_vm K view" and r: "range_ok r"
  shows "fst (exec K (run_001 sh r) p) =
     (if space_formatted K (params_001 sh r) p then Returned None else Returned (Some ''mmap error.''))"
proof -
  note rr = range_okD [OF r]
  show ?thesis
    unfolding run_001_def Let_def
  proof (rule init_block_rule [OF K], goal_cases)
    case (4 b q)
    note b = 4(1,2) 4(3,4) [unfolded params_001_def param_defs, simplified]
    show ?case
      using rr b same_size_ok [OF K b(1,2), of "0xffffffffffffe000" r q "0x30" sh]
      by (simp add: params_001_def param_defs fits_def page_aligned_def)
  qed (use rr in \<open>simp_all add: params_001_def param_defs\<close>)
qed

lemma run_002_correct:
  fixes K :: "'s kernel"
  assumes K: "conforms_vm K view" and r: "range_ok r"
  shows "fst (exec K (run_002 sh r) p) =
     (if space_formatted K (params_002 sh r) p then Returned None else Returned (Some ''mmap error.''))"
proof -
  note rr = range_okD [OF r]
  show ?thesis
    unfolding run_002_def Let_def
  proof (rule init_block_rule [OF K], goal_cases)
    case (4 b q)
    note b = 4(1,2) 4(3,4) [unfolded params_002_def param_defs, simplified]
    show ?case
      using rr b shrink_ok [OF K b(1,2), of "r * 2" "r * 2 - 4096" q "0x30" sh]
      by (simp add: params_002_def param_defs fits_def)
  qed (use rr in \<open>simp_all add: params_002_def param_defs\<close>)
qed

lemma run_014_correct:
  fixes K :: "'s kernel"
  assumes K: "conforms_vm K view" and r: "range_ok r"
  shows "fst (exec K (run_014 sh r) p) =
     (if space_formatted K (params_014 sh r) p then Exited 0 else Returned (Some ''mmap error.''))"
proof -
  note rr = range_okD [OF r]
  show ?thesis
    unfolding run_014_def Let_def
  proof (rule init_block_rule [OF K], goal_cases)
    case (4 b q)
    note b = 4(1,2) 4(3,4) [unfolded params_014_def param_defs, simplified]
    show ?case
      using rr b shrink_segv [OF K b(1), of "r * 2" "r * 2 - 4096" q "0x30" sh]
      by (simp add: params_014_def param_defs fits_def)
  qed (use rr in \<open>simp_all add: params_014_def param_defs\<close>)
qed

lemma run_003_correct:
  fixes K :: "'s kernel"
  assumes K: "conforms_vm K view" and r: "range_ok r" and sh: "sh = 0"
  shows "fst (exec K (run_003 sh r) p) =
     (if space_formatted K (params_003 sh r) p then Returned None else Returned (Some ''mmap error.''))"
proof -
  note rr = range_okD [OF r]
  show ?thesis
    unfolding run_003_def Let_def
  proof (rule init_block_rule [OF K], goal_cases)
    case (4 b q)
    note b = 4(1,2) 4(3,4) [unfolded params_003_def param_defs, simplified]
    show ?case
      using rr b grow_ok [OF K b(1,2), of r "r + r" q "0x30"] sh
      by (simp add: params_003_def param_defs fits_def const_on_unmapped)
  qed (use rr in \<open>simp_all add: params_003_def param_defs\<close>)
qed

lemma run_103_correct:
  fixes K :: "'s kernel"
  assumes K: "conforms_vm K view" and r: "range_ok r" and sh: "sh \<noteq> 0"
  shows "fst (exec K (run_103 sh r) p) =
     (if space_formatted K (params_103 sh r) p then Exited 0 else Returned (Some ''mmap error.''))"
proof -
  note rr = range_okD [OF r]
  show ?thesis
    unfolding run_103_def Let_def
  proof (rule init_block_rule [OF K], goal_cases)
    case (4 b q)
    note b = 4(1,2) 4(3,4) [unfolded params_103_def param_defs, simplified]
    show ?case
      using rr b grow_bus [OF K b(1) sh, of r "r + r" q "0x30"] sh
      by (simp add: params_103_def param_defs fits_def const_on_unmapped)
  qed (use rr in \<open>simp_all add: params_103_def param_defs\<close>)
qed

lemma run_004_correct:
  fixes K :: "'s kernel"
  assumes K: "conforms_vm K view" and r: "range_ok r"
  shows "fst (exec K (run_004 sh r) p) =
     (if space_formatted K (params_004 sh r) p then Returned None else Returned (Some ''mmap error.''))"
proof -
  note rr = range_okD [OF r]
  show ?thesis
    unfolding run_004_def Let_def
  proof (rule init_block_rule [OF K], goal_cases)
    case (4 b q)
    note b = 4(1,2) 4(3,4) [unfolded params_004_def param_defs, simplified]
    note at = space_addr [OF b(1,2,3)]
    show ?case
      using rr b grow_blocked_ok [OF K b(1), of r "r + r" q "rw_cell 0x30 sh" "none_cell sh"]
      by (simp add: params_004_def param_defs fits_def)
  qed (use rr in \<open>simp_all add: params_004_def param_defs\<close>)
qed

lemma run_005_correct:
  fixes K :: "'s kernel"
  assumes K: "conforms_vm K view" and r: "range_ok r" and sh: "sh = 0"
  shows "fst (exec K (run_005 sh r) p) \<in>
     (if space_formatted K (params_005 sh r) p then {Returned None, Returned (Some ''mremap error.'')} else {Returned (Some ''mmap error.'')})"
proof -
  note rr = range_okD [OF r]
  show ?thesis
    unfolding run_005_def Let_def
  proof (rule init_block_rule_some [OF K], goal_cases)
    case (4 b q)
    note b = 4(1,2) 4(3,4) [unfolded params_005_def param_defs, simplified]
    note at = space_addr [OF b(1,2,3)]
    show ?case
      using rr b move_ok [OF K b(1), of r "r + r" q "0x30"] sh
        const_on_not_unmapped [of "view (kst q)" "b + r" "unat r" "none_cell sh"]
      by (simp add: params_005_def param_defs fits_def)
  qed (use rr in \<open>simp_all add: params_005_def param_defs\<close>)
qed

lemma run_105_correct:
  fixes K :: "'s kernel"
  assumes K: "conforms_vm K view" and r: "range_ok r" and sh: "sh \<noteq> 0"
  shows "fst (exec K (run_105 sh r) p) \<in>
     (if space_formatted K (params_105 sh r) p then {Exited 0, Returned (Some ''mremap error.'')} else {Returned (Some ''mmap error.'')})"
proof -
  note rr = range_okD [OF r]
  show ?thesis
    unfolding run_105_def Let_def
  proof (rule init_block_rule_some [OF K], goal_cases)
    case (4 b q)
    note b = 4(1,2) 4(3,4) [unfolded params_105_def param_defs, simplified]
    note at = space_addr [OF b(1,2,3)]
    show ?case
      using rr b move_bus [OF K b(1) sh, of r "r + r" q "0x30"] sh
        const_on_not_unmapped [of "view (kst q)" "b + r" "unat r" "none_cell sh"]
      by (simp add: params_105_def param_defs fits_def)
  qed (use rr in \<open>simp_all add: params_105_def param_defs\<close>)
qed

lemma run_015_correct:
  fixes K :: "'s kernel"
  assumes K: "conforms_vm K view" and r: "range_ok r"
  shows "fst (exec K (run_015 sh r) p) \<in>
     (if space_formatted K (params_015 sh r) p then {Exited 0, Returned (Some ''mremap error.'')} else {Returned (Some ''mmap error.'')})"
proof -
  note rr = range_okD [OF r]
  show ?thesis
    unfolding run_015_def Let_def
  proof (rule init_block_rule_some [OF K], goal_cases)
    case (4 b q)
    note b = 4(1,2) 4(3,4) [unfolded params_015_def param_defs, simplified]
    note at = space_addr [OF b(1,2,3)]
    show ?case
      using rr b move_segv [OF K b(1), of r "r + r" q "0x30" sh]
        const_on_not_unmapped [of "view (kst q)" "b + r" "unat r" "none_cell sh"]
      by (simp add: params_015_def param_defs fits_def)
  qed (use rr in \<open>simp_all add: params_015_def param_defs\<close>)
qed

lemma run_006_correct:
  fixes K :: "'s kernel"
  assumes K: "conforms_vm K view" and r: "range_ok r"
  shows "fst (exec K (run_006 sh r) p) =
     (if space_formatted K (params_006 sh r) p then Returned None else Returned (Some ''mmap error.''))"
proof -
  note rr = range_okD [OF r]
  show ?thesis
    unfolding run_006_def Let_def
  proof (rule init_block_rule [OF K], goal_cases)
    case (4 b q)
    note b = 4(1,2) 4(3,4) [unfolded params_006_def param_defs, simplified]
    note at = space_addr [OF b(1,2,3)]
    show ?case
      using rr b at [of r] fixed_ok [OF K b(1), of "b + r" r q "0x30" sh]
      by (simp add: params_006_def param_defs fits_def apart_def)
  qed (use rr in \<open>simp_all add: params_006_def param_defs\<close>)
qed

lemma run_016_correct:
  fixes K :: "'s kernel"
  assumes K: "conforms_vm K view" and r: "range_ok r"
  shows "fst (exec K (run_016 sh r) p) =
     (if space_formatted K (params_016 sh r) p then Exited 0 else Returned (Some ''mmap error.''))"
proof -
  note rr = range_okD [OF r]
  show ?thesis
    unfolding run_016_def Let_def
  proof (rule init_block_rule [OF K], goal_cases)
    case (4 b q)
    note b = 4(1,2) 4(3,4) [unfolded params_016_def param_defs, simplified]
    note at = space_addr [OF b(1,2,3)]
    show ?case
      using rr b at [of r] fixed_segv [OF K b(1), of "b + r" r q "0x30" sh]
      by (simp add: params_016_def param_defs fits_def apart_def)
  qed (use rr in \<open>simp_all add: params_016_def param_defs\<close>)
qed

lemma run_012_correct:
  fixes K :: "'s kernel"
  assumes K: "conforms_vm K view" and r: "range_ok r"
  shows "fst (exec K (run_012 sh r) p) =
     (if space_formatted K (params_012 sh r) p then Returned None else Returned (Some ''mmap error.''))"
proof -
  note rr = range_okD [OF r]
  show ?thesis
    unfolding run_012_def Let_def
  proof (rule init_block_rule [OF K], goal_cases)
    case (4 b q)
    note b = 4(1,2) 4(3,4) [unfolded params_012_def param_defs, simplified]
    note at = space_addr [OF b(1,2,3)]
    show ?case
      using rr b at [of r] at [of "2 * r"] fixed_ok [OF K, of "2 * r + b" "b + r" r q "0x32" sh]
      by (simp add: params_012_def param_defs fits_def apart_def)
  qed (use rr in \<open>simp_all add: params_012_def param_defs\<close>)
qed

lemma run_013_correct:
  fixes K :: "'s kernel"
  assumes K: "conforms_vm K view" and r: "range_ok r"
  shows "fst (exec K (run_013 sh r) p) =
     (if space_formatted K (params_013 sh r) p then Returned None else Returned (Some ''mmap error.''))"
proof -
  note rr = range_okD [OF r]
  show ?thesis
    unfolding run_013_def Let_def
  proof (rule init_block_rule [OF K], goal_cases)
    case (4 b q)
    note b = 4(1,2) 4(3,4) [unfolded params_013_def param_defs, simplified]
    note at = space_addr [OF b(1,2,3)]
    show ?case
      using rr b at [of r] at [of "2 * r"] fixed_ok [OF K, of "b + r" "2 * r + b" r q "0x31" sh]
      by (simp add: params_013_def param_defs fits_def apart_def)
  qed (use rr in \<open>simp_all add: params_013_def param_defs\<close>)
qed

lemma page_add: "range_ok r \<Longrightarrow> unat (r + 4096) = unat r + 4096 \<and> page_aligned (r + 4096) \<and> page_aligned 4096"
  by (auto simp: range_ok_def page_aligned_def unat_plus_no_wrap)

lemma run_007_correct:
  fixes K :: "'s kernel"
  assumes K: "conforms_vm K view" and r: "range_ok r"
  shows "fst (exec K (run_007 sh r) p) =
     (if space_formatted K (params_007 sh r) p then Returned None else Returned (Some ''mmap error.''))"
proof -
  note rr = range_okD [OF r]
  show ?thesis
    unfolding run_007_def Let_def
  proof (rule init_block_rule [OF K], goal_cases)
    case (4 b q)
    note b = 4(1,2) 4(3,4) [unfolded params_007_def param_defs, simplified]
    note at = space_addr [OF b(1,2,3)]
    show ?case
      using rr b at [of "2 * r"] at [of "3 * r"] fixed_rest_ok [OF K b(1), of "2 * r + b" r q "0x30" sh "3 * r + b" r "0x32"]
        const_on_sub [of "view (kst q)" "2 * r + b" "unat (r * 2)" _ "3 * r + b" "unat r"]
      by (simp add: params_007_def param_defs fits_def apart_def)
  qed (use rr in \<open>simp_all add: params_007_def param_defs\<close>)
qed

lemma run_008_correct:
  fixes K :: "'s kernel"
  assumes K: "conforms_vm K view" and r: "range_ok r"
  shows "fst (exec K (run_008 sh r) p) =
     (if space_formatted K (params_008 sh r) p then Returned None else Returned (Some ''mmap error.''))"
proof -
  note rr = range_okD [OF r]
  show ?thesis
    unfolding run_008_def Let_def
  proof (rule init_block_rule [OF K], goal_cases)
    case (4 b q)
    note b = 4(1,2) 4(3,4) [unfolded params_008_def param_defs, simplified]
    note at = space_addr [OF b(1,2,3)]
    show ?case
      using rr b at [of r] at [of "2 * r"]
        fixed_overlap_ok [OF K, of "2 * r + b" "b + r" r "3 * r" q "rw_cell 0x32 sh"]
      by (simp add: params_008_def param_defs fits_def overlap_def)
  qed (use rr in \<open>simp_all add: params_008_def param_defs\<close>)
qed

lemma run_009_correct:
  fixes K :: "'s kernel"
  assumes K: "conforms_vm K view" and r: "range_ok r"
  shows "fst (exec K (run_009 sh r) p) =
     (if space_formatted K (params_009 sh r) p then Returned None else Returned (Some ''mmap error.''))"
proof -
  note rr = range_okD [OF r]
  show ?thesis
    unfolding run_009_def Let_def
  proof (rule init_block_rule [OF K], goal_cases)
    case (4 b q)
    note b = 4(1,2) 4(3,4) [unfolded params_009_def param_defs, simplified]
    note at = space_addr [OF b(1,2,3)]
    show ?case
      using rr b at [of r] at [of "r + 4096", unfolded add.assoc [symmetric]] page_add [OF r]
        fixed_overlap_ok [OF K, of "b + r" "b + r + 4096" "r * 2" "4096" q "rw_cell 0x31 sh"]
      by (simp add: params_009_def param_defs fits_def overlap_def)
  qed (use rr in \<open>simp_all add: params_009_def param_defs\<close>)
qed

lemma run_010_correct:
  fixes K :: "'s kernel"
  assumes K: "conforms_vm K view" and r: "range_ok r"
  shows "fst (exec K (run_010 sh r) p) =
     (if space_formatted K (params_010 sh r) p then Returned None else Returned (Some ''mmap error.''))"
proof -
  note rr = range_okD [OF r]
  show ?thesis
    unfolding run_010_def Let_def
  proof (rule init_block_rule [OF K], goal_cases)
    case (4 b q)
    note b = 4(1,2) 4(3,4) [unfolded params_010_def param_defs, simplified]
    note at = space_addr [OF b(1,2,3)]
    show ?case
      using rr b at [of r] at [of "2 * r"]
        fixed_overlap_ok [OF K, of "2 * r + b" "b + r" "r * 2" "r * 2" q "rw_cell 0x32 sh"]
      by (simp add: params_010_def param_defs fits_def overlap_def)
  qed (use rr in \<open>simp_all add: params_010_def param_defs\<close>)
qed

lemma run_011_correct:
  fixes K :: "'s kernel"
  assumes K: "conforms_vm K view" and r: "range_ok r"
  shows "fst (exec K (run_011 sh r) p) =
     (if space_formatted K (params_011 sh r) p then Returned None else Returned (Some ''mmap error.''))"
proof -
  note rr = range_okD [OF r]
  show ?thesis
    unfolding run_011_def Let_def
  proof (rule init_block_rule [OF K], goal_cases)
    case (4 b q)
    note b = 4(1,2) 4(3,4) [unfolded params_011_def param_defs, simplified]
    note at = space_addr [OF b(1,2,3)]
    show ?case
      using rr b at [of r] at [of "r + 4096", unfolded add.assoc [symmetric]] page_add [OF r]
        fixed_overlap_ok [OF K, of "b + r" "b + r + 4096" "r * 2" "r * 2" q "rw_cell 0x31 sh"]
      by (simp add: params_011_def param_defs fits_def overlap_def)
  qed (use rr in \<open>simp_all add: params_011_def param_defs\<close>)
qed

subsection \<open>The suite\<close>

lemma range_sizes: "range_ok MREMAP_RANGE_SIZE" "range_ok MREMAP_RANGE_LARGE_SIZE"
proof -
  have e: "MREMAP_RANGE_SIZE = 16384" by (simp add: MREMAP_RANGE_SIZE_def page_size_numerals)
  show "range_ok MREMAP_RANGE_SIZE" unfolding e by (simp add: range_ok_def page_aligned_def)
  have e: "MREMAP_RANGE_LARGE_SIZE = 2097152" by code_simp
  show "range_ok MREMAP_RANGE_LARGE_SIZE" unfolding e by (simp add: range_ok_def page_aligned_def)
qed

text \<open>What the case with number \<^verbatim>\<open>n\<close> does when all goes well: pass, or leave through its handler.\<close>

definition expected_outcome :: "int \<Rightarrow> verdict outcome" where
  "expected_outcome n = (if n mod 100 \<in> {14, 15, 16} \<or> n mod 200 \<in> {103, 105} then Exited 0 else Returned None)"

definition may_not_move :: "int \<Rightarrow> bool" where
  "may_not_move n \<longleftrightarrow> n mod 100 \<in> {5, 15}"

text \<open>The ranges the case with number \<^verbatim>\<open>n\<close> formats.\<close>

definition mremap_params :: "int \<Rightarrow> mremap_mmap_anon_param list" where
  "mremap_params n =
     ([params_000, params_001, params_002, params_003, params_004, params_005, params_006, params_007,
       params_008, params_009, params_010, params_011, params_012, params_013, params_014, params_015,
       params_016] ! nat (n mod 100))
     (if 100 \<le> n mod 200 then 1 else 0)
     (if 200 \<le> n then MREMAP_RANGE_LARGE_SIZE else MREMAP_RANGE_SIZE)"

definition outcome_ok :: "'s kernel \<Rightarrow> 's process \<Rightarrow> int \<Rightarrow> verdict outcome \<Rightarrow> bool" where
  "outcome_ok K p n o1 \<longleftrightarrow>
     (if space_formatted K (mremap_params n) p
      then o1 = expected_outcome n \<or> (may_not_move n \<and> o1 = Returned (Some ''mremap error.''))
      else o1 = Returned (Some ''mmap error.''))"

lemma outcome_ok_if:
  "o1 = (if space_formatted K qs p then e else Returned (Some ''mmap error.'')) \<Longrightarrow>
     mremap_params n = qs \<Longrightarrow> e = expected_outcome n \<Longrightarrow> outcome_ok K p n o1"
  by (simp add: outcome_ok_def)

lemma outcome_ok_in:
  "o1 \<in> (if space_formatted K qs p then {e, Returned (Some ''mremap error.'')} else {Returned (Some ''mmap error.'')}) \<Longrightarrow>
     mremap_params n = qs \<Longrightarrow> e = expected_outcome n \<Longrightarrow> may_not_move n \<Longrightarrow> outcome_ok K p n o1"
  by (auto simp: outcome_ok_def split: if_splits)

lemma params_shared: "params_103 = params_003" "params_105 = params_005"
  by (simp_all add: fun_eq_iff params_103_def params_003_def params_105_def params_005_def)

lemma mremap_variant_0:
  fixes K :: "'s kernel"
  assumes K: "conforms_vm K view"
  shows "outcome_ok K p 0 (fst (exec K mremap_mmap_anon_000 p))"
    "outcome_ok K p 1 (fst (exec K mremap_mmap_anon_001 p))"
    "outcome_ok K p 2 (fst (exec K mremap_mmap_anon_002 p))"
    "outcome_ok K p 3 (fst (exec K mremap_mmap_anon_003 p))"
    "outcome_ok K p 4 (fst (exec K mremap_mmap_anon_004 p))"
    "outcome_ok K p 5 (fst (exec K mremap_mmap_anon_005 p))"
    "outcome_ok K p 6 (fst (exec K mremap_mmap_anon_006 p))"
    "outcome_ok K p 7 (fst (exec K mremap_mmap_anon_007 p))"
    "outcome_ok K p 8 (fst (exec K mremap_mmap_anon_008 p))"
    "outcome_ok K p 9 (fst (exec K mremap_mmap_anon_009 p))"
    "outcome_ok K p 10 (fst (exec K mremap_mmap_anon_010 p))"
    "outcome_ok K p 11 (fst (exec K mremap_mmap_anon_011 p))"
    "outcome_ok K p 12 (fst (exec K mremap_mmap_anon_012 p))"
    "outcome_ok K p 13 (fst (exec K mremap_mmap_anon_013 p))"
    "outcome_ok K p 14 (fst (exec K mremap_mmap_anon_014 p))"
    "outcome_ok K p 15 (fst (exec K mremap_mmap_anon_015 p))"
    "outcome_ok K p 16 (fst (exec K mremap_mmap_anon_016 p))"
  unfolding mremap_mmap_anon_000_def mremap_mmap_anon_001_def mremap_mmap_anon_002_def mremap_mmap_anon_003_def mremap_mmap_anon_004_def mremap_mmap_anon_005_def mremap_mmap_anon_006_def mremap_mmap_anon_007_def mremap_mmap_anon_008_def mremap_mmap_anon_009_def mremap_mmap_anon_010_def mremap_mmap_anon_011_def mremap_mmap_anon_012_def mremap_mmap_anon_013_def mremap_mmap_anon_014_def mremap_mmap_anon_015_def mremap_mmap_anon_016_def
  subgoal by (rule outcome_ok_if, rule run_000_correct [OF K range_sizes(1)]) (simp_all add: mremap_params_def params_shared expected_outcome_def)
  subgoal by (rule outcome_ok_if, rule run_001_correct [OF K range_sizes(1)]) (simp_all add: mremap_params_def params_shared expected_outcome_def)
  subgoal by (rule outcome_ok_if, rule run_002_correct [OF K range_sizes(1)]) (simp_all add: mremap_params_def params_shared expected_outcome_def)
  subgoal by (rule outcome_ok_if, rule run_003_correct [OF K range_sizes(1)]) (simp_all add: mremap_params_def params_shared expected_outcome_def)
  subgoal by (rule outcome_ok_if, rule run_004_correct [OF K range_sizes(1)]) (simp_all add: mremap_params_def params_shared expected_outcome_def)
  subgoal by (rule outcome_ok_in, rule run_005_correct [OF K range_sizes(1)]) (simp_all add: mremap_params_def params_shared expected_outcome_def may_not_move_def)
  subgoal by (rule outcome_ok_if, rule run_006_correct [OF K range_sizes(1)]) (simp_all add: mremap_params_def params_shared expected_outcome_def)
  subgoal by (rule outcome_ok_if, rule run_007_correct [OF K range_sizes(1)]) (simp_all add: mremap_params_def params_shared expected_outcome_def)
  subgoal by (rule outcome_ok_if, rule run_008_correct [OF K range_sizes(1)]) (simp_all add: mremap_params_def params_shared expected_outcome_def)
  subgoal by (rule outcome_ok_if, rule run_009_correct [OF K range_sizes(1)]) (simp_all add: mremap_params_def params_shared expected_outcome_def)
  subgoal by (rule outcome_ok_if, rule run_010_correct [OF K range_sizes(1)]) (simp_all add: mremap_params_def params_shared expected_outcome_def)
  subgoal by (rule outcome_ok_if, rule run_011_correct [OF K range_sizes(1)]) (simp_all add: mremap_params_def params_shared expected_outcome_def)
  subgoal by (rule outcome_ok_if, rule run_012_correct [OF K range_sizes(1)]) (simp_all add: mremap_params_def params_shared expected_outcome_def)
  subgoal by (rule outcome_ok_if, rule run_013_correct [OF K range_sizes(1)]) (simp_all add: mremap_params_def params_shared expected_outcome_def)
  subgoal by (rule outcome_ok_if, rule run_014_correct [OF K range_sizes(1)]) (simp_all add: mremap_params_def params_shared expected_outcome_def)
  subgoal by (rule outcome_ok_in, rule run_015_correct [OF K range_sizes(1)]) (simp_all add: mremap_params_def params_shared expected_outcome_def may_not_move_def)
  subgoal by (rule outcome_ok_if, rule run_016_correct [OF K range_sizes(1)]) (simp_all add: mremap_params_def params_shared expected_outcome_def)
  done

lemma mremap_variant_1:
  fixes K :: "'s kernel"
  assumes K: "conforms_vm K view"
  shows "outcome_ok K p 100 (fst (exec K mremap_mmap_anon_100 p))"
    "outcome_ok K p 101 (fst (exec K mremap_mmap_anon_101 p))"
    "outcome_ok K p 102 (fst (exec K mremap_mmap_anon_102 p))"
    "outcome_ok K p 103 (fst (exec K mremap_mmap_anon_103 p))"
    "outcome_ok K p 104 (fst (exec K mremap_mmap_anon_104 p))"
    "outcome_ok K p 105 (fst (exec K mremap_mmap_anon_105 p))"
    "outcome_ok K p 106 (fst (exec K mremap_mmap_anon_106 p))"
    "outcome_ok K p 107 (fst (exec K mremap_mmap_anon_107 p))"
    "outcome_ok K p 108 (fst (exec K mremap_mmap_anon_108 p))"
    "outcome_ok K p 109 (fst (exec K mremap_mmap_anon_109 p))"
    "outcome_ok K p 110 (fst (exec K mremap_mmap_anon_110 p))"
    "outcome_ok K p 111 (fst (exec K mremap_mmap_anon_111 p))"
    "outcome_ok K p 112 (fst (exec K mremap_mmap_anon_112 p))"
    "outcome_ok K p 113 (fst (exec K mremap_mmap_anon_113 p))"
    "outcome_ok K p 114 (fst (exec K mremap_mmap_anon_114 p))"
    "outcome_ok K p 115 (fst (exec K mremap_mmap_anon_115 p))"
    "outcome_ok K p 116 (fst (exec K mremap_mmap_anon_116 p))"
  unfolding mremap_mmap_anon_100_def mremap_mmap_anon_101_def mremap_mmap_anon_102_def mremap_mmap_anon_103_def mremap_mmap_anon_104_def mremap_mmap_anon_105_def mremap_mmap_anon_106_def mremap_mmap_anon_107_def mremap_mmap_anon_108_def mremap_mmap_anon_109_def mremap_mmap_anon_110_def mremap_mmap_anon_111_def mremap_mmap_anon_112_def mremap_mmap_anon_113_def mremap_mmap_anon_114_def mremap_mmap_anon_115_def mremap_mmap_anon_116_def
  subgoal by (rule outcome_ok_if, rule run_000_correct [OF K range_sizes(1)]) (simp_all add: mremap_params_def params_shared expected_outcome_def)
  subgoal by (rule outcome_ok_if, rule run_001_correct [OF K range_sizes(1)]) (simp_all add: mremap_params_def params_shared expected_outcome_def)
  subgoal by (rule outcome_ok_if, rule run_002_correct [OF K range_sizes(1)]) (simp_all add: mremap_params_def params_shared expected_outcome_def)
  subgoal by (rule outcome_ok_if, rule run_103_correct [OF K range_sizes(1)]) (simp_all add: mremap_params_def params_shared expected_outcome_def)
  subgoal by (rule outcome_ok_if, rule run_004_correct [OF K range_sizes(1)]) (simp_all add: mremap_params_def params_shared expected_outcome_def)
  subgoal by (rule outcome_ok_in, rule run_105_correct [OF K range_sizes(1)]) (simp_all add: mremap_params_def params_shared expected_outcome_def may_not_move_def)
  subgoal by (rule outcome_ok_if, rule run_006_correct [OF K range_sizes(1)]) (simp_all add: mremap_params_def params_shared expected_outcome_def)
  subgoal by (rule outcome_ok_if, rule run_007_correct [OF K range_sizes(1)]) (simp_all add: mremap_params_def params_shared expected_outcome_def)
  subgoal by (rule outcome_ok_if, rule run_008_correct [OF K range_sizes(1)]) (simp_all add: mremap_params_def params_shared expected_outcome_def)
  subgoal by (rule outcome_ok_if, rule run_009_correct [OF K range_sizes(1)]) (simp_all add: mremap_params_def params_shared expected_outcome_def)
  subgoal by (rule outcome_ok_if, rule run_010_correct [OF K range_sizes(1)]) (simp_all add: mremap_params_def params_shared expected_outcome_def)
  subgoal by (rule outcome_ok_if, rule run_011_correct [OF K range_sizes(1)]) (simp_all add: mremap_params_def params_shared expected_outcome_def)
  subgoal by (rule outcome_ok_if, rule run_012_correct [OF K range_sizes(1)]) (simp_all add: mremap_params_def params_shared expected_outcome_def)
  subgoal by (rule outcome_ok_if, rule run_013_correct [OF K range_sizes(1)]) (simp_all add: mremap_params_def params_shared expected_outcome_def)
  subgoal by (rule outcome_ok_if, rule run_014_correct [OF K range_sizes(1)]) (simp_all add: mremap_params_def params_shared expected_outcome_def)
  subgoal by (rule outcome_ok_in, rule run_015_correct [OF K range_sizes(1)]) (simp_all add: mremap_params_def params_shared expected_outcome_def may_not_move_def)
  subgoal by (rule outcome_ok_if, rule run_016_correct [OF K range_sizes(1)]) (simp_all add: mremap_params_def params_shared expected_outcome_def)
  done

lemma mremap_variant_2:
  fixes K :: "'s kernel"
  assumes K: "conforms_vm K view"
  shows "outcome_ok K p 200 (fst (exec K mremap_mmap_anon_200 p))"
    "outcome_ok K p 201 (fst (exec K mremap_mmap_anon_201 p))"
    "outcome_ok K p 202 (fst (exec K mremap_mmap_anon_202 p))"
    "outcome_ok K p 203 (fst (exec K mremap_mmap_anon_203 p))"
    "outcome_ok K p 204 (fst (exec K mremap_mmap_anon_204 p))"
    "outcome_ok K p 205 (fst (exec K mremap_mmap_anon_205 p))"
    "outcome_ok K p 206 (fst (exec K mremap_mmap_anon_206 p))"
    "outcome_ok K p 207 (fst (exec K mremap_mmap_anon_207 p))"
    "outcome_ok K p 208 (fst (exec K mremap_mmap_anon_208 p))"
    "outcome_ok K p 209 (fst (exec K mremap_mmap_anon_209 p))"
    "outcome_ok K p 210 (fst (exec K mremap_mmap_anon_210 p))"
    "outcome_ok K p 211 (fst (exec K mremap_mmap_anon_211 p))"
    "outcome_ok K p 212 (fst (exec K mremap_mmap_anon_212 p))"
    "outcome_ok K p 213 (fst (exec K mremap_mmap_anon_213 p))"
    "outcome_ok K p 214 (fst (exec K mremap_mmap_anon_214 p))"
    "outcome_ok K p 215 (fst (exec K mremap_mmap_anon_215 p))"
    "outcome_ok K p 216 (fst (exec K mremap_mmap_anon_216 p))"
  unfolding mremap_mmap_anon_200_def mremap_mmap_anon_201_def mremap_mmap_anon_202_def mremap_mmap_anon_203_def mremap_mmap_anon_204_def mremap_mmap_anon_205_def mremap_mmap_anon_206_def mremap_mmap_anon_207_def mremap_mmap_anon_208_def mremap_mmap_anon_209_def mremap_mmap_anon_210_def mremap_mmap_anon_211_def mremap_mmap_anon_212_def mremap_mmap_anon_213_def mremap_mmap_anon_214_def mremap_mmap_anon_215_def mremap_mmap_anon_216_def
  subgoal by (rule outcome_ok_if, rule run_000_correct [OF K range_sizes(2)]) (simp_all add: mremap_params_def params_shared expected_outcome_def)
  subgoal by (rule outcome_ok_if, rule run_001_correct [OF K range_sizes(2)]) (simp_all add: mremap_params_def params_shared expected_outcome_def)
  subgoal by (rule outcome_ok_if, rule run_002_correct [OF K range_sizes(2)]) (simp_all add: mremap_params_def params_shared expected_outcome_def)
  subgoal by (rule outcome_ok_if, rule run_003_correct [OF K range_sizes(2)]) (simp_all add: mremap_params_def params_shared expected_outcome_def)
  subgoal by (rule outcome_ok_if, rule run_004_correct [OF K range_sizes(2)]) (simp_all add: mremap_params_def params_shared expected_outcome_def)
  subgoal by (rule outcome_ok_in, rule run_005_correct [OF K range_sizes(2)]) (simp_all add: mremap_params_def params_shared expected_outcome_def may_not_move_def)
  subgoal by (rule outcome_ok_if, rule run_006_correct [OF K range_sizes(2)]) (simp_all add: mremap_params_def params_shared expected_outcome_def)
  subgoal by (rule outcome_ok_if, rule run_007_correct [OF K range_sizes(2)]) (simp_all add: mremap_params_def params_shared expected_outcome_def)
  subgoal by (rule outcome_ok_if, rule run_008_correct [OF K range_sizes(2)]) (simp_all add: mremap_params_def params_shared expected_outcome_def)
  subgoal by (rule outcome_ok_if, rule run_009_correct [OF K range_sizes(2)]) (simp_all add: mremap_params_def params_shared expected_outcome_def)
  subgoal by (rule outcome_ok_if, rule run_010_correct [OF K range_sizes(2)]) (simp_all add: mremap_params_def params_shared expected_outcome_def)
  subgoal by (rule outcome_ok_if, rule run_011_correct [OF K range_sizes(2)]) (simp_all add: mremap_params_def params_shared expected_outcome_def)
  subgoal by (rule outcome_ok_if, rule run_012_correct [OF K range_sizes(2)]) (simp_all add: mremap_params_def params_shared expected_outcome_def)
  subgoal by (rule outcome_ok_if, rule run_013_correct [OF K range_sizes(2)]) (simp_all add: mremap_params_def params_shared expected_outcome_def)
  subgoal by (rule outcome_ok_if, rule run_014_correct [OF K range_sizes(2)]) (simp_all add: mremap_params_def params_shared expected_outcome_def)
  subgoal by (rule outcome_ok_in, rule run_015_correct [OF K range_sizes(2)]) (simp_all add: mremap_params_def params_shared expected_outcome_def may_not_move_def)
  subgoal by (rule outcome_ok_if, rule run_016_correct [OF K range_sizes(2)]) (simp_all add: mremap_params_def params_shared expected_outcome_def)
  done

lemma mremap_variant_3:
  fixes K :: "'s kernel"
  assumes K: "conforms_vm K view"
  shows "outcome_ok K p 300 (fst (exec K mremap_mmap_anon_300 p))"
    "outcome_ok K p 301 (fst (exec K mremap_mmap_anon_301 p))"
    "outcome_ok K p 302 (fst (exec K mremap_mmap_anon_302 p))"
    "outcome_ok K p 303 (fst (exec K mremap_mmap_anon_303 p))"
    "outcome_ok K p 304 (fst (exec K mremap_mmap_anon_304 p))"
    "outcome_ok K p 305 (fst (exec K mremap_mmap_anon_305 p))"
    "outcome_ok K p 306 (fst (exec K mremap_mmap_anon_306 p))"
    "outcome_ok K p 307 (fst (exec K mremap_mmap_anon_307 p))"
    "outcome_ok K p 308 (fst (exec K mremap_mmap_anon_308 p))"
    "outcome_ok K p 309 (fst (exec K mremap_mmap_anon_309 p))"
    "outcome_ok K p 310 (fst (exec K mremap_mmap_anon_310 p))"
    "outcome_ok K p 311 (fst (exec K mremap_mmap_anon_311 p))"
    "outcome_ok K p 312 (fst (exec K mremap_mmap_anon_312 p))"
    "outcome_ok K p 313 (fst (exec K mremap_mmap_anon_313 p))"
    "outcome_ok K p 314 (fst (exec K mremap_mmap_anon_314 p))"
    "outcome_ok K p 315 (fst (exec K mremap_mmap_anon_315 p))"
    "outcome_ok K p 316 (fst (exec K mremap_mmap_anon_316 p))"
  unfolding mremap_mmap_anon_300_def mremap_mmap_anon_301_def mremap_mmap_anon_302_def mremap_mmap_anon_303_def mremap_mmap_anon_304_def mremap_mmap_anon_305_def mremap_mmap_anon_306_def mremap_mmap_anon_307_def mremap_mmap_anon_308_def mremap_mmap_anon_309_def mremap_mmap_anon_310_def mremap_mmap_anon_311_def mremap_mmap_anon_312_def mremap_mmap_anon_313_def mremap_mmap_anon_314_def mremap_mmap_anon_315_def mremap_mmap_anon_316_def
  subgoal by (rule outcome_ok_if, rule run_000_correct [OF K range_sizes(2)]) (simp_all add: mremap_params_def params_shared expected_outcome_def)
  subgoal by (rule outcome_ok_if, rule run_001_correct [OF K range_sizes(2)]) (simp_all add: mremap_params_def params_shared expected_outcome_def)
  subgoal by (rule outcome_ok_if, rule run_002_correct [OF K range_sizes(2)]) (simp_all add: mremap_params_def params_shared expected_outcome_def)
  subgoal by (rule outcome_ok_if, rule run_103_correct [OF K range_sizes(2)]) (simp_all add: mremap_params_def params_shared expected_outcome_def)
  subgoal by (rule outcome_ok_if, rule run_004_correct [OF K range_sizes(2)]) (simp_all add: mremap_params_def params_shared expected_outcome_def)
  subgoal by (rule outcome_ok_in, rule run_105_correct [OF K range_sizes(2)]) (simp_all add: mremap_params_def params_shared expected_outcome_def may_not_move_def)
  subgoal by (rule outcome_ok_if, rule run_006_correct [OF K range_sizes(2)]) (simp_all add: mremap_params_def params_shared expected_outcome_def)
  subgoal by (rule outcome_ok_if, rule run_007_correct [OF K range_sizes(2)]) (simp_all add: mremap_params_def params_shared expected_outcome_def)
  subgoal by (rule outcome_ok_if, rule run_008_correct [OF K range_sizes(2)]) (simp_all add: mremap_params_def params_shared expected_outcome_def)
  subgoal by (rule outcome_ok_if, rule run_009_correct [OF K range_sizes(2)]) (simp_all add: mremap_params_def params_shared expected_outcome_def)
  subgoal by (rule outcome_ok_if, rule run_010_correct [OF K range_sizes(2)]) (simp_all add: mremap_params_def params_shared expected_outcome_def)
  subgoal by (rule outcome_ok_if, rule run_011_correct [OF K range_sizes(2)]) (simp_all add: mremap_params_def params_shared expected_outcome_def)
  subgoal by (rule outcome_ok_if, rule run_012_correct [OF K range_sizes(2)]) (simp_all add: mremap_params_def params_shared expected_outcome_def)
  subgoal by (rule outcome_ok_if, rule run_013_correct [OF K range_sizes(2)]) (simp_all add: mremap_params_def params_shared expected_outcome_def)
  subgoal by (rule outcome_ok_if, rule run_014_correct [OF K range_sizes(2)]) (simp_all add: mremap_params_def params_shared expected_outcome_def)
  subgoal by (rule outcome_ok_in, rule run_015_correct [OF K range_sizes(2)]) (simp_all add: mremap_params_def params_shared expected_outcome_def may_not_move_def)
  subgoal by (rule outcome_ok_if, rule run_016_correct [OF K range_sizes(2)]) (simp_all add: mremap_params_def params_shared expected_outcome_def)
  done

subsection \<open>Output\<close>

lemma silent_parse_loop: "silent (mremap_parse_loop rs a)"
  by (induction rs a rule: mremap_parse_loop.induct) (auto intro: silent_intros silent_strtoul)

lemma silent_format_space: "silent (format_space qs0 qs a)"
  by (induction qs0 qs a rule: format_space.induct) (auto simp: Let_def intro!: silent_intros)

lemma silent_data_check_loop: "silent (data_check_loop n a ex)"
  by (induction n arbitrary: a) simp_all

lemma silent_blocks:
  "(\<And>ps. silent (k ps)) \<Longrightarrow> silent (init_block qs k)"
  "(\<And>a. silent (k1 a)) \<Longrightarrow> silent (remap_block a old new fl k1)"
  "(\<And>a. silent (k1 a)) \<Longrightarrow> silent (remap_fixed_block a old new na k1)"
  "silent (remap_error_block a old new fl na err)"
  "silent k2 \<Longrightarrow> silent (verify_block a len ex k2)"
  "silent (access_block a len)"
  "silent (signal_block sg a)"
  subgoal by (auto simp: init_block_def mremap_mmap_anon_def split: prod.split option.split
      intro!: silent_intros silent_format_space)
  subgoal by (auto simp: remap_block_def intro!: silent_intros)
  subgoal by (auto simp: remap_fixed_block_def intro!: silent_intros)
  subgoal by (auto simp: remap_error_block_def intro!: silent_intros)
  subgoal by (auto simp: verify_block_def mremap_mmap_anon_data_check_def intro!: silent_intros silent_data_check_loop)
  subgoal by (auto simp: access_block_def mremap_mmap_anon_access_check_def intro!: silent_intros)
  subgoal by (auto simp: signal_block_def mremap_mmap_anon_setup_signal_handler_def split: sysres.split intro!: silent_intros)
  done

lemma silent_runs:
  "silent (run_000 sh r)" "silent (run_001 sh r)" "silent (run_002 sh r)" "silent (run_003 sh r)"
  "silent (run_103 sh r)" "silent (run_004 sh r)" "silent (run_005 sh r)" "silent (run_105 sh r)"
  "silent (run_006 sh r)" "silent (run_007 sh r)" "silent (run_008 sh r)" "silent (run_009 sh r)"
  "silent (run_010 sh r)" "silent (run_011 sh r)" "silent (run_012 sh r)" "silent (run_013 sh r)"
  "silent (run_014 sh r)" "silent (run_015 sh r)" "silent (run_016 sh r)"
  unfolding run_000_def run_001_def run_002_def run_003_def run_103_def run_004_def run_005_def run_105_def
    run_006_def run_007_def run_008_def run_009_def run_010_def run_011_def run_012_def run_013_def
    run_014_def run_015_def run_016_def Let_def
  by (intro silent_blocks)+

lemma mremap_runs_silent: "(n, run) \<in> set mremap_runs \<Longrightarrow> silent run"
  unfolding mremap_runs_def
  by (simp only: list.set insert_iff prod.inject empty_iff simp_thms, elim disjE conjE, hypsubst)
    (simp_all add: mremap_mmap_anon_000_def mremap_mmap_anon_001_def mremap_mmap_anon_002_def mremap_mmap_anon_003_def mremap_mmap_anon_004_def mremap_mmap_anon_005_def mremap_mmap_anon_006_def mremap_mmap_anon_007_def mremap_mmap_anon_008_def mremap_mmap_anon_009_def mremap_mmap_anon_010_def mremap_mmap_anon_011_def mremap_mmap_anon_012_def mremap_mmap_anon_013_def mremap_mmap_anon_014_def mremap_mmap_anon_015_def mremap_mmap_anon_016_def mremap_mmap_anon_100_def mremap_mmap_anon_101_def mremap_mmap_anon_102_def mremap_mmap_anon_103_def mremap_mmap_anon_104_def mremap_mmap_anon_105_def mremap_mmap_anon_106_def mremap_mmap_anon_107_def mremap_mmap_anon_108_def mremap_mmap_anon_109_def mremap_mmap_anon_110_def mremap_mmap_anon_111_def mremap_mmap_anon_112_def mremap_mmap_anon_113_def mremap_mmap_anon_114_def mremap_mmap_anon_115_def mremap_mmap_anon_116_def mremap_mmap_anon_200_def mremap_mmap_anon_201_def mremap_mmap_anon_202_def mremap_mmap_anon_203_def mremap_mmap_anon_204_def mremap_mmap_anon_205_def mremap_mmap_anon_206_def mremap_mmap_anon_207_def mremap_mmap_anon_208_def mremap_mmap_anon_209_def mremap_mmap_anon_210_def mremap_mmap_anon_211_def mremap_mmap_anon_212_def mremap_mmap_anon_213_def mremap_mmap_anon_214_def mremap_mmap_anon_215_def mremap_mmap_anon_216_def mremap_mmap_anon_300_def mremap_mmap_anon_301_def mremap_mmap_anon_302_def mremap_mmap_anon_303_def mremap_mmap_anon_304_def mremap_mmap_anon_305_def mremap_mmap_anon_306_def mremap_mmap_anon_307_def mremap_mmap_anon_308_def mremap_mmap_anon_309_def mremap_mmap_anon_310_def mremap_mmap_anon_311_def mremap_mmap_anon_312_def mremap_mmap_anon_313_def mremap_mmap_anon_314_def mremap_mmap_anon_315_def mremap_mmap_anon_316_def silent_runs)

lemma mremap_case_silent:
  "(n, run) \<in> set mremap_runs \<Longrightarrow> silent (run_test_case (mremap_case (n, run)) argv)"
  unfolding run_test_case_def
  by (intro silent_call)
     (simp_all add: mremap_case_def mremap_mmap_anon_parse_argument_def silent_parse_loop mremap_runs_silent TEARDOWN_EMPTY_def)

subsection \<open>The reference kernel grants the mappings\<close>

lemma ref_format_space:
  "params_ok qs \<Longrightarrow> page_aligned b \<Longrightarrow> fits b (params_total qs) \<Longrightarrow>
     \<exists>r p'. exec ref_kernel (format_space qs0 qs b) p = (Returned r, p') \<and> fst r = length qs0 + length qs"
proof (induction qs arbitrary: qs0 b p)
  case (Cons q qs)
  let ?q = "q\<lparr>addr := b\<rparr>" and ?n = "unat (psize q)"
  have al: "page_aligned (b + psize q)" and fits: "fits b ?n" and fits': "fits (b + psize q) (params_total qs)"
    using Cons.prems by (auto simp: fits_def unat_plus_no_wrap intro!: page_aligned_add)
  note IH = Cons.IH [OF _ al fits', of "qs0 @ [?q]"]
  have fl: "param_flags ?q = param_flags q" by (simp add: param_flags_def)
  show ?case
  proof (cases "nopage q = 0")
    case False
    then show ?thesis using IH Cons.prems by (auto simp: exec_simps ref_kernel_def Let_def)
  next
    case True
    define s where "s = (kst p)\<lparr>w_vm := map_range b ?n (\<lambda>_. Some (fresh_cell (prot q) (shared q \<noteq> 0))) (w_vm (kst p))\<rparr>"
    let ?k = "format_space (qs0 @ [?q]) qs (b + psize q)"
    have run: "exec ref_kernel (format_space qs0 (q # qs) b) p =
        exec ref_kernel (if prot q AND PROT_WRITE \<noteq> 0
                then memset ?n b (0x30 + of_nat (length qs0)) ?k else ?k) (p\<lparr>kst := s\<rparr>)"
      using True page_aligned_not_failed [of b] Cons.prems
      by (simp add: exec_simps fl s_def Let_def ref_kernel_def ref_mmap_def)
    show ?thesis
    proof (cases "prot q AND PROT_WRITE = 0")
      case True
      then show ?thesis using IH Cons.prems unfolding run by auto
    next
      case False
      have "writable (w_vm s) b ?n"
        using False by (simp add: writable_def s_def map_range_def access_fault_def fresh_cell_def)
      from exec_memset [OF ref_conforms_vm fits, of "p\<lparr>kst := s\<rparr>" "0x30 + of_nat (length qs0)" ?k] this
      show ?thesis using False IH Cons.prems unfolding run by auto
    qed
  qed
qed simp

lemma ref_space_formatted:
  assumes qs: "params_ok qs" "params_total qs < 2 ^ 40" "qs \<noteq> []" and vm: "w_vm (kst p) = (\<lambda>_. None)"
  shows "space_formatted ref_kernel qs p"
proof -
  define n where "n = (of_nat (params_total qs) :: u64)"
  have un: "unat n = params_total qs" using qs(2) by (simp add: n_def unat_of_nat)
  have ini: "init_params qs 0 = (map (\<lambda>q. q\<lparr>addr := - 1\<rparr>) qs, Some n)"
    using init_params_total [of 0 qs] qs(2) by (simp add: n_def)
  have f: "fits alloc_base (params_total qs)" using qs(2) by (simp add: fits_def alloc_base_def)
  have "free_range (w_vm (kst p)) alloc_base (params_total qs)" by (simp add: vm free_range_def list_all_iff)
  moreover define p1 where "p1 = p\<lparr>kst := (kst p)\<lparr>w_vm :=
      map_range alloc_base (unat n) (\<lambda>_. Some (fresh_cell 0 True)) (w_vm (kst p))\<rparr>\<rparr>"
  ultimately have "exec ref_kernel (mremap_mmap_anon qs) p =
      exec ref_kernel (format_space [] (map (\<lambda>q. q\<lparr>addr := - 1\<rparr>) qs) alloc_base) p1"
    using f page_aligned_not_failed [OF alloc_base_ok(1)]
    by (simp add: mremap_mmap_anon_def ini exec_simps ref_kernel_def ref_mmap_def mmap_fixed_def mmap_shared_def un p1_def)
  with ref_format_space [of "map (\<lambda>q. q\<lparr>addr := - 1\<rparr>) qs" alloc_base "[]" p1] qs(1) f alloc_base_ok(1)
  show ?thesis by (auto simp: space_formatted_def)
qed

lemma ref_case_314:
  assumes "w_vm (kst p) = (\<lambda>_. None)"
  shows "fst (exec ref_kernel mremap_mmap_anon_314 p) = Exited 0"
proof -
  note r = range_okD [OF range_sizes(2)]
  have "space_formatted ref_kernel (params_014 1 MREMAP_RANGE_LARGE_SIZE) p"
    by (rule ref_space_formatted) (use r assms in \<open>simp_all add: params_014_def param_defs\<close>)
  then show ?thesis
    using run_014_correct [OF ref_conforms_vm range_sizes(2), of 1 p] by (simp add: mremap_mmap_anon_314_def)
qed

lemma exec_data_check_exact:
  fixes K :: "'s kernel"
  assumes K: "conforms_vm K view"
  shows "fits a n \<Longrightarrow> (\<And>x. inr a n x \<Longrightarrow> access_fault PROT_READ x (view (kst p)) = None) \<Longrightarrow>
    fst (exec K (data_check_loop n a ex) p) =
      Returned (if \<exists>x. inr a n x \<and> c_val (the (view (kst p) x)) \<noteq> ex then Some ''data check error.'' else None)"
proof (induction n arbitrary: a p)
  case 0
  then show ?case by (simp add: inr_def)
next
  case (Suc n)
  have "access_fault PROT_READ a (view (kst p)) = None" using Suc.prems(2) by (simp add: inr_self)
  from conforms_load [OF K this] obtain s where
    s: "k_load K a (kst p) = Inr (c_val (the (view (kst p) a)), s)" "view s = view (kst p)" by blast
  have "fst (exec K (data_check_loop n (a + 1) ex) (p\<lparr>kst := s\<rparr>)) =
      Returned (if \<exists>x. inr (a + 1) n x \<and> c_val (the (view (kst p) x)) \<noteq> ex then Some ''data check error.'' else None)"
    using Suc.IH [of "a + 1" "p\<lparr>kst := s\<rparr>"] Suc.prems by (simp add: fits_Suc s(2) inr_Suc)
  with s(1) Suc.prems(1) show ?case by (auto simp: inr_Suc)
qed

subsection \<open>Properties\<close>



text \<open>C15. When \<^verbatim>\<open>mremap_mmap_anon\<close> reports all its ranges, they lie one after the other from a page-aligned
  base, free ranges are unmapped, and every used range has its protection, its sharing and, where it is writable,
  its own digit in every byte.\<close>

theorem mremap_mmap_anon_layout:
  fixes K :: "'s kernel"
  assumes K: "conforms_vm K view" and qs: "params_ok qs" "params_total qs < 2 ^ 63" "qs \<noteq> []"
    and run: "exec K (mremap_mmap_anon qs) p = (Returned (length qs, ps), p')"
  shows "\<exists>b. page_aligned b \<and> b \<noteq> 0 \<and> fits b (params_total qs) \<and> ps = placed b qs \<and> laid_out 0 b qs (view (kst p'))"
  using exec_mremap_mmap_anon [OF K qs, of p] run by auto

theorem mremap_mmap_anon_layout_witness:
  "\<exists>b ps p'. exec ref_kernel (mremap_mmap_anon (params_006 0 MREMAP_RANGE_SIZE)) init_process = (Returned (3, ps), p') \<and>
     ps = placed b (params_006 0 MREMAP_RANGE_SIZE) \<and> laid_out 0 b (params_006 0 MREMAP_RANGE_SIZE) (w_vm (kst p'))"
proof -
  let ?qs = "params_006 0 MREMAP_RANGE_SIZE"
  note r = range_okD [OF range_sizes(1)]
  have qs: "params_ok ?qs" "params_total ?qs < 2 ^ 63" "?qs \<noteq> []" "length ?qs = 3"
    using r by (simp_all add: params_006_def param_defs)
  have "space_formatted ref_kernel ?qs init_process"
    by (rule ref_space_formatted) (use r in \<open>simp_all add: params_006_def param_defs init_process_def init_world_def\<close>)
  then obtain ps p' where run: "exec ref_kernel (mremap_mmap_anon ?qs) init_process = (Returned (length ?qs, ps), p')"
    by (cases "exec ref_kernel (mremap_mmap_anon ?qs) init_process") (auto simp: space_formatted_def split: outcome.splits)
  show ?thesis
    using mremap_mmap_anon_layout [OF ref_conforms_vm qs(1-3) run] run qs(4) by auto
qed

text \<open>C18. \<^verbatim>\<open>mremap_mmap_anon_data_check\<close> is exact: on a readable range it returns no message exactly when
  every byte has the expected value.\<close>

theorem data_check_exact:
  fixes K :: "'s kernel"
  assumes "conforms_vm K view" "fits a (unat len)"
    and "\<And>x. inr a (unat len) x \<Longrightarrow> access_fault PROT_READ x (view (kst p)) = None"
  shows "fst (exec K (mremap_mmap_anon_data_check a len ex) p) =
      Returned (if \<exists>x. inr a (unat len) x \<and> c_val (the (view (kst p) x)) \<noteq> ex then Some ''data check error.'' else None)"
  using exec_data_check_exact [OF assms(1,2,3)] by (simp add: mremap_mmap_anon_data_check_def)

theorem data_check_exact_witness:
  "let p = init_process\<lparr>kst := init_world\<lparr>w_vm := (\<lambda>x. Some (fresh_cell PROT_READ False))\<rparr>\<rparr> in
   fst (exec ref_kernel (mremap_mmap_anon_data_check 4096 2 0) p) = Returned None \<and>
   fst (exec ref_kernel (mremap_mmap_anon_data_check 4096 2 1) p) = Returned (Some ''data check error.'')"
proof -
  define p where "p = init_process\<lparr>kst := init_world\<lparr>w_vm := (\<lambda>x. Some (fresh_cell PROT_READ False))\<rparr>\<rparr>"
  have a: "access_fault PROT_READ x (w_vm (kst p)) = None" "c_val (the (w_vm (kst p) x)) = 0" for x
    by (simp_all add: p_def access_fault_def fresh_cell_def)
  have i: "inr 4096 (unat (2 :: u64)) 4096" by (simp add: inr_def)
  show ?thesis
    using data_check_exact [OF ref_conforms_vm, of 4096 2 p 0] data_check_exact [OF ref_conforms_vm, of 4096 2 p 1] a i
    unfolding p_def [symmetric] Let_def by (auto simp: fits_def)
qed



end
