(* ===== verification/Cred_Suites.thy ===== *)
theory Cred_Suites
  imports Test_Mck
begin

text \<open>
  The suites \<^verbatim>\<open>getuid\<close>, \<^verbatim>\<open>geteuid\<close>, \<^verbatim>\<open>getresuid\<close>, \<^verbatim>\<open>setuid\<close>,
  \<^verbatim>\<open>setreuid\<close>, \<^verbatim>\<open>setresuid\<close>, \<^verbatim>\<open>setfsuid\<close> and their group counterparts: argument
  parsing and the test body of each. The bodies for users and groups differ in the calls and
  messages only; the locale \<^verbatim>\<open>id_family\<close> states what they rely on of the kernel's machine, and is
  interpreted for user and for group identifiers.
\<close>

subsection \<open>Arguments\<close>

text \<open>The argument structures of the suites with one, two and three identifiers.\<close>

record id1_args =
  arg_id :: u32
  arg_argv :: "string list"

record id2_args =
  arg_rid :: u32
  arg_eid :: u32
  arg_argv2 :: "string list"

record id3_args =
  arg_rid3 :: u32
  arg_eid3 :: u32
  arg_sid3 :: u32
  arg_argv3 :: "string list"

text \<open>The loop over \<^verbatim>\<open>getopt\<close> with a \<^verbatim>\<open>switch\<close> whose default returns \<^verbatim>\<open>NULL\<close>.\<close>

fun opt_switch :: "(char \<Rightarrow> u32 \<Rightarrow> 'a \<Rightarrow> 'a option) \<Rightarrow> optres list \<Rightarrow> 'a \<Rightarrow> 'a option" where
  "opt_switch sw [] a = Some a"
| "opt_switch sw ((opt, optarg) # rs) a =
     (case sw opt (word_of_int (atoi (case optarg of None \<Rightarrow> [] | Some s \<Rightarrow> s))) a of
        None \<Rightarrow> None
      | Some a' \<Rightarrow> opt_switch sw rs a')"

text \<open>The warning for a missing parameter; parsing goes on after it.\<close>

definition warn_mandatory :: "u32 \<Rightarrow> string \<Rightarrow> 'a prog \<Rightarrow> 'a prog" where
  "warn_mandatory x msg k = (if x = - 1 \<or> x = 0 then Fprintf Stderr msg [] k else k)"

text \<open>A \<^verbatim>\<open>printf\<close> whose last argument is \<^verbatim>\<open>errno\<close>, and \<^verbatim>\<open>%d\<close> of an identifier.\<close>

definition printf_errno :: "string \<Rightarrow> fmtarg list \<Rightarrow> 'a prog \<Rightarrow> 'a prog" where
  "printf_errno fmt args k = Errno (\<lambda>e. Printf fmt (args @ [FInt e]) k)"

definition FId :: "u32 \<Rightarrow> fmtarg" where
  "FId x = FInt (sint x)"

text \<open>\<^verbatim>\<open>getuid()\<close> and the like return an identifier.\<close>

definition sys_id :: "cred_call \<Rightarrow> (u32 \<Rightarrow> 'a prog) \<Rightarrow> 'a prog" where
  "sys_id c k = sys_int (Cred c) (\<lambda>v. k (word_of_int v))"

definition oval_id :: "oval \<Rightarrow> u32" where
  "oval_id x = (case x of OInt i \<Rightarrow> word_of_int i | OStr _ \<Rightarrow> 0)"

subsection \<open>User identifiers\<close>

type_synonym getuid_args = id1_args

definition getuid_switch :: "char \<Rightarrow> u32 \<Rightarrow> getuid_args \<Rightarrow> getuid_args option" where
  "getuid_switch opt v param = (if opt = CHR ''u'' then Some (param\<lparr>arg_id := v\<rparr>) else None)"

definition getuid_parse_args :: "string list \<Rightarrow> getuid_args option prog" where
  "getuid_parse_args argv =
     (case getopt_all None ''u:'' argv of (opts, argv', optind) \<Rightarrow>
        case opt_switch getuid_switch opts \<lparr>arg_id = 0, arg_argv = []\<rparr> of
          None \<Rightarrow> Return None
        | Some param \<Rightarrow>
            warn_mandatory (arg_id param) ''mandatory parameter '-u <uid>'\<newline>'' (
            Return (Some (param\<lparr>arg_argv := drop optind argv'\<rparr>))))"

definition getuid_run :: "int \<Rightarrow> getuid_args option \<Rightarrow> verdict prog" where
  "getuid_run tc_num tc_arg =
     (case tc_arg of
        None \<Rightarrow> Return (Some ''invalid arguement.'')
      | Some args \<Rightarrow>
          tp_assert (arg_id args \<noteq> 0) ''invalid uid.'' (
          sys_id Getuid (\<lambda>get_id.
          Printf ''getuid() = %d\<newline>'' [FId get_id] (
          sys_int (Cred (Setuid (arg_id args))) (\<lambda>status.
          printf_errno ''setuid(%d) = %d, errno = %d\<newline>'' [FId (arg_id args), FInt status] (
          tp_assert (status \<noteq> - 1) ''setuid() failed.'' (
          sys_id Getuid (\<lambda>get_id.
          Printf ''getuid() = %d\<newline>'' [FId get_id] (
          tp_assert (arg_id args = get_id) ''getuid() failed.'' (
          Return None))))))))))"

definition getuid_case :: "getuid_args option test_case" where
  "getuid_case =
     \<lparr>test_suite = ''getuid'', num = 0, tc_setup = (\<lambda>tc_num tc_argv. getuid_parse_args tc_argv),
      tc_run = getuid_run, tc_teardown = TEARDOWN_EMPTY\<rparr>"

type_synonym geteuid_args = id1_args

definition geteuid_switch :: "char \<Rightarrow> u32 \<Rightarrow> geteuid_args \<Rightarrow> geteuid_args option" where
  "geteuid_switch opt v param = (if opt = CHR ''e'' then Some (param\<lparr>arg_id := v\<rparr>) else None)"

definition geteuid_parse_args :: "string list \<Rightarrow> geteuid_args option prog" where
  "geteuid_parse_args argv =
     (case getopt_all None ''e:'' argv of (opts, argv', optind) \<Rightarrow>
        case opt_switch geteuid_switch opts \<lparr>arg_id = 0, arg_argv = []\<rparr> of
          None \<Rightarrow> Return None
        | Some param \<Rightarrow>
            warn_mandatory (arg_id param) ''mandatory parameter '-e <euid>'\<newline>'' (
            Return (Some (param\<lparr>arg_argv := drop optind argv'\<rparr>))))"

definition geteuid_run :: "int \<Rightarrow> geteuid_args option \<Rightarrow> verdict prog" where
  "geteuid_run tc_num tc_arg =
     (case tc_arg of
        None \<Rightarrow> Return (Some ''invalid arguement.'')
      | Some args \<Rightarrow>
          tp_assert (arg_id args \<noteq> 0) ''invalid euid.'' (
          sys_id Geteuid (\<lambda>get_eid.
          Printf ''geteuid() = %d\<newline>'' [FId get_eid] (
          sys_int (Cred (Setreuid (arg_id args) (arg_id args))) (\<lambda>status.
          printf_errno ''setreuid(%d, %d) = %d, errno = %d\<newline>'' [FId (arg_id args), FId (arg_id args), FInt status] (
          tp_assert (status \<noteq> - 1) ''setreuid() failed.'' (
          sys_id Geteuid (\<lambda>get_eid.
          Printf ''geteuid() = %d\<newline>'' [FId get_eid] (
          tp_assert (arg_id args = get_eid) ''geteuid() failed.'' (
          Return None))))))))))"

definition geteuid_case :: "geteuid_args option test_case" where
  "geteuid_case =
     \<lparr>test_suite = ''geteuid'', num = 0, tc_setup = (\<lambda>tc_num tc_argv. geteuid_parse_args tc_argv),
      tc_run = geteuid_run, tc_teardown = TEARDOWN_EMPTY\<rparr>"

type_synonym setuid_args = id1_args

definition setuid_switch :: "char \<Rightarrow> u32 \<Rightarrow> setuid_args \<Rightarrow> setuid_args option" where
  "setuid_switch opt v param = (if opt = CHR ''u'' then Some (param\<lparr>arg_id := v\<rparr>) else None)"

definition setuid_parse_args :: "string list \<Rightarrow> setuid_args option prog" where
  "setuid_parse_args argv =
     (case getopt_all None ''u:'' argv of (opts, argv', optind) \<Rightarrow>
        case opt_switch setuid_switch opts \<lparr>arg_id = 0, arg_argv = []\<rparr> of
          None \<Rightarrow> Return None
        | Some param \<Rightarrow>
            warn_mandatory (arg_id param) ''mandatory parameter '-u <uid>'\<newline>'' (
            Return (Some (param\<lparr>arg_argv := drop optind argv'\<rparr>))))"

definition setuid_run :: "int \<Rightarrow> setuid_args option \<Rightarrow> verdict prog" where
  "setuid_run tc_num tc_arg =
     (case tc_arg of
        None \<Rightarrow> Return (Some ''invalid arguement.'')
      | Some args \<Rightarrow>
          tp_assert (arg_id args \<noteq> 0) ''invalid uid.'' (
          sys_int (Cred (Setuid (arg_id args))) (\<lambda>status.
          printf_errno ''setuid(%d) = %d, errno = %d\<newline>'' [FId (arg_id args), FInt status] (
          tp_assert (status \<noteq> - 1) ''setuid() failed.'' (
          sys_id Getuid (\<lambda>get_id.
          Printf ''getuid() = %d\<newline>'' [FId get_id] (
          tp_assert (arg_id args = get_id) ''setuid() failed.'' (
          Return None))))))))"

definition setuid_case :: "setuid_args option test_case" where
  "setuid_case =
     \<lparr>test_suite = ''setuid'', num = 0, tc_setup = (\<lambda>tc_num tc_argv. setuid_parse_args tc_argv),
      tc_run = setuid_run, tc_teardown = TEARDOWN_EMPTY\<rparr>"

type_synonym setreuid_args = id2_args

definition setreuid_switch :: "char \<Rightarrow> u32 \<Rightarrow> setreuid_args \<Rightarrow> setreuid_args option" where
  "setreuid_switch opt v param =
     (if opt = CHR ''r'' then Some (param\<lparr>arg_rid := v\<rparr>)
      else if opt = CHR ''e'' then Some (param\<lparr>arg_eid := v\<rparr>)
      else None)"

definition setreuid_parse_args :: "string list \<Rightarrow> setreuid_args option prog" where
  "setreuid_parse_args argv =
     (case getopt_all None ''r:e:'' argv of (opts, argv', optind) \<Rightarrow>
        case opt_switch setreuid_switch opts \<lparr>arg_rid = 0, arg_eid = 0, arg_argv2 = []\<rparr> of
          None \<Rightarrow> Return None
        | Some param \<Rightarrow>
            warn_mandatory (arg_rid param) ''mandatory parameter '-r <ruid>'\<newline>'' (
            warn_mandatory (arg_eid param) ''mandatory parameter '-e <euid>'\<newline>'' (
            Return (Some (param\<lparr>arg_argv2 := drop optind argv'\<rparr>)))))"

definition setreuid_run :: "int \<Rightarrow> setreuid_args option \<Rightarrow> verdict prog" where
  "setreuid_run tc_num tc_arg =
     (case tc_arg of
        None \<Rightarrow> Return (Some ''invalid arguement.'')
      | Some args \<Rightarrow>
          tp_assert (arg_rid args \<noteq> 0) ''invalid ruid.'' (
          tp_assert (arg_eid args \<noteq> 0) ''invalid euid.'' (
          sys_int (Cred (Setreuid (arg_rid args) (arg_eid args))) (\<lambda>status.
          printf_errno ''setreuid(%d, %d) = %d, errno = %d\<newline>'' [FId (arg_rid args), FId (arg_eid args), FInt status] (
          tp_assert (status \<noteq> - 1) ''setreuid() failed.'' (
          sys_id Getuid (\<lambda>get_rid.
          Printf ''getuid() = %d\<newline>'' [FId get_rid] (
          tp_assert (arg_rid args = get_rid) ''setreuid() failed.'' (
          sys_id Geteuid (\<lambda>get_eid.
          Printf ''geteuid() = %d\<newline>'' [FId get_eid] (
          tp_assert (arg_eid args = get_eid) ''setreuid() failed.'' (
          Return None))))))))))))"

definition setreuid_case :: "setreuid_args option test_case" where
  "setreuid_case =
     \<lparr>test_suite = ''setreuid'', num = 0, tc_setup = (\<lambda>tc_num tc_argv. setreuid_parse_args tc_argv),
      tc_run = setreuid_run, tc_teardown = TEARDOWN_EMPTY\<rparr>"

text \<open>
  \<^verbatim>\<open>getresuid(&r, &e, &s)\<close> and \<^verbatim>\<open>getresgid\<close>: the three variables, which keep their values
  when the call fails.
\<close>

definition getres_call :: "cred_call \<Rightarrow> u32 \<times> u32 \<times> u32 \<Rightarrow> (int \<Rightarrow> u32 \<times> u32 \<times> u32 \<Rightarrow> 'a prog) \<Rightarrow> 'a prog" where
  "getres_call c old k =
     sys_out (Cred c) [OInt (uint (fst old)), OInt (uint (fst (snd old))), OInt (uint (snd (snd old)))]
       (\<lambda>v os. k v (oval_id (os ! 0), oval_id (os ! 1), oval_id (os ! 2)))"

type_synonym setresuid_args = id3_args

definition setresuid_switch :: "char \<Rightarrow> u32 \<Rightarrow> setresuid_args \<Rightarrow> setresuid_args option" where
  "setresuid_switch opt v param =
     (if opt = CHR ''r'' then Some (param\<lparr>arg_rid3 := v\<rparr>)
      else if opt = CHR ''e'' then Some (param\<lparr>arg_eid3 := v\<rparr>)
      else if opt = CHR ''s'' then Some (param\<lparr>arg_sid3 := v\<rparr>)
      else None)"

definition setresuid_parse_args :: "string list \<Rightarrow> setresuid_args option prog" where
  "setresuid_parse_args argv =
     (case getopt_all None ''r:e:s:'' argv of (opts, argv', optind) \<Rightarrow>
        case opt_switch setresuid_switch opts \<lparr>arg_rid3 = 0, arg_eid3 = 0, arg_sid3 = 0, arg_argv3 = []\<rparr> of
          None \<Rightarrow> Return None
        | Some param \<Rightarrow>
            warn_mandatory (arg_rid3 param) ''mandatory parameter '-r <ruid>'\<newline>'' (
            warn_mandatory (arg_eid3 param) ''mandatory parameter '-e <euid>'\<newline>'' (
            warn_mandatory (arg_sid3 param) ''mandatory parameter '-s <suid>'\<newline>'' (
            Return (Some (param\<lparr>arg_argv3 := drop optind argv'\<rparr>))))))"

definition setresuid_run :: "int \<Rightarrow> setresuid_args option \<Rightarrow> verdict prog" where
  "setresuid_run tc_num tc_arg =
     (case tc_arg of
        None \<Rightarrow> Return (Some ''invalid arguement.'')
      | Some args \<Rightarrow>
          tp_assert (arg_rid3 args \<noteq> 0) ''invalid ruid.'' (
          tp_assert (arg_eid3 args \<noteq> 0) ''invalid euid.'' (
          tp_assert (arg_sid3 args \<noteq> 0) ''invalid suid.'' (
          sys_int (Cred (Setresuid (arg_rid3 args) (arg_eid3 args) (arg_sid3 args))) (\<lambda>status.
          printf_errno ''setresuid(%d, %d, %d) = %d, errno = %d\<newline>''
            [FId (arg_rid3 args), FId (arg_eid3 args), FId (arg_sid3 args), FInt status] (
          tp_assert (status \<noteq> - 1) ''setresuid() failed.'' (
          getres_call Getresuid (0, 0, 0) (\<lambda>status (get_rid, get_eid, get_sid).
          printf_errno ''getresuid(%d, %d, %d) = %d, errno = %d\<newline>''
            [FId get_rid, FId get_eid, FId get_sid, FInt status] (
          tp_assert (status \<noteq> - 1) ''getresuid() failed.'' (
          tp_assert (arg_rid3 args = get_rid) ''setresuid() failed.'' (
          tp_assert (arg_eid3 args = get_eid) ''setresuid() failed.'' (
          tp_assert (arg_sid3 args = get_sid) ''setresuid() failed.'' (
          Return None)))))))))))))"

definition setresuid_case :: "setresuid_args option test_case" where
  "setresuid_case =
     \<lparr>test_suite = ''setresuid'', num = 0, tc_setup = (\<lambda>tc_num tc_argv. setresuid_parse_args tc_argv),
      tc_run = setresuid_run, tc_teardown = TEARDOWN_EMPTY\<rparr>"

type_synonym getresuid_args = id3_args

definition getresuid_switch :: "char \<Rightarrow> u32 \<Rightarrow> getresuid_args \<Rightarrow> getresuid_args option" where
  "getresuid_switch opt v param =
     (if opt = CHR ''r'' then Some (param\<lparr>arg_rid3 := v\<rparr>)
      else if opt = CHR ''e'' then Some (param\<lparr>arg_eid3 := v\<rparr>)
      else if opt = CHR ''s'' then Some (param\<lparr>arg_sid3 := v\<rparr>)
      else None)"

definition getresuid_parse_args :: "string list \<Rightarrow> getresuid_args option prog" where
  "getresuid_parse_args argv =
     (case getopt_all None ''r:e:s:'' argv of (opts, argv', optind) \<Rightarrow>
        case opt_switch getresuid_switch opts \<lparr>arg_rid3 = 0, arg_eid3 = 0, arg_sid3 = 0, arg_argv3 = []\<rparr> of
          None \<Rightarrow> Return None
        | Some param \<Rightarrow>
            warn_mandatory (arg_rid3 param) ''mandatory parameter '-r <ruid>'\<newline>'' (
            warn_mandatory (arg_eid3 param) ''mandatory parameter '-e <euid>'\<newline>'' (
            warn_mandatory (arg_sid3 param) ''mandatory parameter '-s <suid>'\<newline>'' (
            Return (Some (param\<lparr>arg_argv3 := drop optind argv'\<rparr>))))))"

definition getresuid_run :: "int \<Rightarrow> getresuid_args option \<Rightarrow> verdict prog" where
  "getresuid_run tc_num tc_arg =
     (case tc_arg of
        None \<Rightarrow> Return (Some ''invalid arguement.'')
      | Some args \<Rightarrow>
          tp_assert (arg_rid3 args \<noteq> 0) ''invalid ruid.'' (
          tp_assert (arg_eid3 args \<noteq> 0) ''invalid euid.'' (
          tp_assert (arg_sid3 args \<noteq> 0) ''invalid suid.'' (
          getres_call Getresuid (0, 0, 0) (\<lambda>status (get_rid, get_eid, get_sid).
          printf_errno ''getresuid(%d, %d, %d) = %d, errno = %d\<newline>''
            [FId get_rid, FId get_eid, FId get_sid, FInt status] (
          tp_assert (status \<noteq> - 1) ''getresuid() failed.'' (
          sys_int (Cred (Setresuid (arg_rid3 args) (arg_eid3 args) (arg_sid3 args))) (\<lambda>status.
          printf_errno ''setresuid(%d, %d, %d) = %d, errno = %d\<newline>''
            [FId (arg_rid3 args), FId (arg_eid3 args), FId (arg_sid3 args), FInt status] (
          tp_assert (status \<noteq> - 1) ''setresuid() failed.'' (
          getres_call Getresuid (get_rid, get_eid, get_sid) (\<lambda>status (get_rid, get_eid, get_sid).
          printf_errno ''getresuid(%d, %d, %d) = %d, errno = %d\<newline>''
            [FId get_rid, FId get_eid, FId get_sid, FInt status] (
          tp_assert (status \<noteq> - 1) ''getresuid() failed.'' (
          tp_assert (arg_rid3 args = get_rid) ''setresuid() failed.'' (
          tp_assert (arg_eid3 args = get_eid) ''setresuid() failed.'' (
          tp_assert (arg_sid3 args = get_sid) ''setresuid() failed.'' (
          Return None))))))))))))))))"

definition getresuid_case :: "getresuid_args option test_case" where
  "getresuid_case =
     \<lparr>test_suite = ''getresuid'', num = 0, tc_setup = (\<lambda>tc_num tc_argv. getresuid_parse_args tc_argv),
      tc_run = getresuid_run, tc_teardown = TEARDOWN_EMPTY\<rparr>"

subsection \<open>Group identifiers\<close>

type_synonym getgid_args = id1_args

definition getgid_switch :: "char \<Rightarrow> u32 \<Rightarrow> getgid_args \<Rightarrow> getgid_args option" where
  "getgid_switch opt v param = (if opt = CHR ''g'' then Some (param\<lparr>arg_id := v\<rparr>) else None)"

definition getgid_parse_args :: "string list \<Rightarrow> getgid_args option prog" where
  "getgid_parse_args argv =
     (case getopt_all None ''g:'' argv of (opts, argv', optind) \<Rightarrow>
        case opt_switch getgid_switch opts \<lparr>arg_id = 0, arg_argv = []\<rparr> of
          None \<Rightarrow> Return None
        | Some param \<Rightarrow>
            warn_mandatory (arg_id param) ''mandatory parameter '-g <gid>'\<newline>'' (
            Return (Some (param\<lparr>arg_argv := drop optind argv'\<rparr>))))"

definition getgid_run :: "int \<Rightarrow> getgid_args option \<Rightarrow> verdict prog" where
  "getgid_run tc_num tc_arg =
     (case tc_arg of
        None \<Rightarrow> Return (Some ''invalid arguement.'')
      | Some args \<Rightarrow>
          tp_assert (arg_id args \<noteq> 0) ''invalid gid.'' (
          sys_id Getgid (\<lambda>get_id.
          Printf ''getgid() = %d\<newline>'' [FId get_id] (
          sys_int (Cred (Setgid (arg_id args))) (\<lambda>status.
          printf_errno ''setgid(%d) = %d, errno = %d\<newline>'' [FId (arg_id args), FInt status] (
          tp_assert (status \<noteq> - 1) ''setgid() failed.'' (
          sys_id Getgid (\<lambda>get_id.
          Printf ''getgid() = %d\<newline>'' [FId get_id] (
          tp_assert (arg_id args = get_id) ''getgid() failed.'' (
          Return None))))))))))"

definition getgid_case :: "getgid_args option test_case" where
  "getgid_case =
     \<lparr>test_suite = ''getgid'', num = 0, tc_setup = (\<lambda>tc_num tc_argv. getgid_parse_args tc_argv),
      tc_run = getgid_run, tc_teardown = TEARDOWN_EMPTY\<rparr>"

type_synonym getegid_args = id1_args

definition getegid_switch :: "char \<Rightarrow> u32 \<Rightarrow> getegid_args \<Rightarrow> getegid_args option" where
  "getegid_switch opt v param = (if opt = CHR ''e'' then Some (param\<lparr>arg_id := v\<rparr>) else None)"

definition getegid_parse_args :: "string list \<Rightarrow> getegid_args option prog" where
  "getegid_parse_args argv =
     (case getopt_all None ''e:'' argv of (opts, argv', optind) \<Rightarrow>
        case opt_switch getegid_switch opts \<lparr>arg_id = 0, arg_argv = []\<rparr> of
          None \<Rightarrow> Return None
        | Some param \<Rightarrow>
            warn_mandatory (arg_id param) ''mandatory parameter '-e <egid>'\<newline>'' (
            Return (Some (param\<lparr>arg_argv := drop optind argv'\<rparr>))))"

definition getegid_run :: "int \<Rightarrow> getegid_args option \<Rightarrow> verdict prog" where
  "getegid_run tc_num tc_arg =
     (case tc_arg of
        None \<Rightarrow> Return (Some ''invalid arguement.'')
      | Some args \<Rightarrow>
          tp_assert (arg_id args \<noteq> 0) ''invalid egid.'' (
          sys_id Getegid (\<lambda>get_eid.
          Printf ''getegid() = %d\<newline>'' [FId get_eid] (
          sys_int (Cred (Setregid (arg_id args) (arg_id args))) (\<lambda>status.
          printf_errno ''setregid(%d, %d) = %d, errno = %d\<newline>'' [FId (arg_id args), FId (arg_id args), FInt status] (
          tp_assert (status \<noteq> - 1) ''setregid() failed.'' (
          sys_id Getegid (\<lambda>get_eid.
          Printf ''getegid() = %d\<newline>'' [FId get_eid] (
          tp_assert (arg_id args = get_eid) ''getegid() failed.'' (
          Return None))))))))))"

definition getegid_case :: "getegid_args option test_case" where
  "getegid_case =
     \<lparr>test_suite = ''getegid'', num = 0, tc_setup = (\<lambda>tc_num tc_argv. getegid_parse_args tc_argv),
      tc_run = getegid_run, tc_teardown = TEARDOWN_EMPTY\<rparr>"

type_synonym setgid_args = id1_args

definition setgid_switch :: "char \<Rightarrow> u32 \<Rightarrow> setgid_args \<Rightarrow> setgid_args option" where
  "setgid_switch opt v param = (if opt = CHR ''g'' then Some (param\<lparr>arg_id := v\<rparr>) else None)"

definition setgid_parse_args :: "string list \<Rightarrow> setgid_args option prog" where
  "setgid_parse_args argv =
     (case getopt_all None ''g:'' argv of (opts, argv', optind) \<Rightarrow>
        case opt_switch setgid_switch opts \<lparr>arg_id = 0, arg_argv = []\<rparr> of
          None \<Rightarrow> Return None
        | Some param \<Rightarrow>
            warn_mandatory (arg_id param) ''mandatory parameter '-g <gid>'\<newline>'' (
            Return (Some (param\<lparr>arg_argv := drop optind argv'\<rparr>))))"

definition setgid_run :: "int \<Rightarrow> setgid_args option \<Rightarrow> verdict prog" where
  "setgid_run tc_num tc_arg =
     (case tc_arg of
        None \<Rightarrow> Return (Some ''invalid arguement.'')
      | Some args \<Rightarrow>
          tp_assert (arg_id args \<noteq> 0) ''invalid gid.'' (
          sys_int (Cred (Setgid (arg_id args))) (\<lambda>status.
          printf_errno ''setgid(%d) = %d, errno = %d\<newline>'' [FId (arg_id args), FInt status] (
          tp_assert (status \<noteq> - 1) ''setgid() failed.'' (
          sys_id Getgid (\<lambda>get_id.
          Printf ''getgid() = %d\<newline>'' [FId get_id] (
          tp_assert (arg_id args = get_id) ''setgid() failed.'' (
          Return None))))))))"

definition setgid_case :: "setgid_args option test_case" where
  "setgid_case =
     \<lparr>test_suite = ''setgid'', num = 0, tc_setup = (\<lambda>tc_num tc_argv. setgid_parse_args tc_argv),
      tc_run = setgid_run, tc_teardown = TEARDOWN_EMPTY\<rparr>"

type_synonym setregid_args = id2_args

definition setregid_switch :: "char \<Rightarrow> u32 \<Rightarrow> setregid_args \<Rightarrow> setregid_args option" where
  "setregid_switch opt v param =
     (if opt = CHR ''r'' then Some (param\<lparr>arg_rid := v\<rparr>)
      else if opt = CHR ''e'' then Some (param\<lparr>arg_eid := v\<rparr>)
      else None)"

definition setregid_parse_args :: "string list \<Rightarrow> setregid_args option prog" where
  "setregid_parse_args argv =
     (case getopt_all None ''r:e:'' argv of (opts, argv', optind) \<Rightarrow>
        case opt_switch setregid_switch opts \<lparr>arg_rid = 0, arg_eid = 0, arg_argv2 = []\<rparr> of
          None \<Rightarrow> Return None
        | Some param \<Rightarrow>
            warn_mandatory (arg_rid param) ''mandatory parameter '-r <rgid>'\<newline>'' (
            warn_mandatory (arg_eid param) ''mandatory parameter '-e <egid>'\<newline>'' (
            Return (Some (param\<lparr>arg_argv2 := drop optind argv'\<rparr>)))))"

definition setregid_run :: "int \<Rightarrow> setregid_args option \<Rightarrow> verdict prog" where
  "setregid_run tc_num tc_arg =
     (case tc_arg of
        None \<Rightarrow> Return (Some ''invalid arguement.'')
      | Some args \<Rightarrow>
          tp_assert (arg_rid args \<noteq> 0) ''invalid rgid.'' (
          tp_assert (arg_eid args \<noteq> 0) ''invalid egid.'' (
          sys_int (Cred (Setregid (arg_rid args) (arg_eid args))) (\<lambda>status.
          printf_errno ''setregid(%d, %d) = %d, errno = %d\<newline>'' [FId (arg_rid args), FId (arg_eid args), FInt status] (
          tp_assert (status \<noteq> - 1) ''setregid() failed.'' (
          sys_id Getgid (\<lambda>get_rid.
          Printf ''getgid() = %d\<newline>'' [FId get_rid] (
          tp_assert (arg_rid args = get_rid) ''setregid() failed.'' (
          sys_id Getegid (\<lambda>get_eid.
          Printf ''getegid() = %d\<newline>'' [FId get_eid] (
          tp_assert (arg_eid args = get_eid) ''setregid() failed.'' (
          Return None))))))))))))"

definition setregid_case :: "setregid_args option test_case" where
  "setregid_case =
     \<lparr>test_suite = ''setregid'', num = 0, tc_setup = (\<lambda>tc_num tc_argv. setregid_parse_args tc_argv),
      tc_run = setregid_run, tc_teardown = TEARDOWN_EMPTY\<rparr>"

type_synonym setresgid_args = id3_args

definition setresgid_switch :: "char \<Rightarrow> u32 \<Rightarrow> setresgid_args \<Rightarrow> setresgid_args option" where
  "setresgid_switch opt v param =
     (if opt = CHR ''r'' then Some (param\<lparr>arg_rid3 := v\<rparr>)
      else if opt = CHR ''e'' then Some (param\<lparr>arg_eid3 := v\<rparr>)
      else if opt = CHR ''s'' then Some (param\<lparr>arg_sid3 := v\<rparr>)
      else None)"

definition setresgid_parse_args :: "string list \<Rightarrow> setresgid_args option prog" where
  "setresgid_parse_args argv =
     (case getopt_all None ''r:e:s:'' argv of (opts, argv', optind) \<Rightarrow>
        case opt_switch setresgid_switch opts \<lparr>arg_rid3 = 0, arg_eid3 = 0, arg_sid3 = 0, arg_argv3 = []\<rparr> of
          None \<Rightarrow> Return None
        | Some param \<Rightarrow>
            warn_mandatory (arg_rid3 param) ''mandatory parameter '-r <rgid>'\<newline>'' (
            warn_mandatory (arg_eid3 param) ''mandatory parameter '-e <egid>'\<newline>'' (
            warn_mandatory (arg_sid3 param) ''mandatory parameter '-s <sgid>'\<newline>'' (
            Return (Some (param\<lparr>arg_argv3 := drop optind argv'\<rparr>))))))"

definition setresgid_run :: "int \<Rightarrow> setresgid_args option \<Rightarrow> verdict prog" where
  "setresgid_run tc_num tc_arg =
     (case tc_arg of
        None \<Rightarrow> Return (Some ''invalid arguement.'')
      | Some args \<Rightarrow>
          tp_assert (arg_rid3 args \<noteq> 0) ''invalid rgid.'' (
          tp_assert (arg_eid3 args \<noteq> 0) ''invalid egid.'' (
          tp_assert (arg_sid3 args \<noteq> 0) ''invalid sgid.'' (
          sys_int (Cred (Setresgid (arg_rid3 args) (arg_eid3 args) (arg_sid3 args))) (\<lambda>status.
          printf_errno ''setresgid(%d, %d, %d) = %d, errno = %d\<newline>''
            [FId (arg_rid3 args), FId (arg_eid3 args), FId (arg_sid3 args), FInt status] (
          tp_assert (status \<noteq> - 1) ''setresgid() failed.'' (
          getres_call Getresgid (0, 0, 0) (\<lambda>status (get_rid, get_eid, get_sid).
          printf_errno ''getresgid(%d, %d, %d) = %d, errno = %d\<newline>''
            [FId get_rid, FId get_eid, FId get_sid, FInt status] (
          tp_assert (status \<noteq> - 1) ''getresgid() failed.'' (
          tp_assert (arg_rid3 args = get_rid) ''setresgid() failed.'' (
          tp_assert (arg_eid3 args = get_eid) ''setresgid() failed.'' (
          tp_assert (arg_sid3 args = get_sid) ''setresgid() failed.'' (
          Return None)))))))))))))"

definition setresgid_case :: "setresgid_args option test_case" where
  "setresgid_case =
     \<lparr>test_suite = ''setresgid'', num = 0, tc_setup = (\<lambda>tc_num tc_argv. setresgid_parse_args tc_argv),
      tc_run = setresgid_run, tc_teardown = TEARDOWN_EMPTY\<rparr>"

type_synonym getresgid_args = id3_args

definition getresgid_switch :: "char \<Rightarrow> u32 \<Rightarrow> getresgid_args \<Rightarrow> getresgid_args option" where
  "getresgid_switch opt v param =
     (if opt = CHR ''r'' then Some (param\<lparr>arg_rid3 := v\<rparr>)
      else if opt = CHR ''e'' then Some (param\<lparr>arg_eid3 := v\<rparr>)
      else if opt = CHR ''s'' then Some (param\<lparr>arg_sid3 := v\<rparr>)
      else None)"

definition getresgid_parse_args :: "string list \<Rightarrow> getresgid_args option prog" where
  "getresgid_parse_args argv =
     (case getopt_all None ''r:e:s:'' argv of (opts, argv', optind) \<Rightarrow>
        case opt_switch getresgid_switch opts \<lparr>arg_rid3 = 0, arg_eid3 = 0, arg_sid3 = 0, arg_argv3 = []\<rparr> of
          None \<Rightarrow> Return None
        | Some param \<Rightarrow>
            warn_mandatory (arg_rid3 param) ''mandatory parameter '-r <rgid>'\<newline>'' (
            warn_mandatory (arg_eid3 param) ''mandatory parameter '-e <egid>'\<newline>'' (
            warn_mandatory (arg_sid3 param) ''mandatory parameter '-s <sgid>'\<newline>'' (
            Return (Some (param\<lparr>arg_argv3 := drop optind argv'\<rparr>))))))"

definition getresgid_run :: "int \<Rightarrow> getresgid_args option \<Rightarrow> verdict prog" where
  "getresgid_run tc_num tc_arg =
     (case tc_arg of
        None \<Rightarrow> Return (Some ''invalid arguement.'')
      | Some args \<Rightarrow>
          tp_assert (arg_rid3 args \<noteq> 0) ''invalid rgid.'' (
          tp_assert (arg_eid3 args \<noteq> 0) ''invalid egid.'' (
          tp_assert (arg_sid3 args \<noteq> 0) ''invalid sgid.'' (
          getres_call Getresgid (0, 0, 0) (\<lambda>status (get_rid, get_eid, get_sid).
          printf_errno ''getresgid(%d, %d, %d) = %d, errno = %d\<newline>''
            [FId get_rid, FId get_eid, FId get_sid, FInt status] (
          tp_assert (status \<noteq> - 1) ''getresgid() failed.'' (
          sys_int (Cred (Setresgid (arg_rid3 args) (arg_eid3 args) (arg_sid3 args))) (\<lambda>status.
          printf_errno ''setresgid(%d, %d, %d) = %d, errno = %d\<newline>''
            [FId (arg_rid3 args), FId (arg_eid3 args), FId (arg_sid3 args), FInt status] (
          tp_assert (status \<noteq> - 1) ''setresgid() failed.'' (
          getres_call Getresgid (get_rid, get_eid, get_sid) (\<lambda>status (get_rid, get_eid, get_sid).
          printf_errno ''getresgid(%d, %d, %d) = %d, errno = %d\<newline>''
            [FId get_rid, FId get_eid, FId get_sid, FInt status] (
          tp_assert (status \<noteq> - 1) ''getresgid() failed.'' (
          tp_assert (arg_rid3 args = get_rid) ''setresgid() failed.'' (
          tp_assert (arg_eid3 args = get_eid) ''setresgid() failed.'' (
          tp_assert (arg_sid3 args = get_sid) ''setresgid() failed.'' (
          Return None))))))))))))))))"

definition getresgid_case :: "getresgid_args option test_case" where
  "getresgid_case =
     \<lparr>test_suite = ''getresgid'', num = 0, tc_setup = (\<lambda>tc_num tc_argv. getresgid_parse_args tc_argv),
      tc_run = getresgid_run, tc_teardown = TEARDOWN_EMPTY\<rparr>"

subsection \<open>File system identifiers\<close>

text \<open>
  The line of \<^verbatim>\<open>/proc/PID/status\<close> that contains the key, read with \<^verbatim>\<open>fgets\<close> into a buffer of
  1024 bytes.
\<close>

function status_line :: "string \<Rightarrow> string \<Rightarrow> string option" where
  "status_line key s =
     (case fgets 1024 s of
        None \<Rightarrow> None
      | Some (buf, rest) \<Rightarrow> if strstr buf key then Some buf else status_line key rest)"
  by pat_completeness auto
termination
  by (relation "measure (\<lambda>(key, s). length s)") (auto dest: fgets_shorter)

declare status_line.simps [simp del]

text \<open>\<^verbatim>\<open>snprintf(fname, sizeof(fname), "/proc/%d/status", getpid())\<close>\<close>

definition status_path :: "int \<Rightarrow> string" where
  "status_path pid = ''/proc/'' @ dec_int pid @ ''/status''"

definition check_procfs_status_uid :: "u32 \<Rightarrow> int prog" where
  "check_procfs_status_uid set_fsuid =
     sys_int (Proc Getpid) (\<lambda>pid.
     Sys (File (Fopen (status_path pid))) (\<lambda>r. case r of
       SErr e \<Rightarrow> SetErrno e (Fprintf Stderr ''fopen error.\<newline>'' [] (Return 0))
     | SOk fp os \<Rightarrow>
         (let content = (case os of [OStr c] \<Rightarrow> c | _ \<Rightarrow> []);
              line = status_line ''Uid:'' content;
              p_fsuid = (case line of
                 None \<Rightarrow> 0
               | Some buf \<Rightarrow> (case strrchr_next buf (CHR 0x09) of None \<Rightarrow> 0 | Some p \<Rightarrow> word_of_int (atoi p)));
              rest = sys_int (File (Fclose fp)) (\<lambda>st.
                if st \<noteq> 0 then Fprintf Stderr ''fclose error.\<newline>'' [] (Return 0)
                else Printf ''cmp %d == %d ? \<newline>'' [FId set_fsuid, FId p_fsuid] (
                     Return (if set_fsuid = p_fsuid then 1 else 0)))
          in case line of None \<Rightarrow> rest | Some buf \<Rightarrow> Printf ''%s'' [FStr buf] rest)))"

type_synonym setfsuid_args = id1_args

definition setfsuid_switch :: "char \<Rightarrow> u32 \<Rightarrow> setfsuid_args \<Rightarrow> setfsuid_args option" where
  "setfsuid_switch opt v param = (if opt = CHR ''f'' then Some (param\<lparr>arg_id := v\<rparr>) else None)"

definition setfsuid_parse_args :: "string list \<Rightarrow> setfsuid_args option prog" where
  "setfsuid_parse_args argv =
     (case getopt_all None ''f:'' argv of (opts, argv', optind) \<Rightarrow>
        case opt_switch setfsuid_switch opts \<lparr>arg_id = 0, arg_argv = []\<rparr> of
          None \<Rightarrow> Return None
        | Some param \<Rightarrow>
            warn_mandatory (arg_id param) ''mandatory parameter '-f <fsuid>'\<newline>'' (
            Return (Some (param\<lparr>arg_argv := drop optind argv'\<rparr>))))"

definition setfsuid_run :: "int \<Rightarrow> setfsuid_args option \<Rightarrow> verdict prog" where
  "setfsuid_run tc_num tc_arg =
     (case tc_arg of
        None \<Rightarrow> Return (Some ''invalid arguement.'')
      | Some args \<Rightarrow>
          tp_assert (arg_id args \<noteq> 0) ''invalid uid.'' (
          sys_int (Cred (Setfsuid (arg_id args))) (\<lambda>status.
          printf_errno ''setfsuid(%d) = %d, errno = %d\<newline>'' [FId (arg_id args), FInt status] (
          tp_assert (status \<noteq> - 1) ''setfsuid() failed.'' (
          call (check_procfs_status_uid (arg_id args)) (\<lambda>ok.
          tp_assert (ok = 1) ''setfsuid() failed.'' (
          Return None)))))))"

definition setfsuid_case :: "setfsuid_args option test_case" where
  "setfsuid_case =
     \<lparr>test_suite = ''setfsuid'', num = 0, tc_setup = (\<lambda>tc_num tc_argv. setfsuid_parse_args tc_argv),
      tc_run = setfsuid_run, tc_teardown = TEARDOWN_EMPTY\<rparr>"

definition check_procfs_status_gid :: "u32 \<Rightarrow> int prog" where
  "check_procfs_status_gid set_fsgid =
     sys_int (Proc Getpid) (\<lambda>pid.
     Sys (File (Fopen (status_path pid))) (\<lambda>r. case r of
       SErr e \<Rightarrow> SetErrno e (Fprintf Stderr ''fopen error.\<newline>'' [] (Return 0))
     | SOk fp os \<Rightarrow>
         (let content = (case os of [OStr c] \<Rightarrow> c | _ \<Rightarrow> []);
              line = status_line ''Gid:'' content;
              p_fsgid = (case line of
                 None \<Rightarrow> 0
               | Some buf \<Rightarrow> (case strrchr_next buf (CHR 0x09) of None \<Rightarrow> 0 | Some p \<Rightarrow> word_of_int (atoi p)));
              rest = sys_int (File (Fclose fp)) (\<lambda>st.
                if st \<noteq> 0 then Fprintf Stderr ''fclose error.\<newline>'' [] (Return 0)
                else Printf ''cmp %d == %d ? \<newline>'' [FId set_fsgid, FId p_fsgid] (
                     Return (if set_fsgid = p_fsgid then 1 else 0)))
          in case line of None \<Rightarrow> rest | Some buf \<Rightarrow> Printf ''%s'' [FStr buf] rest)))"

type_synonym setfsgid_args = id1_args

definition setfsgid_switch :: "char \<Rightarrow> u32 \<Rightarrow> setfsgid_args \<Rightarrow> setfsgid_args option" where
  "setfsgid_switch opt v param = (if opt = CHR ''f'' then Some (param\<lparr>arg_id := v\<rparr>) else None)"

definition setfsgid_parse_args :: "string list \<Rightarrow> setfsgid_args option prog" where
  "setfsgid_parse_args argv =
     (case getopt_all None ''f:'' argv of (opts, argv', optind) \<Rightarrow>
        case opt_switch setfsgid_switch opts \<lparr>arg_id = 0, arg_argv = []\<rparr> of
          None \<Rightarrow> Return None
        | Some param \<Rightarrow>
            warn_mandatory (arg_id param) ''mandatory parameter '-f <fsgid>'\<newline>'' (
            Return (Some (param\<lparr>arg_argv := drop optind argv'\<rparr>))))"

definition setfsgid_run :: "int \<Rightarrow> setfsgid_args option \<Rightarrow> verdict prog" where
  "setfsgid_run tc_num tc_arg =
     (case tc_arg of
        None \<Rightarrow> Return (Some ''invalid arguement.'')
      | Some args \<Rightarrow>
          tp_assert (arg_id args \<noteq> 0) ''invalid gid.'' (
          sys_int (Cred (Setfsgid (arg_id args))) (\<lambda>status.
          printf_errno ''setfsgid(%d) = %d, errno = %d\<newline>'' [FId (arg_id args), FInt status] (
          tp_assert (status \<noteq> - 1) ''setfsgid() failed.'' (
          call (check_procfs_status_gid (arg_id args)) (\<lambda>ok.
          tp_assert (ok = 1) ''setfsgid() failed.'' (
          Return None)))))))"

definition setfsgid_case :: "setfsgid_args option test_case" where
  "setfsgid_case =
     \<lparr>test_suite = ''setfsgid'', num = 0, tc_setup = (\<lambda>tc_num tc_argv. setfsgid_parse_args tc_argv),
      tc_run = setfsgid_run, tc_teardown = TEARDOWN_EMPTY\<rparr>"

subsection \<open>The shape of the bodies\<close>

definition setid_body :: "(u32 \<Rightarrow> cred_call) \<Rightarrow> cred_call \<Rightarrow> string list \<Rightarrow> u32 \<Rightarrow> verdict prog" where
  "setid_body seti get ms x =
     sys_int (Cred (seti x)) (\<lambda>status.
     printf_errno (ms ! 0) [FId x, FInt status] (
     tp_assert (status \<noteq> - 1) (ms ! 1) (
     sys_id get (\<lambda>g. Printf (ms ! 2) [FId g] (
     tp_assert (x = g) (ms ! 3) (Return None))))))"

definition seteid_body :: "(u32 \<Rightarrow> u32 \<Rightarrow> cred_call) \<Rightarrow> cred_call \<Rightarrow> string list \<Rightarrow> u32 \<Rightarrow> verdict prog" where
  "seteid_body setre gete ms x =
     sys_int (Cred (setre x x)) (\<lambda>status.
     printf_errno (ms ! 0) [FId x, FId x, FInt status] (
     tp_assert (status \<noteq> - 1) (ms ! 1) (
     sys_id gete (\<lambda>g. Printf (ms ! 2) [FId g] (
     tp_assert (x = g) (ms ! 3) (Return None))))))"

definition setreid_body :: "(u32 \<Rightarrow> u32 \<Rightarrow> cred_call) \<Rightarrow> cred_call \<Rightarrow> cred_call \<Rightarrow> string list \<Rightarrow> u32 \<Rightarrow> u32 \<Rightarrow> verdict prog" where
  "setreid_body setre getr gete ms x y =
     sys_int (Cred (setre x y)) (\<lambda>status.
     printf_errno (ms ! 0) [FId x, FId y, FInt status] (
     tp_assert (status \<noteq> - 1) (ms ! 1) (
     sys_id getr (\<lambda>g. Printf (ms ! 2) [FId g] (
     tp_assert (x = g) (ms ! 1) (
     sys_id gete (\<lambda>g. Printf (ms ! 3) [FId g] (
     tp_assert (y = g) (ms ! 1) (Return None)))))))))"

definition setresid_body :: "(u32 \<Rightarrow> u32 \<Rightarrow> u32 \<Rightarrow> cred_call) \<Rightarrow> cred_call \<Rightarrow> string list \<Rightarrow> u32 \<times> u32 \<times> u32 \<Rightarrow>
  u32 \<Rightarrow> u32 \<Rightarrow> u32 \<Rightarrow> verdict prog" where
  "setresid_body setres getres ms old x y z =
     sys_int (Cred (setres x y z)) (\<lambda>status.
     printf_errno (ms ! 0) [FId x, FId y, FId z, FInt status] (
     tp_assert (status \<noteq> - 1) (ms ! 1) (
     getres_call getres old (\<lambda>status (r, e, s).
     printf_errno (ms ! 2) [FId r, FId e, FId s, FInt status] (
     tp_assert (status \<noteq> - 1) (ms ! 3) (
     tp_assert (x = r) (ms ! 1) (
     tp_assert (y = e) (ms ! 1) (
     tp_assert (z = s) (ms ! 1) (Return None)))))))))"

lemma exec_printf_errno [exec_simps]:
  "exec K (printf_errno fmt args k) p = exec K k (p\<lparr>out := out p @ [(Stdout, fmt, args @ [FInt (errno p)])]\<rparr>)"
  by (simp add: printf_errno_def)

lemma exec_sys_id [exec_simps]:
  "exec K (sys_id c k) p =
     (case fst (k_sys K (Cred c) (kst p)) of
        SOk v os \<Rightarrow> exec K (k (word_of_int v)) (p\<lparr>kst := snd (k_sys K (Cred c) (kst p))\<rparr>)
      | SErr e \<Rightarrow> exec K (k (- 1)) (p\<lparr>kst := snd (k_sys K (Cred c) (kst p)), errno := e\<rparr>))"
  by (simp add: sys_id_def exec_simps split: sysres.split)

text \<open>What the bodies rely on: how the calls of one family act on that family's identifiers.\<close>

locale id_family =
  fixes sel :: "cred \<Rightarrow> ids"
    and getr :: cred_call and gete :: cred_call and getres :: cred_call
    and seti :: "u32 \<Rightarrow> cred_call" and setre :: "u32 \<Rightarrow> u32 \<Rightarrow> cred_call"
    and setres :: "u32 \<Rightarrow> u32 \<Rightarrow> u32 \<Rightarrow> cred_call"
  assumes getr: "cred_step getr c = (SOk (uint (rid (sel c))) [], c)"
    and gete: "cred_step gete c = (SOk (uint (eid (sel c))) [], c)"
    and getres: "cred_step getres c = (SOk 0 (ids_out (sel c)), c)"
    and seti: "fst (cred_step (seti u) c) = fst (ids_set (privileged c) u (sel c))"
      "sel (snd (cred_step (seti u) c)) = snd (ids_set (privileged c) u (sel c))"
    and setre: "fst (cred_step (setre u v) c) = fst (ids_setre (privileged c) u v (sel c))"
      "sel (snd (cred_step (setre u v) c)) = snd (ids_setre (privileged c) u v (sel c))"
    and setres: "fst (cred_step (setres u v w) c) = fst (ids_setres (privileged c) u v w (sel c))"
      "sel (snd (cred_step (setres u v w) c)) = snd (ids_setres (privileged c) u v w (sel c))"
begin

lemmas steps = getr gete getres seti setre setres

lemma setid_passes:
  assumes "conforms_cred K view"
  shows "fst (exec K (setid_body seti getr ms x) p) = Returned None \<longleftrightarrow>
     x \<noteq> - 1 \<and> (privileged (view (kst p)) \<or> x = rid (sel (view (kst p))))"
  by (auto simp: setid_body_def exec_simps passes_tp_assert conforms_credD [OF assms] steps ids_set_def)

lemma seteid_passes:
  assumes "conforms_cred K view"
  shows "fst (exec K (seteid_body setre gete ms x) p) = Returned None \<longleftrightarrow>
     (let i = sel (view (kst p)) in
      if x = - 1 then eid i = - 1 else privileged (view (kst p)) \<or> x = rid i \<or> x = eid i)"
  by (auto simp: seteid_body_def exec_simps passes_tp_assert conforms_credD [OF assms] steps ids_setre_def allowed_def keep_def Let_def)

lemma setreid_passes:
  assumes "conforms_cred K view"
  shows "fst (exec K (setreid_body setre getr gete ms x y) p) = Returned None \<longleftrightarrow>
     (let i = sel (view (kst p)); priv = privileged (view (kst p)) in
      allowed priv {rid i, eid i} x \<and> allowed priv {rid i, eid i, sid i} y \<and>
      keep x (rid i) = x \<and> keep y (eid i) = y)"
  by (auto simp: setreid_body_def exec_simps passes_tp_assert conforms_credD [OF assms] steps ids_setre_def keep_def Let_def)

lemma setresid_passes:
  assumes "conforms_cred K view"
  shows "fst (exec K (setresid_body setres getres ms old x y z) p) = Returned None \<longleftrightarrow>
     (let i = sel (view (kst p)); priv = privileged (view (kst p)); S = {rid i, eid i, sid i} in
      allowed priv S x \<and> allowed priv S y \<and> allowed priv S z \<and>
      keep x (rid i) = x \<and> keep y (eid i) = y \<and> keep z (sid i) = z)"
  by (auto simp: setresid_body_def getres_call_def oval_id_def exec_simps passes_tp_assert conforms_credD [OF assms] steps
      ids_setres_def ids_out_def keep_def Let_def)

end

interpretation uid: id_family uids Getuid Geteuid Getresuid Setuid Setreuid Setresuid
  by unfold_locales (simp_all add: on_uids_def)

interpretation gid: id_family gids Getgid Getegid Getresgid Setgid Setregid Setresgid
  by unfold_locales (simp_all add: on_gids_def)

subsection \<open>The suites\<close>

lemma setid_run_bodies:
  "setuid_run n (Some a) = tp_assert (arg_id a \<noteq> 0) ''invalid uid.'' (setid_body Setuid Getuid
     [''setuid(%d) = %d, errno = %d\<newline>'', ''setuid() failed.'', ''getuid() = %d\<newline>'', ''setuid() failed.''] (arg_id a))"
  "setgid_run n (Some a) = tp_assert (arg_id a \<noteq> 0) ''invalid gid.'' (setid_body Setgid Getgid
     [''setgid(%d) = %d, errno = %d\<newline>'', ''setgid() failed.'', ''getgid() = %d\<newline>'', ''setgid() failed.''] (arg_id a))"
  "getuid_run n (Some a) = tp_assert (arg_id a \<noteq> 0) ''invalid uid.'' (
     sys_id Getuid (\<lambda>g. Printf ''getuid() = %d\<newline>'' [FId g] (setid_body Setuid Getuid
     [''setuid(%d) = %d, errno = %d\<newline>'', ''setuid() failed.'', ''getuid() = %d\<newline>'', ''getuid() failed.''] (arg_id a))))"
  "getgid_run n (Some a) = tp_assert (arg_id a \<noteq> 0) ''invalid gid.'' (
     sys_id Getgid (\<lambda>g. Printf ''getgid() = %d\<newline>'' [FId g] (setid_body Setgid Getgid
     [''setgid(%d) = %d, errno = %d\<newline>'', ''setgid() failed.'', ''getgid() = %d\<newline>'', ''getgid() failed.''] (arg_id a))))"
  by (simp_all add: setuid_run_def setgid_run_def getuid_run_def getgid_run_def setid_body_def)

lemma seteid_run_bodies:
  "geteuid_run n (Some a) = tp_assert (arg_id a \<noteq> 0) ''invalid euid.'' (
     sys_id Geteuid (\<lambda>g. Printf ''geteuid() = %d\<newline>'' [FId g] (seteid_body Setreuid Geteuid
     [''setreuid(%d, %d) = %d, errno = %d\<newline>'', ''setreuid() failed.'', ''geteuid() = %d\<newline>'', ''geteuid() failed.''] (arg_id a))))"
  "getegid_run n (Some a) = tp_assert (arg_id a \<noteq> 0) ''invalid egid.'' (
     sys_id Getegid (\<lambda>g. Printf ''getegid() = %d\<newline>'' [FId g] (seteid_body Setregid Getegid
     [''setregid(%d, %d) = %d, errno = %d\<newline>'', ''setregid() failed.'', ''getegid() = %d\<newline>'', ''getegid() failed.''] (arg_id a))))"
  by (simp_all add: geteuid_run_def getegid_run_def seteid_body_def)

lemma setreid_run_bodies:
  "setreuid_run n (Some b) = tp_assert (arg_rid b \<noteq> 0) ''invalid ruid.'' (tp_assert (arg_eid b \<noteq> 0) ''invalid euid.'' (
     setreid_body Setreuid Getuid Geteuid
     [''setreuid(%d, %d) = %d, errno = %d\<newline>'', ''setreuid() failed.'', ''getuid() = %d\<newline>'', ''geteuid() = %d\<newline>'']
     (arg_rid b) (arg_eid b)))"
  "setregid_run n (Some b) = tp_assert (arg_rid b \<noteq> 0) ''invalid rgid.'' (tp_assert (arg_eid b \<noteq> 0) ''invalid egid.'' (
     setreid_body Setregid Getgid Getegid
     [''setregid(%d, %d) = %d, errno = %d\<newline>'', ''setregid() failed.'', ''getgid() = %d\<newline>'', ''getegid() = %d\<newline>'']
     (arg_rid b) (arg_eid b)))"
  by (simp_all add: setreuid_run_def setregid_run_def setreid_body_def)

definition valid3 :: "id3_args \<Rightarrow> string list \<Rightarrow> verdict prog \<Rightarrow> verdict prog" where
  "valid3 a ms k = tp_assert (arg_rid3 a \<noteq> 0) (ms ! 0) (tp_assert (arg_eid3 a \<noteq> 0) (ms ! 1) (
     tp_assert (arg_sid3 a \<noteq> 0) (ms ! 2) k))"

lemma setresid_run_bodies:
  "setresuid_run n (Some d) = valid3 d [''invalid ruid.'', ''invalid euid.'', ''invalid suid.''] (
     setresid_body Setresuid Getresuid
     [''setresuid(%d, %d, %d) = %d, errno = %d\<newline>'', ''setresuid() failed.'',
      ''getresuid(%d, %d, %d) = %d, errno = %d\<newline>'', ''getresuid() failed.''] (0, 0, 0)
     (arg_rid3 d) (arg_eid3 d) (arg_sid3 d))"
  "setresgid_run n (Some d) = valid3 d [''invalid rgid.'', ''invalid egid.'', ''invalid sgid.''] (
     setresid_body Setresgid Getresgid
     [''setresgid(%d, %d, %d) = %d, errno = %d\<newline>'', ''setresgid() failed.'',
      ''getresgid(%d, %d, %d) = %d, errno = %d\<newline>'', ''getresgid() failed.''] (0, 0, 0)
     (arg_rid3 d) (arg_eid3 d) (arg_sid3 d))"
  "getresuid_run n (Some d) = valid3 d [''invalid ruid.'', ''invalid euid.'', ''invalid suid.''] (
     getres_call Getresuid (0, 0, 0) (\<lambda>st (r, e, s).
     printf_errno ''getresuid(%d, %d, %d) = %d, errno = %d\<newline>'' [FId r, FId e, FId s, FInt st] (
     tp_assert (st \<noteq> - 1) ''getresuid() failed.'' (setresid_body Setresuid Getresuid
     [''setresuid(%d, %d, %d) = %d, errno = %d\<newline>'', ''setresuid() failed.'',
      ''getresuid(%d, %d, %d) = %d, errno = %d\<newline>'', ''getresuid() failed.''] (r, e, s)
     (arg_rid3 d) (arg_eid3 d) (arg_sid3 d)))))"
  "getresgid_run n (Some d) = valid3 d [''invalid rgid.'', ''invalid egid.'', ''invalid sgid.''] (
     getres_call Getresgid (0, 0, 0) (\<lambda>st (r, e, s).
     printf_errno ''getresgid(%d, %d, %d) = %d, errno = %d\<newline>'' [FId r, FId e, FId s, FInt st] (
     tp_assert (st \<noteq> - 1) ''getresgid() failed.'' (setresid_body Setresgid Getresgid
     [''setresgid(%d, %d, %d) = %d, errno = %d\<newline>'', ''setresgid() failed.'',
      ''getresgid(%d, %d, %d) = %d, errno = %d\<newline>'', ''getresgid() failed.''] (r, e, s)
     (arg_rid3 d) (arg_eid3 d) (arg_sid3 d)))))"
  by (simp_all add: setresuid_run_def setresgid_run_def getresuid_run_def getresgid_run_def setresid_body_def valid3_def)

lemma status_path_proc [simp]: "status_path pid = proc_status_file pid"
  by (simp add: status_path_def proc_status_file_def)

lemma status_line_skip:
  "CHR 0x0A \<notin> set l \<Longrightarrow> length l < 1000 \<Longrightarrow> \<not> strstr (l @ [CHR 0x0A]) key \<Longrightarrow>
     status_line key (l @ CHR 0x0A # rest) = status_line key rest"
  by (subst status_line.simps) (simp add: fgets_line)

lemma status_line_hit:
  "CHR 0x0A \<notin> set l \<Longrightarrow> length l < 1000 \<Longrightarrow> strstr (l @ [CHR 0x0A]) key \<Longrightarrow>
     status_line key (l @ CHR 0x0A # rest) = Some (l @ [CHR 0x0A])"
  by (subst status_line.simps) (simp add: fgets_line)

lemma status_line_others:
  "list_all other_line pre \<Longrightarrow> key = ''Uid:'' \<or> key = ''Gid:'' \<Longrightarrow>
     status_line key (unlines pre @ rest) = status_line key rest"
  by (induction pre) (auto simp: unlines_def other_line_def status_line_skip)

lemma id_line_ok:
  assumes "key = ''Uid:'' \<or> key = ''Gid:''"
  shows "CHR 0x0A \<notin> set (id_line key i)" "length (id_line key i) < 1000"
    "strstr (id_line key i @ [CHR 0x0A]) key"
    "strrchr_next (id_line key i @ [CHR 0x0A]) (CHR 0x09) = Some (dec_nat (unat (fsid i)) @ [CHR 0x0A])"
    "key = ''Uid:'' \<Longrightarrow> \<not> strstr (id_line key i @ [CHR 0x0A]) ''Gid:''"
proof -
  have len: "length (dec_nat (unat x)) \<le> 10" for x :: u32
    using unsigned_less [of x, where 'a = nat] by (intro length_dec_nat) auto
  show "CHR 0x0A \<notin> set (id_line key i)"
    using assms dec_nat_not_special by (fastforce simp: id_line_def)
  show "length (id_line key i) < 1000"
    using len [of "rid i"] len [of "eid i"] len [of "sid i"] len [of "fsid i"] assms by (auto simp: id_line_def)
  show "strstr (id_line key i @ [CHR 0x0A]) key"
    unfolding id_line_def append_assoc by (rule strstr_prefix)
  show "strrchr_next (id_line key i @ [CHR 0x0A]) (CHR 0x09) = Some (dec_nat (unat (fsid i)) @ [CHR 0x0A])"
    using strrchr_next_append [of "CHR 0x09" "dec_nat (unat (fsid i)) @ [CHR 0x0A]"
        "key @ [CHR 0x09] @ dec_nat (unat (rid i)) @ [CHR 0x09] @ dec_nat (unat (eid i)) @ [CHR 0x09] @ dec_nat (unat (sid i))"]
      dec_nat_not_special [of _ "unat (fsid i)"]
    by (fastforce simp: id_line_def)
  show "\<not> strstr (id_line key i @ [CHR 0x0A]) ''Gid:''" if "key = ''Uid:''"
  proof
    assume "strstr (id_line key i @ [CHR 0x0A]) ''Gid:''"
    from strstr_subset [OF this] that show False
      using dec_nat_not_special by (fastforce simp: id_line_def)
  qed
qed

lemma status_line_id:
  assumes "status_content c s"
  shows "status_line ''Uid:'' s = Some (id_line ''Uid:'' (uids c) @ [CHR 0x0A])"
    "status_line ''Gid:'' s = Some (id_line ''Gid:'' (gids c) @ [CHR 0x0A])"
proof -
  from assms obtain pre post where pre: "list_all other_line pre"
    and s: "s = unlines pre @ id_line ''Uid:'' (uids c) @ CHR 0x0A # id_line ''Gid:'' (gids c) @ CHR 0x0A # post"
    by (auto simp: status_content_def unlines_def)
  show "status_line ''Uid:'' s = Some (id_line ''Uid:'' (uids c) @ [CHR 0x0A])"
    unfolding s using pre by (simp add: status_line_others status_line_hit id_line_ok)
  show "status_line ''Gid:'' s = Some (id_line ''Gid:'' (gids c) @ [CHR 0x0A])"
    unfolding s using pre by (simp add: status_line_others status_line_hit status_line_skip id_line_ok)
qed

lemma fsid_of_line:
  "status_content c s \<Longrightarrow> word_of_int (atoi (the (strrchr_next (the (status_line ''Uid:'' s)) (CHR 0x09)))) = fsid (uids c)"
  "status_content c s \<Longrightarrow> word_of_int (atoi (the (strrchr_next (the (status_line ''Gid:'' s)) (CHR 0x09)))) = fsid (gids c)"
  using unsigned_less [of "fsid (uids c)", where 'a = nat] unsigned_less [of "fsid (gids c)", where 'a = nat]
  by (simp_all add: status_line_id id_line_ok atoi_dec_newline)

lemma check_procfs_status:
  assumes "conforms_status K view pid"
  shows "\<exists>p'. exec K (check_procfs_status_uid x) p = (Returned (if x = fsid (uids (view (kst p))) then 1 else 0), p')"
    "\<exists>p'. exec K (check_procfs_status_gid x) p = (Returned (if x = fsid (gids (view (kst p))) then 1 else 0), p')"
proof -
  let ?s = "snd (k_sys K (Proc Getpid) (kst p))"
  have v: "view ?s = view (kst p)" "fst (k_sys K (Proc Getpid) (kst p)) = SOk pid []"
    using assms by (auto simp: conforms_status_def preserves_def)
  have "\<exists>fp content. fst (k_sys K (File (Fopen (proc_status_file pid))) ?s) = SOk fp [OStr content] \<and>
        status_content (view ?s) content"
    using assms by (simp add: conforms_status_def)
  then obtain fp content where f: "fst (k_sys K (File (Fopen (proc_status_file pid))) ?s) = SOk fp [OStr content]"
    "status_content (view (kst p)) content"
    using v(1) by auto
  have cl: "fst (k_sys K (File (Fclose fp)) s) = SOk 0 []" for s using assms by (simp add: conforms_status_def)
  note f' = fsid_of_line [OF f(2)] status_line_id [OF f(2)] id_line_ok(4)
  show "\<exists>p'. exec K (check_procfs_status_uid x) p = (Returned (if x = fsid (uids (view (kst p))) then 1 else 0), p')"
    "\<exists>p'. exec K (check_procfs_status_gid x) p = (Returned (if x = fsid (gids (view (kst p))) then 1 else 0), p')"
    using f' by (simp_all add: check_procfs_status_uid_def check_procfs_status_gid_def exec_simps v f(1) cl Let_def)
qed

lemma setfs_status: "x \<noteq> - 1 \<Longrightarrow> c_int (uint (x :: u32)) \<noteq> - 1"
proof
  assume "x \<noteq> - 1" "c_int (uint x) = - 1"
  then have "(word_of_int (c_int (uint x)) :: u32) = word_of_int (- 1)" by simp
  with \<open>x \<noteq> - 1\<close> show False by simp
qed

text \<open>When the kernel accepts identifiers and reports exactly them afterwards.\<close>

definition setre_ok :: "bool \<Rightarrow> ids \<Rightarrow> u32 \<Rightarrow> u32 \<Rightarrow> bool" where
  "setre_ok priv i x y \<longleftrightarrow> x \<noteq> 0 \<and> y \<noteq> 0 \<and>
     allowed priv {rid i, eid i} x \<and> allowed priv {rid i, eid i, sid i} y \<and> keep x (rid i) = x \<and> keep y (eid i) = y"

definition setres_ok :: "bool \<Rightarrow> ids \<Rightarrow> u32 \<Rightarrow> u32 \<Rightarrow> u32 \<Rightarrow> bool" where
  "setres_ok priv i x y z \<longleftrightarrow> x \<noteq> 0 \<and> y \<noteq> 0 \<and> z \<noteq> 0 \<and>
     allowed priv {rid i, eid i, sid i} x \<and> allowed priv {rid i, eid i, sid i} y \<and> allowed priv {rid i, eid i, sid i} z \<and>
     keep x (rid i) = x \<and> keep y (eid i) = y \<and> keep z (sid i) = z"

definition setfs_ok :: "bool \<Rightarrow> ids \<Rightarrow> u32 \<Rightarrow> bool" where
  "setfs_ok priv i x \<longleftrightarrow> x \<noteq> 0 \<and> x \<noteq> - 1 \<and> (priv \<or> x \<in> {rid i, eid i, sid i, fsid i})"

lemma init_creds: "w_cred (kst init_process) = \<lparr>uids = \<lparr>rid = 0, eid = 0, sid = 0, fsid = 0\<rparr>, gids = \<lparr>rid = 0, eid = 0, sid = 0, fsid = 0\<rparr>\<rparr>"
  by (simp add: init_process_def init_world_def)

subsection \<open>Properties\<close>



text \<open>C26. The suites \<^verbatim>\<open>geteuid\<close> and \<^verbatim>\<open>getegid\<close> pass on a conforming kernel exactly for a
  non-zero identifier that a privileged process asks for or that is the real or effective one already.\<close>

theorem seteid_suites_pass_iff:
  assumes K: "conforms_cred K view" and "c = view (kst p)" and "x = arg_id a"
  shows "(fst (exec K (geteuid_run n (Some a)) p) = Returned None \<longleftrightarrow>
      x \<noteq> 0 \<and> (if x = - 1 then eid (uids c) = - 1 else privileged c \<or> x = rid (uids c) \<or> x = eid (uids c))) \<and>
    (fst (exec K (getegid_run n (Some a)) p) = Returned None \<longleftrightarrow>
      x \<noteq> 0 \<and> (if x = - 1 then eid (gids c) = - 1 else privileged c \<or> x = rid (gids c) \<or> x = eid (gids c)))"
  unfolding seteid_run_bodies passes_tp_assert
  by (simp add: assms(2,3) exec_simps conforms_credD [OF K] uid.seteid_passes [OF K] gid.seteid_passes [OF K] Let_def)

theorem seteid_suites_pass_iff_witness:
  "fst (exec ref_kernel (geteuid_run 0 (Some \<lparr>arg_id = 1000, arg_argv = []\<rparr>)) init_process) = Returned None \<and>
   fst (exec ref_kernel (getegid_run 0 (Some \<lparr>arg_id = - 1, arg_argv = []\<rparr>)) init_process) \<noteq> Returned None"
  using seteid_suites_pass_iff [OF ref_conforms_cred refl refl, of 0 "\<lparr>arg_id = 1000, arg_argv = []\<rparr>" init_process]
    seteid_suites_pass_iff [OF ref_conforms_cred refl refl, of 0 "\<lparr>arg_id = - 1, arg_argv = []\<rparr>" init_process]
  by (simp add: init_creds privileged_def)

text \<open>C25. The suites \<^verbatim>\<open>setreuid\<close> and \<^verbatim>\<open>setregid\<close> pass on a conforming kernel exactly when the
  process may set both non-zero identifiers and they are what the kernel then reports.\<close>

theorem setreid_suites_pass_iff:
  assumes K: "conforms_cred K view" and "c = view (kst p)"
  shows "(fst (exec K (setreuid_run n (Some b)) p) = Returned None \<longleftrightarrow>
      setre_ok (privileged c) (uids c) (arg_rid b) (arg_eid b)) \<and>
    (fst (exec K (setregid_run n (Some b)) p) = Returned None \<longleftrightarrow>
      setre_ok (privileged c) (gids c) (arg_rid b) (arg_eid b))"
  unfolding setreid_run_bodies passes_tp_assert
  by (simp add: assms(2) exec_simps setre_ok_def uid.setreid_passes [OF K] gid.setreid_passes [OF K] Let_def)

theorem setreid_suites_pass_iff_witness:
  "fst (exec ref_kernel (setreuid_run 0 (Some \<lparr>arg_rid = 5, arg_eid = 6, arg_argv2 = []\<rparr>)) init_process) = Returned None \<and>
   fst (exec ref_kernel (setregid_run 0 (Some \<lparr>arg_rid = 5, arg_eid = - 1, arg_argv2 = []\<rparr>)) init_process) \<noteq> Returned None"
  using setreid_suites_pass_iff [OF ref_conforms_cred refl, of 0 "\<lparr>arg_rid = 5, arg_eid = 6, arg_argv2 = []\<rparr>" init_process]
    setreid_suites_pass_iff [OF ref_conforms_cred refl, of 0 "\<lparr>arg_rid = 5, arg_eid = - 1, arg_argv2 = []\<rparr>" init_process]
  by (simp add: init_creds privileged_def setre_ok_def allowed_def keep_def)

text \<open>C23. The suites \<^verbatim>\<open>setresuid\<close>, \<^verbatim>\<open>getresuid\<close>, \<^verbatim>\<open>setresgid\<close> and
  \<^verbatim>\<open>getresgid\<close> pass on a conforming kernel exactly when the process may set all three non-zero
  identifiers and they are what the kernel then reports.\<close>

theorem setresid_suites_pass_iff:
  assumes K: "conforms_cred K view" and "c = view (kst p)" and "x = arg_rid3 d" "y = arg_eid3 d" "z = arg_sid3 d"
  shows "(fst (exec K (setresuid_run n (Some d)) p) = Returned None \<longleftrightarrow> setres_ok (privileged c) (uids c) x y z) \<and>
    (fst (exec K (getresuid_run n (Some d)) p) = Returned None \<longleftrightarrow> setres_ok (privileged c) (uids c) x y z) \<and>
    (fst (exec K (setresgid_run n (Some d)) p) = Returned None \<longleftrightarrow> setres_ok (privileged c) (gids c) x y z) \<and>
    (fst (exec K (getresgid_run n (Some d)) p) = Returned None \<longleftrightarrow> setres_ok (privileged c) (gids c) x y z)"
  unfolding setresid_run_bodies passes_tp_assert valid3_def
  by (simp add: assms(2-5) setres_ok_def exec_simps getres_call_def passes_tp_assert conforms_credD [OF K] ids_out_def
      uid.setresid_passes [OF K] gid.setresid_passes [OF K] Let_def)

theorem setresid_suites_pass_iff_witness:
  "fst (exec ref_kernel (setresuid_run 0 (Some \<lparr>arg_rid3 = 5, arg_eid3 = 6, arg_sid3 = 7, arg_argv3 = []\<rparr>)) init_process) = Returned None \<and>
   fst (exec ref_kernel (getresgid_run 0 (Some \<lparr>arg_rid3 = 5, arg_eid3 = 6, arg_sid3 = 0, arg_argv3 = []\<rparr>)) init_process) \<noteq> Returned None"
  using setresid_suites_pass_iff [OF ref_conforms_cred refl refl refl refl, of 0 "\<lparr>arg_rid3 = 5, arg_eid3 = 6, arg_sid3 = 7, arg_argv3 = []\<rparr>" init_process]
    setresid_suites_pass_iff [OF ref_conforms_cred refl refl refl refl, of 0 "\<lparr>arg_rid3 = 5, arg_eid3 = 6, arg_sid3 = 0, arg_argv3 = []\<rparr>" init_process]
  by (simp add: init_creds privileged_def setres_ok_def allowed_def keep_def)



text \<open>C16. The whole \<^verbatim>\<open>setresuid\<close> test case, from its command line arguments: run by root on a conforming kernel
  it passes and leaves the process with exactly the three identifiers of the arguments, the file system
  identifier following the effective one, and with its group identifiers untouched.\<close>

theorem setresuid_end_to_end:
  assumes K: "conforms_cred K view" and "privileged (view (kst p))"
    and "x \<notin> {0, - 1}" "y \<notin> {0, - 1}" "z \<notin> {0, - 1}"
  shows "\<exists>p'. exec K (run_test_case setresuid_case [app, ''-r'', dec_int (sint x), ''-e'', dec_int (sint y), ''-s'', dec_int (sint z)]) p =
      (Returned None, p') \<and>
    view (kst p') = (view (kst p))\<lparr>uids := \<lparr>rid = x, eid = y, sid = z, fsid = y\<rparr>\<rparr>"
proof -
  have a: "atoi (dec_int (sint w)) = sint w" for w :: u32
    using sint_ge [of w] sint_lt [of w] by (intro atoi_dec) simp_all
  show ?thesis
    using assms(2-5)
    by (simp add: run_test_case_def setresuid_case_def setresuid_parse_args_def getopt_all_def opt_elem_def
      setresuid_switch_def a warn_mandatory_def setresuid_run_def exec_simps conforms_credD [OF K]
      ids_setres_def allowed_def keep_def getres_call_def ids_out_def oval_id_def on_uids_def TEARDOWN_EMPTY_def Let_def)
qed

theorem setresuid_end_to_end_witness:
  "\<exists>p'. exec ref_kernel (run_test_case setresuid_case [''mck'', ''-r'', dec_int 5, ''-e'', dec_int 6, ''-s'', dec_int (- 7)]) init_process =
      (Returned None, p') \<and> uids (w_cred (kst p')) = \<lparr>rid = 5, eid = 6, sid = - 7, fsid = 6\<rparr>"
  using setresuid_end_to_end [OF ref_conforms_cred, of init_process 5 6 "- 7" "''mck''"]
  by (auto simp: init_creds privileged_def)

end
