(* ===== verification/Rlimit_Suites.thy ===== *)
theory Rlimit_Suites
  imports Test_Mck
begin

text \<open>
  The suites \<^verbatim>\<open>getrlimit\<close> and \<^verbatim>\<open>setrlimit\<close>. The cases of a suite share one body and
  differ in the table entry they start from; every source file has a definition with its entry.
\<close>

abbreviation (input) RLIMIT_CPU :: int where "RLIMIT_CPU \<equiv> 0"
abbreviation (input) RLIMIT_FSIZE :: int where "RLIMIT_FSIZE \<equiv> 1"
abbreviation (input) RLIMIT_DATA :: int where "RLIMIT_DATA \<equiv> 2"
abbreviation (input) RLIMIT_STACK :: int where "RLIMIT_STACK \<equiv> 3"
abbreviation (input) RLIMIT_CORE :: int where "RLIMIT_CORE \<equiv> 4"
abbreviation (input) RLIMIT_RSS :: int where "RLIMIT_RSS \<equiv> 5"
abbreviation (input) RLIMIT_NPROC :: int where "RLIMIT_NPROC \<equiv> 6"
abbreviation (input) RLIMIT_NOFILE :: int where "RLIMIT_NOFILE \<equiv> 7"
abbreviation (input) RLIMIT_MEMLOCK :: int where "RLIMIT_MEMLOCK \<equiv> 8"
abbreviation (input) RLIMIT_AS :: int where "RLIMIT_AS \<equiv> 9"
abbreviation (input) RLIMIT_LOCKS :: int where "RLIMIT_LOCKS \<equiv> 10"
abbreviation (input) RLIMIT_SIGPENDING :: int where "RLIMIT_SIGPENDING \<equiv> 11"
abbreviation (input) RLIMIT_MSGQUEUE :: int where "RLIMIT_MSGQUEUE \<equiv> 12"
abbreviation (input) RLIMIT_NICE :: int where "RLIMIT_NICE \<equiv> 13"
abbreviation (input) RLIMIT_RTPRIO :: int where "RLIMIT_RTPRIO \<equiv> 14"
abbreviation (input) RLIMIT_RTTIME :: int where "RLIMIT_RTTIME \<equiv> 15"
abbreviation (input) RLIMIT_NLIMITS :: int where "RLIMIT_NLIMITS \<equiv> 16"

subsection \<open>getrlimit\<close>

abbreviation (input) TEST_GETRLIMIT_SUCCESS :: int where "TEST_GETRLIMIT_SUCCESS \<equiv> 0"
abbreviation (input) TEST_GETRLIMIT_FAILUER :: int where "TEST_GETRLIMIT_FAILUER \<equiv> - 1"

record getrlimit_tc =
  resource :: int
  res_str :: string
  expect_result :: int
  expect_errno :: int
  errno_str :: string

text \<open>\<^verbatim>\<open>getrlimit(res, &rlim)\<close>, whose structure is read only after the call succeeded.\<close>

definition getrlimit_call :: "int \<Rightarrow> (int \<Rightarrow> u64 \<times> u64 \<Rightarrow> 'a prog) \<Rightarrow> 'a prog" where
  "getrlimit_call res k =
     sys_out (Rlim (Getrlimit res)) [OInt 0, OInt 0] (\<lambda>v os. k v (oval_u64 (os ! 0), oval_u64 (os ! 1)))"

text \<open>The bodies of the cases 0 to 14 and 16, and of the cases 15 and 18, which also check \<^verbatim>\<open>errno\<close>.\<close>

definition getrlimit_body :: "getrlimit_tc \<Rightarrow> int \<Rightarrow> unit option \<Rightarrow> verdict prog" where
  "getrlimit_body tc tc_num tc_arg =
     tp_assert (0 \<le> tc_num) ''invalid tp number.'' (
     sys_int (Rlim (Getrlimit (resource tc))) (\<lambda>result.
     Printf ''getrlimit(%s)=%d\<newline>'' [FStr (res_str tc), FInt result] (
     (let k = tp_assert (result = expect_result tc) ''getrlimit failed.'' (Return None) in
      if result \<noteq> 0 then
        Errno (\<lambda>e. Printf ''errno=%d (McK may return %s(=%d))\<newline>''
          [FInt e, FStr (errno_str tc), FInt (expect_errno tc)] k)
      else k))))"

definition getrlimit_errno_body :: "getrlimit_tc \<Rightarrow> int \<Rightarrow> unit option \<Rightarrow> verdict prog" where
  "getrlimit_errno_body tc tc_num tc_arg =
     tp_assert (0 \<le> tc_num) ''invalid tp number.'' (
     sys_int (Rlim (Getrlimit (resource tc))) (\<lambda>result.
     Printf ''getrlimit(%s)=%d\<newline>'' [FStr (res_str tc), FInt result] (
     (let k = tp_assert (result = expect_result tc) ''getrlimit failed. (retval different)'' (
              Errno (\<lambda>e. tp_assert (e = expect_errno tc) ''getrlimit failed. (errno different)'' (Return None))) in
      if result \<noteq> 0 then
        Errno (\<lambda>e. Printf ''errno=%d (McK may return %s(=%d))\<newline>''
          [FInt e, FStr (errno_str tc), FInt (expect_errno tc)] k)
      else k))))"

text \<open>
  The loop of case 17. The variables \<^verbatim>\<open>rlim\<close> keep what they had when a call fails; their first
  contents, which the source leaves uninitialised, are a parameter.
\<close>

fun getrlimit_loop :: "getrlimit_tc list \<Rightarrow> u64 \<Rightarrow> u64 \<Rightarrow> int \<Rightarrow> (int \<Rightarrow> verdict prog) \<Rightarrow> verdict prog" where
  "getrlimit_loop [] cur mx failed k = k failed"
| "getrlimit_loop (tc # tcs) cur mx failed k =
     sys_out (Rlim (Getrlimit (resource tc))) [OInt (uint cur), OInt (uint mx)] (\<lambda>result os.
     (let cur' = oval_u64 (os ! 0); mx' = oval_u64 (os ! 1) in
      Printf ''getrlimit(%s)=%d\<newline>'' [FStr (res_str tc), FInt result] (
      Printf ''  rlim_cur = %lx\<newline>'' [FInt (uint cur')] (
      Printf ''  rlim_max = %lx\<newline>'' [FInt (uint mx')] (
      (let k1 = (if result \<noteq> expect_result tc
                 then Printf ''  failed %s (McK may return %s(=%d))\<newline>''
                        [FStr (res_str tc), FStr (errno_str tc), FInt (expect_errno tc)]
                        (getrlimit_loop tcs cur' mx' 1 k)
                 else getrlimit_loop tcs cur' mx' failed k)
       in if result \<noteq> 0
          then Errno (\<lambda>e. Printf ''  errno=%d (McK may return %s(=%d))\<newline>''
                 [FInt e, FStr (errno_str tc), FInt (expect_errno tc)] k1)
          else k1))))))"

definition getrlimit_000 :: "int \<Rightarrow> unit option \<Rightarrow> verdict prog" where
  "getrlimit_000 = getrlimit_body
     \<lparr>resource = RLIMIT_CPU, res_str = ''RLIMIT_CPU'', expect_result = TEST_GETRLIMIT_FAILUER, expect_errno = ENOSYS, errno_str = ''ENOSYS''\<rparr>"

definition getrlimit_001 :: "int \<Rightarrow> unit option \<Rightarrow> verdict prog" where
  "getrlimit_001 = getrlimit_body
     \<lparr>resource = RLIMIT_FSIZE, res_str = ''RLIMIT_FSIZE'', expect_result = TEST_GETRLIMIT_SUCCESS, expect_errno = 0, errno_str = ''0''\<rparr>"

definition getrlimit_002 :: "int \<Rightarrow> unit option \<Rightarrow> verdict prog" where
  "getrlimit_002 = getrlimit_body
     \<lparr>resource = RLIMIT_DATA, res_str = ''RLIMIT_DATA'', expect_result = TEST_GETRLIMIT_FAILUER, expect_errno = ENOSYS, errno_str = ''ENOSYS''\<rparr>"

definition getrlimit_003 :: "int \<Rightarrow> unit option \<Rightarrow> verdict prog" where
  "getrlimit_003 = getrlimit_body
     \<lparr>resource = RLIMIT_STACK, res_str = ''RLIMIT_STACK'', expect_result = TEST_GETRLIMIT_SUCCESS, expect_errno = 0, errno_str = ''0''\<rparr>"

definition getrlimit_004 :: "int \<Rightarrow> unit option \<Rightarrow> verdict prog" where
  "getrlimit_004 = getrlimit_body
     \<lparr>resource = RLIMIT_CORE, res_str = ''RLIMIT_CORE'', expect_result = TEST_GETRLIMIT_FAILUER, expect_errno = ENOSYS, errno_str = ''ENOSYS''\<rparr>"

definition getrlimit_005 :: "int \<Rightarrow> unit option \<Rightarrow> verdict prog" where
  "getrlimit_005 = getrlimit_body
     \<lparr>resource = RLIMIT_RSS, res_str = ''RLIMIT_RSS'', expect_result = TEST_GETRLIMIT_FAILUER, expect_errno = ENOSYS, errno_str = ''ENOSYS''\<rparr>"

definition getrlimit_006 :: "int \<Rightarrow> unit option \<Rightarrow> verdict prog" where
  "getrlimit_006 = getrlimit_body
     \<lparr>resource = RLIMIT_NOFILE, res_str = ''RLIMIT_NOFILE'', expect_result = TEST_GETRLIMIT_SUCCESS, expect_errno = 0, errno_str = ''0''\<rparr>"

definition getrlimit_007 :: "int \<Rightarrow> unit option \<Rightarrow> verdict prog" where
  "getrlimit_007 = getrlimit_body
     \<lparr>resource = RLIMIT_NPROC, res_str = ''RLIMIT_NPROC'', expect_result = TEST_GETRLIMIT_FAILUER, expect_errno = ENOSYS, errno_str = ''ENOSYS''\<rparr>"

definition getrlimit_008 :: "int \<Rightarrow> unit option \<Rightarrow> verdict prog" where
  "getrlimit_008 = getrlimit_body
     \<lparr>resource = RLIMIT_MEMLOCK, res_str = ''RLIMIT_MEMLOCK'', expect_result = TEST_GETRLIMIT_FAILUER, expect_errno = ENOSYS, errno_str = ''ENOSYS''\<rparr>"

definition getrlimit_009 :: "int \<Rightarrow> unit option \<Rightarrow> verdict prog" where
  "getrlimit_009 = getrlimit_body
     \<lparr>resource = RLIMIT_AS, res_str = ''RLIMIT_AS'', expect_result = TEST_GETRLIMIT_FAILUER, expect_errno = ENOSYS, errno_str = ''ENOSYS''\<rparr>"

definition getrlimit_010 :: "int \<Rightarrow> unit option \<Rightarrow> verdict prog" where
  "getrlimit_010 = getrlimit_body
     \<lparr>resource = RLIMIT_LOCKS, res_str = ''RLIMIT_LOCKS'', expect_result = TEST_GETRLIMIT_SUCCESS, expect_errno = 0, errno_str = ''0''\<rparr>"

definition getrlimit_011 :: "int \<Rightarrow> unit option \<Rightarrow> verdict prog" where
  "getrlimit_011 = getrlimit_body
     \<lparr>resource = RLIMIT_SIGPENDING, res_str = ''RLIMIT_SIGPENDING'', expect_result = TEST_GETRLIMIT_FAILUER, expect_errno = ENOSYS, errno_str = ''ENOSYS''\<rparr>"

definition getrlimit_012 :: "int \<Rightarrow> unit option \<Rightarrow> verdict prog" where
  "getrlimit_012 = getrlimit_body
     \<lparr>resource = RLIMIT_MSGQUEUE, res_str = ''RLIMIT_MSGQUEUE'', expect_result = TEST_GETRLIMIT_FAILUER, expect_errno = ENOSYS, errno_str = ''ENOSYS''\<rparr>"

definition getrlimit_013 :: "int \<Rightarrow> unit option \<Rightarrow> verdict prog" where
  "getrlimit_013 = getrlimit_body
     \<lparr>resource = RLIMIT_NICE, res_str = ''RLIMIT_NICE'', expect_result = TEST_GETRLIMIT_FAILUER, expect_errno = ENOSYS, errno_str = ''ENOSYS''\<rparr>"

definition getrlimit_014 :: "int \<Rightarrow> unit option \<Rightarrow> verdict prog" where
  "getrlimit_014 = getrlimit_body
     \<lparr>resource = RLIMIT_RTPRIO, res_str = ''RLIMIT_RTPRIO'', expect_result = TEST_GETRLIMIT_FAILUER, expect_errno = ENOSYS, errno_str = ''ENOSYS''\<rparr>"

definition getrlimit_015 :: "int \<Rightarrow> unit option \<Rightarrow> verdict prog" where
  "getrlimit_015 = getrlimit_errno_body
     \<lparr>resource = RLIMIT_NLIMITS, res_str = ''RLIMIT_NLIMITS'', expect_result = TEST_GETRLIMIT_FAILUER, expect_errno = ENOSYS, errno_str = ''ENOSYS''\<rparr>"

definition getrlimit_016 :: "int \<Rightarrow> unit option \<Rightarrow> verdict prog" where
  "getrlimit_016 = getrlimit_body
     \<lparr>resource = RLIMIT_NPROC, res_str = ''RLIMIT_NPROC'', expect_result = TEST_GETRLIMIT_SUCCESS, expect_errno = 0, errno_str = ''0''\<rparr>"

definition getrlimit_017_tc :: "getrlimit_tc list" where
  "getrlimit_017_tc =
     [\<lparr>resource = RLIMIT_AS, res_str = ''RLIMIT_AS'', expect_result = TEST_GETRLIMIT_SUCCESS, expect_errno = 0, errno_str = ''0''\<rparr>,
      \<lparr>resource = RLIMIT_CORE, res_str = ''RLIMIT_CORE'', expect_result = TEST_GETRLIMIT_SUCCESS, expect_errno = 0, errno_str = ''0''\<rparr>,
      \<lparr>resource = RLIMIT_CPU, res_str = ''RLIMIT_CPU'', expect_result = TEST_GETRLIMIT_SUCCESS, expect_errno = 0, errno_str = ''0''\<rparr>,
      \<lparr>resource = RLIMIT_DATA, res_str = ''RLIMIT_DATA'', expect_result = TEST_GETRLIMIT_SUCCESS, expect_errno = 0, errno_str = ''0''\<rparr>,
      \<lparr>resource = RLIMIT_FSIZE, res_str = ''RLIMIT_FSIZE'', expect_result = TEST_GETRLIMIT_SUCCESS, expect_errno = 0, errno_str = ''0''\<rparr>,
      \<lparr>resource = RLIMIT_LOCKS, res_str = ''RLIMIT_LOCKS'', expect_result = TEST_GETRLIMIT_SUCCESS, expect_errno = 0, errno_str = ''0''\<rparr>,
      \<lparr>resource = RLIMIT_MEMLOCK, res_str = ''RLIMIT_MEMLOCK'', expect_result = TEST_GETRLIMIT_SUCCESS, expect_errno = 0, errno_str = ''0''\<rparr>,
      \<lparr>resource = RLIMIT_MSGQUEUE, res_str = ''RLIMIT_MSGQUEUE'', expect_result = TEST_GETRLIMIT_SUCCESS, expect_errno = 0, errno_str = ''0''\<rparr>,
      \<lparr>resource = RLIMIT_NICE, res_str = ''RLIMIT_NICE'', expect_result = TEST_GETRLIMIT_SUCCESS, expect_errno = 0, errno_str = ''0''\<rparr>,
      \<lparr>resource = RLIMIT_NOFILE, res_str = ''RLIMIT_NOFILE'', expect_result = TEST_GETRLIMIT_SUCCESS, expect_errno = 0, errno_str = ''0''\<rparr>,
      \<lparr>resource = RLIMIT_NPROC, res_str = ''RLIMIT_NPROC'', expect_result = TEST_GETRLIMIT_SUCCESS, expect_errno = 0, errno_str = ''0''\<rparr>,
      \<lparr>resource = RLIMIT_RSS, res_str = ''RLIMIT_RSS'', expect_result = TEST_GETRLIMIT_SUCCESS, expect_errno = 0, errno_str = ''0''\<rparr>,
      \<lparr>resource = RLIMIT_RTPRIO, res_str = ''RLIMIT_RTPRIO'', expect_result = TEST_GETRLIMIT_SUCCESS, expect_errno = 0, errno_str = ''0''\<rparr>,
      \<lparr>resource = RLIMIT_SIGPENDING, res_str = ''RLIMIT_SIGPENDING'', expect_result = TEST_GETRLIMIT_SUCCESS, expect_errno = 0, errno_str = ''0''\<rparr>,
      \<lparr>resource = RLIMIT_STACK, res_str = ''RLIMIT_STACK'', expect_result = TEST_GETRLIMIT_SUCCESS, expect_errno = 0, errno_str = ''0''\<rparr>]"

definition getrlimit_017 :: "u64 \<Rightarrow> u64 \<Rightarrow> int \<Rightarrow> unit option \<Rightarrow> verdict prog" where
  "getrlimit_017 cur mx tc_num tc_arg =
     tp_assert (0 \<le> tc_num) ''invalid tp number.'' (
     getrlimit_loop getrlimit_017_tc cur mx 0 (\<lambda>failed.
     tp_assert (failed = 0) ''getrlimit failed.'' (Return None)))"

definition getrlimit_018 :: "int \<Rightarrow> unit option \<Rightarrow> verdict prog" where
  "getrlimit_018 = getrlimit_errno_body
     \<lparr>resource = RLIMIT_NLIMITS, res_str = ''RLIMIT_NLIMITS'', expect_result = TEST_GETRLIMIT_FAILUER, expect_errno = EINVAL, errno_str = ''EINVAL''\<rparr>"

subsection \<open>setrlimit\<close>

definition setrlimit_body :: "u64 \<Rightarrow> int \<Rightarrow> string \<Rightarrow> int \<Rightarrow> unit option \<Rightarrow> verdict prog" where
  "setrlimit_body set_cur res res_name tc_num tc_arg =
     getrlimit_call res (\<lambda>result (org_cur, org_max).
     tp_assert (result = 0) ''getrlimit failed.'' (
     (let set_max = org_max in
      sys_int (Rlim (Setrlimit res set_cur set_max)) (\<lambda>result.
      tp_assert (result = 0) ''setrlimit failed.'' (
      getrlimit_call res (\<lambda>result (cmp_cur, cmp_max).
      tp_assert (result = 0) ''getrlimit failed.'' (
      Printf ''  getrlimit(%s, %lx, %lx)\<newline>'' [FStr res_name, FInt (uint org_cur), FInt (uint org_max)] (
      Printf ''  setrlimit(%s, %lx, %lx)\<newline>'' [FStr res_name, FInt (uint set_cur), FInt (uint set_max)] (
      Printf ''  getrlimit(%s, %lx, %lx)\<newline>'' [FStr res_name, FInt (uint cmp_cur), FInt (uint cmp_max)] (
      tp_assert (set_cur = cmp_cur) ''setrlimit failed, rlim_cur not set.'' (
      tp_assert (set_max = cmp_max) ''setrlimit failed, rlim_max not set.'' (
      sys_int (Rlim (Setrlimit res org_cur org_max)) (\<lambda>result.
      tp_assert (result = 0) ''setrlimit failed.'' (
      Return None))))))))))))))"

definition setrlimit_000 :: "int \<Rightarrow> unit option \<Rightarrow> verdict prog" where
  "setrlimit_000 = setrlimit_body 0x80000000 RLIMIT_AS ''RLIMIT_AS''"

definition setrlimit_001 :: "int \<Rightarrow> unit option \<Rightarrow> verdict prog" where
  "setrlimit_001 = setrlimit_body 0x90000000 RLIMIT_CORE ''RLIMIT_CORE''"

definition setrlimit_002 :: "int \<Rightarrow> unit option \<Rightarrow> verdict prog" where
  "setrlimit_002 = setrlimit_body 0xa0000000 RLIMIT_CPU ''RLIMIT_CPU''"

definition setrlimit_003 :: "int \<Rightarrow> unit option \<Rightarrow> verdict prog" where
  "setrlimit_003 = setrlimit_body 0xb0000000 RLIMIT_DATA ''RLIMIT_DATA''"

definition setrlimit_004 :: "int \<Rightarrow> unit option \<Rightarrow> verdict prog" where
  "setrlimit_004 = setrlimit_body 0xc0000000 RLIMIT_FSIZE ''RLIMIT_FSIZE''"

definition setrlimit_005 :: "int \<Rightarrow> unit option \<Rightarrow> verdict prog" where
  "setrlimit_005 = setrlimit_body 0xd0000000 RLIMIT_LOCKS ''RLIMIT_LOCKS''"

definition setrlimit_006 :: "int \<Rightarrow> unit option \<Rightarrow> verdict prog" where
  "setrlimit_006 = setrlimit_body 0xa000 RLIMIT_MEMLOCK ''RLIMIT_MEMLOCK''"

definition setrlimit_007 :: "int \<Rightarrow> unit option \<Rightarrow> verdict prog" where
  "setrlimit_007 = setrlimit_body 0xb000 RLIMIT_MSGQUEUE ''RLIMIT_MSGQUEUE''"

definition setrlimit_008 :: "int \<Rightarrow> unit option \<Rightarrow> verdict prog" where
  "setrlimit_008 = setrlimit_body 0 RLIMIT_NICE ''RLIMIT_NICE''"

definition setrlimit_009 :: "int \<Rightarrow> unit option \<Rightarrow> verdict prog" where
  "setrlimit_009 = setrlimit_body 0x600 RLIMIT_NOFILE ''RLIMIT_NOFILE''"

definition setrlimit_010 :: "int \<Rightarrow> unit option \<Rightarrow> verdict prog" where
  "setrlimit_010 = setrlimit_body 0x700 RLIMIT_NPROC ''RLIMIT_NPROC''"

definition setrlimit_011 :: "int \<Rightarrow> unit option \<Rightarrow> verdict prog" where
  "setrlimit_011 = setrlimit_body 0xe0000000 RLIMIT_RSS ''RLIMIT_RSS''"

definition setrlimit_012 :: "int \<Rightarrow> unit option \<Rightarrow> verdict prog" where
  "setrlimit_012 = setrlimit_body 0 RLIMIT_RTPRIO ''RLIMIT_RTPRIO''"

definition setrlimit_013 :: "int \<Rightarrow> unit option \<Rightarrow> verdict prog" where
  "setrlimit_013 = setrlimit_body 0x100 RLIMIT_SIGPENDING ''RLIMIT_SIGPENDING''"

definition setrlimit_014 :: "int \<Rightarrow> unit option \<Rightarrow> verdict prog" where
  "setrlimit_014 = setrlimit_body 0x800000 RLIMIT_STACK ''RLIMIT_STACK''"

definition setrlimit_015 :: "int \<Rightarrow> unit option \<Rightarrow> verdict prog" where
  "setrlimit_015 tc_num tc_arg =
     getrlimit_call RLIMIT_SIGPENDING (\<lambda>result (org_cur, org_max).
     tp_assert (result = 0) ''getrlimit failed.'' (
     (let set_cur = 0xffffffffffffffff; set_max = org_max in
      tp_assert (set_max < set_cur) ''rlim_cur is less than rlim_max'' (
      sys_int (Rlim (Setrlimit RLIMIT_SIGPENDING set_cur set_max)) (\<lambda>result.
      Errno (\<lambda>e. Printf ''setrlimit() = %d, errno = %d\<newline>'' [FInt result, FInt e] (
      tp_assert (result \<noteq> 0) ''setrlimit why successed ?'' (
      Errno (\<lambda>e. tp_assert (e = EINVAL) ''setrlimit errno is not EINVAL'' (
      Return None))))))))))"

subsection \<open>The test cases\<close>

definition rlimit_case :: "string \<Rightarrow> int \<times> (int \<Rightarrow> unit option \<Rightarrow> verdict prog) \<Rightarrow> unit option test_case" where
  "rlimit_case suite c =
     \<lparr>test_suite = suite, num = fst c, tc_setup = SETUP_EMPTY, tc_run = snd c, tc_teardown = TEARDOWN_EMPTY\<rparr>"

definition setrlimit_runs :: "(int \<times> (int \<Rightarrow> unit option \<Rightarrow> verdict prog)) list" where
  "setrlimit_runs =
     [(0, setrlimit_000), (1, setrlimit_001), (2, setrlimit_002), (3, setrlimit_003),
      (4, setrlimit_004), (5, setrlimit_005), (6, setrlimit_006), (7, setrlimit_007),
      (8, setrlimit_008), (9, setrlimit_009), (10, setrlimit_010), (11, setrlimit_011),
      (12, setrlimit_012), (13, setrlimit_013), (14, setrlimit_014), (15, setrlimit_015)]"

definition getrlimit_runs :: "u64 \<Rightarrow> u64 \<Rightarrow> (int \<times> (int \<Rightarrow> unit option \<Rightarrow> verdict prog)) list" where
  "getrlimit_runs cur mx =
     [(0, getrlimit_000), (1, getrlimit_001), (2, getrlimit_002), (3, getrlimit_003),
      (4, getrlimit_004), (5, getrlimit_005), (6, getrlimit_006), (7, getrlimit_007),
      (8, getrlimit_008), (9, getrlimit_009), (10, getrlimit_010), (11, getrlimit_011),
      (12, getrlimit_012), (13, getrlimit_013), (14, getrlimit_014), (15, getrlimit_015),
      (16, getrlimit_016), (17, getrlimit_017 cur mx), (18, getrlimit_018)]"

definition setrlimit_cases :: "unit option test_case list" where
  "setrlimit_cases = map (rlimit_case ''setrlimit'') setrlimit_runs"

definition getrlimit_cases :: "u64 \<Rightarrow> u64 \<Rightarrow> unit option test_case list" where
  "getrlimit_cases cur mx = map (rlimit_case ''getrlimit'') (getrlimit_runs cur mx)"

subsection \<open>What the cases of setrlimit establish\<close>

lemma exec_getrlimit_call:
  assumes "conforms_rlim K view" "rlim_valid res"
  shows "exec K (getrlimit_call res k) p =
     exec K (k 0 (rlim_cur (rlim_of (view (kst p)) res), rlim_max (rlim_of (view (kst p)) res)))
       (p\<lparr>kst := snd (k_sys K (Rlim (Getrlimit res)) (kst p))\<rparr>)"
  using assms by (simp add: getrlimit_call_def exec_simps conforms_rlimD oval_u64_def)

text \<open>
  The set, read back and restore sequence, on a kernel with the documented behaviour: the request
  is granted when it is within the hard limit, and the limits end as they began on every branch.
\<close>

definition rlims_wf :: "rlims \<Rightarrow> bool" where
  "rlims_wf l \<longleftrightarrow> (\<forall>res \<in> {0..<16}. rlim_cur (rlim_of l res) \<le> rlim_max (rlim_of l res))"

lemma rlims_restore [simp]:
  "l\<lparr>rlim_of := (rlim_of l)(res := \<lparr>rlim_cur = rlim_cur (rlim_of l res), rlim_max = rlim_max (rlim_of l res)\<rparr>)\<rparr> = l"
  by (cases "rlim_of l res") (cases l, auto)

lemma exec_setrlimit_body:
  assumes K: "conforms_rlim K view" and res: "rlim_valid res" and wf: "rlims_wf (view (kst p))"
  shows "\<exists>p'. exec K (setrlimit_body cur res name tc_num a) p =
       (Returned (if cur \<le> rlim_max (rlim_of (view (kst p)) res) then None else Some ''setrlimit failed.''), p') \<and>
     view (kst p') = view (kst p)"
proof -
  have "rlim_cur (rlim_of (view (kst p)) res) \<le> rlim_max (rlim_of (view (kst p)) res)"
    using wf res by (auto simp: rlims_wf_def rlim_valid_def)
  then show ?thesis
    by (auto simp: setrlimit_body_def tp_assert_def exec_simps res exec_getrlimit_call [OF K] conforms_rlimD [OF K] not_le Let_def)
qed

lemma exec_setrlimit_015:
  assumes K: "conforms_rlim K view"
  shows "\<exists>p'. exec K (setrlimit_015 tc_num a) p =
       (Returned (if rlim_max (rlim_of (view (kst p)) RLIMIT_SIGPENDING) < 0xffffffffffffffff then None
                  else Some ''rlim_cur is less than rlim_max''), p') \<and>
     view (kst p') = view (kst p)"
proof -
  have "rlim_valid RLIMIT_SIGPENDING" by (simp add: rlim_valid_def)
  then show ?thesis
    by (auto simp: setrlimit_015_def tp_assert_def exec_simps exec_getrlimit_call [OF K] conforms_rlimD [OF K] not_le Let_def)
qed

lemmas setrlimit_defs =
  setrlimit_000_def setrlimit_001_def setrlimit_002_def setrlimit_003_def setrlimit_004_def
  setrlimit_005_def setrlimit_006_def setrlimit_007_def setrlimit_008_def setrlimit_009_def
  setrlimit_010_def setrlimit_011_def setrlimit_012_def setrlimit_013_def setrlimit_014_def

text \<open>The resource and the soft limit that each case of \<^verbatim>\<open>setrlimit\<close> asks for.\<close>

definition setrlimit_request :: "int \<Rightarrow> int \<times> u64" where
  "setrlimit_request n =
     [(9, 0x80000000), (4, 0x90000000), (0, 0xa0000000), (2, 0xb0000000), (1, 0xc0000000), (10, 0xd0000000),
      (8, 0xa000), (12, 0xb000), (13, 0), (7, 0x600), (6, 0x700), (5, 0xe0000000), (14, 0), (11, 0x100),
      (3, 0x800000)] ! nat n"

definition setrlimit_granted :: "int \<Rightarrow> rlims \<Rightarrow> bool" where
  "setrlimit_granted n l =
     (if n = 15 then rlim_max (rlim_of l RLIMIT_SIGPENDING) < 0xffffffffffffffff
      else (case setrlimit_request n of (res, cur) \<Rightarrow> cur \<le> rlim_max (rlim_of l res)))"

lemma setrlimit_run_correct:
  fixes K :: "'s kernel"
  assumes K: "conforms_rlim K view" and wf: "rlims_wf (view (kst p))"
    and c: "(n, run) \<in> set setrlimit_runs"
  shows "\<exists>v p'. exec K (run n a) p = (Returned v, p') \<and>
     (v = None \<longleftrightarrow> setrlimit_granted n (view (kst p))) \<and> view (kst p') = view (kst p)"
proof -
  let ?l = "view (kst p)"
  consider "n = 15" "run = setrlimit_015"
    | cur res name where "run = setrlimit_body cur res name" "rlim_valid res" "n \<noteq> 15" "setrlimit_request n = (res, cur)"
    using c unfolding setrlimit_runs_def
    by (auto simp: setrlimit_defs setrlimit_request_def rlim_valid_def)
  then show ?thesis
  proof cases
    case 1
    then show ?thesis
      using exec_setrlimit_015 [OF K, of n a p] by (auto simp: setrlimit_granted_def)
  next
    case 2
    then show ?thesis
      using exec_setrlimit_body [OF K 2(2) wf, of cur name n a] by (auto simp: setrlimit_granted_def)
  qed
qed

text \<open>
  C17. Every case of the suite \<^verbatim>\<open>setrlimit\<close>, on a kernel with the documented behaviour whose soft
  limits are within the hard limits, returns; it passes exactly when the soft limit it asks for is
  within the hard limit of its resource (case 15: when the hard limit is below the value it uses as
  one that must be refused), and it leaves every limit as it was, whether it passes or not.
\<close>

theorem setrlimit_suite_correct:
  fixes K :: "'s kernel"
  assumes "conforms_rlim K view" and "rlims_wf (view (kst p))"
    and "(n, run) \<in> set setrlimit_runs"
  shows "\<exists>v p'. exec K (run n a) p = (Returned v, p') \<and>
     (v = None \<longleftrightarrow> setrlimit_granted n (view (kst p))) \<and> view (kst p') = view (kst p)"
  using assms by (rule setrlimit_run_correct)

theorem setrlimit_suite_correct_witness:
  "fst (exec ref_kernel (setrlimit_009 9 None) init_process) = Returned None"
proof -
  have "rlims_wf (w_rlims (kst init_process))"
    by (simp add: rlims_wf_def init_process_def init_world_def)
  from setrlimit_suite_correct [OF ref_conforms_rlim this, of 9 setrlimit_009 None]
  show ?thesis
    by (auto simp: setrlimit_runs_def setrlimit_granted_def setrlimit_request_def init_process_def init_world_def)
qed

subsection \<open>What the cases of getrlimit establish\<close>

lemmas getrlimit_defs =
  getrlimit_body_def getrlimit_errno_body_def getrlimit_000_def getrlimit_001_def getrlimit_002_def
  getrlimit_003_def getrlimit_004_def getrlimit_005_def getrlimit_006_def getrlimit_007_def
  getrlimit_008_def getrlimit_009_def getrlimit_010_def getrlimit_011_def getrlimit_012_def
  getrlimit_013_def getrlimit_014_def getrlimit_015_def getrlimit_016_def getrlimit_018_def

lemma exec_getrlimit_loop:
  assumes K: "conforms_rlim K view"
    and tcs: "\<forall>tc \<in> set tcs. rlim_valid (resource tc) \<and> expect_result tc = 0"
    and l: "view (kst p) = l"
  shows "\<exists>p'. exec K (getrlimit_loop tcs cur mx failed k) p = exec K (k failed) p' \<and> view (kst p') = l"
  using tcs l
  by (induction tcs arbitrary: cur mx p) (auto simp: exec_simps conforms_rlimD [OF K] Let_def)

lemma exec_getrlimit_017:
  assumes K: "conforms_rlim K view" and n: "0 \<le> n"
  shows "\<exists>p'. exec K (getrlimit_017 cur mx n a) p = (Returned None, p') \<and> view (kst p') = view (kst p)"
proof -
  have "\<forall>tc \<in> set getrlimit_017_tc. rlim_valid (resource tc) \<and> expect_result tc = 0"
    by (simp add: getrlimit_017_tc_def rlim_valid_def)
  from exec_getrlimit_loop [OF K this refl, where k = "\<lambda>failed. tp_assert (failed = 0) ''getrlimit failed.'' (Return None)" and failed = 0]
  show ?thesis using n by (simp add: getrlimit_017_def tp_assert_def)
qed

definition getrlimit_expected :: "int \<Rightarrow> verdict" where
  "getrlimit_expected n =
     (if n \<in> {1, 3, 6, 10, 16, 17, 18} then None
      else if n = 15 then Some ''getrlimit failed. (errno different)''
      else Some ''getrlimit failed.'')"

text \<open>
  C27. The verdict of every case of the suite \<^verbatim>\<open>getrlimit\<close> on a kernel with the documented
  behaviour: the cases 1, 3, 6, 10, 16, 17 and 18 pass; the others, whose tables expect
  \<^verbatim>\<open>getrlimit\<close> to fail with \<^verbatim>\<open>ENOSYS\<close>, fail with the stated message. No case changes a
  limit. The result does not depend on the uninitialised \<^verbatim>\<open>rlim\<close> of case 17.
\<close>

theorem getrlimit_suite_verdicts:
  fixes K :: "'s kernel"
  assumes K: "conforms_rlim K view" and n: "0 \<le> tc_num"
    and c: "(n, run) \<in> set (getrlimit_runs cur mx)"
  shows "\<exists>p'. exec K (run tc_num a) p = (Returned (getrlimit_expected n), p') \<and> view (kst p') = view (kst p)"
  using c n exec_getrlimit_017 [OF K n, of cur mx a p] unfolding getrlimit_runs_def
  by (simp, elim disjE; clarsimp simp: getrlimit_defs tp_assert_def exec_simps conforms_rlimD [OF K] rlim_valid_def
      getrlimit_expected_def Let_def)

theorem getrlimit_suite_verdicts_witness:
  "fst (exec ref_kernel (getrlimit_017 7 8 17 None) init_process) = Returned None \<and>
   fst (exec ref_kernel (getrlimit_009 9 None) init_process) = Returned (Some ''getrlimit failed.'')"
  using getrlimit_suite_verdicts [OF ref_conforms_rlim, of 17 17 "getrlimit_017 7 8" 7 8 None init_process]
    getrlimit_suite_verdicts [OF ref_conforms_rlim, of 9 9 "getrlimit_009" 7 8 None init_process]
  by (auto simp: getrlimit_runs_def getrlimit_expected_def)

text \<open>
  C28. The suite \<^verbatim>\<open>getrlimit\<close> has cases that exclude each other on every kernel: from one state, 7 and
  16 cannot both pass, as they expect opposite results of \<^verbatim>\<open>getrlimit(RLIMIT_NPROC)\<close>, nor can 15 and 18,
  as they expect different error numbers of \<^verbatim>\<open>getrlimit(RLIMIT_NLIMITS)\<close>.
\<close>

theorem getrlimit_suite_contradictory:
  "\<not> (fst (exec K (getrlimit_007 n a) p) = Returned None \<and> fst (exec K (getrlimit_016 m b) p) = Returned None) \<and>
   \<not> (fst (exec K (getrlimit_015 n a) p) = Returned None \<and> fst (exec K (getrlimit_018 m b) p) = Returned None)"
  by (auto simp: getrlimit_defs passes_tp_assert exec_simps Let_def split: sysres.splits if_splits)

end
