(* ===== verification/Sched_Suites.thy ===== *)
theory Sched_Suites
  imports Test_Mck
begin

text \<open>
  The suites \<^verbatim>\<open>sched_setparam\<close>, \<^verbatim>\<open>sched_getparam\<close>, \<^verbatim>\<open>sched_setscheduler\<close>,
  \<^verbatim>\<open>sched_getscheduler\<close>, \<^verbatim>\<open>sched_get_priority_max\<close>, \<^verbatim>\<open>sched_get_priority_min\<close> and
  \<^verbatim>\<open>sched_rr_get_interval\<close>. The files of a suite have one body and differ in the policy, the
  priorities, and whether a call names the process by its identifier or by 0: the argument
  \<^verbatim>\<open>who\<close> turns the identifier into what the file passes.
\<close>

subsection \<open>Wrappers\<close>

definition getpid :: "(int \<Rightarrow> 'a prog) \<Rightarrow> 'a prog" where
  "getpid k = sys_int (Proc Getpid) k"

definition oval_int :: "oval \<Rightarrow> int" where
  "oval_int x = (case x of OInt i \<Rightarrow> i | OStr _ \<Rightarrow> 0)"

text \<open>Each call is followed by a line with its arguments, its result and \<^verbatim>\<open>errno\<close>.\<close>

definition print_status :: "string \<Rightarrow> fmtarg list \<Rightarrow> int \<Rightarrow> 'a prog \<Rightarrow> 'a prog" where
  "print_status fmt args status k = Errno (\<lambda>e. Printf fmt (args @ [FInt status, FInt e]) k)"

definition do_setscheduler :: "int \<Rightarrow> int \<Rightarrow> string \<Rightarrow> int \<Rightarrow> string \<Rightarrow> verdict prog \<Rightarrow> verdict prog" where
  "do_setscheduler pid pol pol_name sched_priority param k =
     sys_int (Sched (Sched_setscheduler pid pol sched_priority)) (\<lambda>status.
     print_status (''sched_setscheduler(%d, '' @ pol_name @ '', %p) = %d, errno = %d\<newline>'')
       [FInt pid, FAddr param] status (
     tp_assert (status \<noteq> - 1) ''sched_setscheduler() failed.'' k))"

definition do_setparam :: "int \<Rightarrow> int \<Rightarrow> verdict prog \<Rightarrow> verdict prog" where
  "do_setparam pid sched_priority k =
     sys_int (Sched (Sched_setparam pid sched_priority)) (\<lambda>status.
     print_status ''sched_setparam(%d, %p) = %d, errno = %d\<newline>'' [FInt pid, FAddr ''set_param''] status (
     tp_assert (status \<noteq> - 1) ''sched_setparam() failed.'' k))"

definition do_getparam :: "int \<Rightarrow> int \<Rightarrow> (int \<Rightarrow> verdict prog) \<Rightarrow> verdict prog" where
  "do_getparam pid get_param k =
     sys_out (Sched (Sched_getparam pid)) [OInt get_param] (\<lambda>status os.
     print_status ''sched_getparam(%d, %p) = %d, errno = %d\<newline>'' [FInt pid, FAddr ''get_param''] status (
     tp_assert (status \<noteq> - 1) ''sched_getparam() failed.'' (k (oval_int (os ! 0)))))"

definition do_getscheduler :: "int \<Rightarrow> (int \<Rightarrow> verdict prog) \<Rightarrow> verdict prog" where
  "do_getscheduler pid k =
     sys_int (Sched (Sched_getscheduler pid)) (\<lambda>policy.
     print_status ''sched_getscheduler(%d) = %d, errno = %d\<newline>'' [FInt pid] policy (k policy))"

lemmas sched_call_defs =
  getpid_def oval_int_def print_status_def do_setscheduler_def do_setparam_def do_getparam_def do_getscheduler_def

subsection \<open>The bodies\<close>

definition sched_setparam_body :: "(int \<Rightarrow> int) \<Rightarrow> int \<Rightarrow> string \<Rightarrow> int \<Rightarrow> int \<Rightarrow> int \<Rightarrow> unit option \<Rightarrow> verdict prog" where
  "sched_setparam_body who pol pol_name dummy_param set_param tc_num tc_arg =
     getpid (\<lambda>pid.
     do_setscheduler pid pol pol_name dummy_param ''dummy_param'' (
     do_setparam (who pid) set_param (
     do_getparam pid 0 (\<lambda>get_param.
     tp_assert (set_param = get_param) ''sched_setparam() failed.'' (
     Return None)))))"

definition sched_getparam_body :: "(int \<Rightarrow> int) \<Rightarrow> int \<Rightarrow> string \<Rightarrow> int \<Rightarrow> int \<Rightarrow> int \<Rightarrow> unit option \<Rightarrow> verdict prog" where
  "sched_getparam_body who pol pol_name dummy_param set_param tc_num tc_arg =
     getpid (\<lambda>pid.
     do_getparam (who pid) 0 (\<lambda>get_param.
     tp_assert (get_param = 0) ''sched_getparam() failed.'' (
     do_setscheduler pid pol pol_name dummy_param ''dummy_param'' (
     do_getparam (who pid) get_param (\<lambda>get_param.
     tp_assert (get_param = dummy_param) ''sched_getparam() failed.'' (
     do_setparam pid set_param (
     do_getparam (who pid) get_param (\<lambda>get_param.
     tp_assert (set_param = get_param) ''sched_setparam() failed.'' (
     Return None)))))))))"

definition sched_setscheduler_body :: "(int \<Rightarrow> int) \<Rightarrow> int \<Rightarrow> string \<Rightarrow> int \<Rightarrow> int \<Rightarrow> unit option \<Rightarrow> verdict prog" where
  "sched_setscheduler_body who pol pol_name set_param tc_num tc_arg =
     getpid (\<lambda>pid.
     do_setscheduler (who pid) pol pol_name set_param ''set_param'' (
     do_getscheduler pid (\<lambda>policy.
     tp_assert (policy = pol) ''sched_getscheduler() failed.'' (
     do_getparam pid 0 (\<lambda>get_param.
     tp_assert (set_param = get_param) ''sched_setscheduler() failed.'' (
     Return None))))))"

definition sched_getscheduler_body :: "(int \<Rightarrow> int) \<Rightarrow> int \<Rightarrow> unit option \<Rightarrow> verdict prog" where
  "sched_getscheduler_body who tc_num tc_arg =
     getpid (\<lambda>pid.
     do_getscheduler (who pid) (\<lambda>before_policy.
     tp_assert (before_policy \<noteq> - 1) ''sched_getscheduler() failed.'' (
     do_setscheduler pid SCHED_RR ''SCHED_RR'' 80 ''set_param'' (
     do_getscheduler (who pid) (\<lambda>after_policy.
     tp_assert (before_policy \<noteq> after_policy) ''sched_getscheduler() failed.'' (
     Return None))))))"

definition sched_get_priority_max_body :: "int \<Rightarrow> string \<Rightarrow> int \<Rightarrow> int \<Rightarrow> unit option \<Rightarrow> verdict prog" where
  "sched_get_priority_max_body pol pol_name expected tc_num tc_arg =
     sys_int (Sched (Sched_get_priority_max pol)) (\<lambda>priority.
     print_status (''sched_get_priority_max('' @ pol_name @ '') = %d, errno = %d\<newline>'') [] priority (
     tp_assert (priority = expected) ''sched_get_priority_max() failed.'' (
     Return None)))"

definition sched_get_priority_min_body :: "int \<Rightarrow> string \<Rightarrow> int \<Rightarrow> int \<Rightarrow> unit option \<Rightarrow> verdict prog" where
  "sched_get_priority_min_body pol pol_name expected tc_num tc_arg =
     sys_int (Sched (Sched_get_priority_min pol)) (\<lambda>priority.
     print_status (''sched_get_priority_min('' @ pol_name @ '') = %d, errno = %d\<newline>'') [] priority (
     tp_assert (priority = expected) ''sched_get_priority_min() failed.'' (
     Return None)))"

definition sched_rr_get_interval_body ::
  "(int \<Rightarrow> int) \<Rightarrow> int \<Rightarrow> string \<Rightarrow> int \<Rightarrow> int \<Rightarrow> int \<Rightarrow> int \<Rightarrow> unit option \<Rightarrow> verdict prog" where
  "sched_rr_get_interval_body who pol pol_name set_param sec nsec tc_num tc_arg =
     getpid (\<lambda>pid.
     do_setscheduler pid pol pol_name set_param ''set_param'' (
     sys_out (Sched (Sched_rr_get_interval (who pid))) [OInt (- 1), OInt (- 1)] (\<lambda>status os.
     (let tv_sec = oval_int (os ! 0); tv_nsec = oval_int (os ! 1) in
      print_status ''sched_rr_get_interval(%d, %p) = %d, errno = %d\<newline>'' [FInt (who pid), FAddr ''time''] status (
      Printf ''  time.tv_sec = %ld, time.tv_nsec = %ld\<newline>'' [FInt tv_sec, FInt tv_nsec] (
      tp_assert (status \<noteq> - 1) ''sched_rr_get_interval() failed.'' (
      tp_assert (tv_sec = sec) ''sched_rr_get_interval() failed.'' (
      tp_assert (tv_nsec = nsec) ''sched_rr_get_interval() failed.'' (
      Return None)))))))))"

subsection \<open>The cases\<close>

definition sched_setparam_000 :: "int \<Rightarrow> unit option \<Rightarrow> verdict prog" where
  "sched_setparam_000 = sched_setparam_body (\<lambda>pid. pid) SCHED_RR ''SCHED_RR'' 50 80"

definition sched_setparam_001 :: "int \<Rightarrow> unit option \<Rightarrow> verdict prog" where
  "sched_setparam_001 = sched_setparam_body (\<lambda>pid. 0) SCHED_RR ''SCHED_RR'' 50 80"

definition sched_setparam_002 :: "int \<Rightarrow> unit option \<Rightarrow> verdict prog" where
  "sched_setparam_002 = sched_setparam_body (\<lambda>pid. pid) SCHED_FIFO ''SCHED_FIFO'' 60 90"

definition sched_setparam_runs :: "(int \<times> (int \<Rightarrow> unit option \<Rightarrow> verdict prog)) list" where
  "sched_setparam_runs =
     [(0, sched_setparam_000),
      (1, sched_setparam_001),
      (2, sched_setparam_002)]"

lemmas sched_setparam_defs =
  sched_setparam_runs_def sched_setparam_body_def
  sched_setparam_000_def sched_setparam_001_def sched_setparam_002_def

definition sched_getparam_000 :: "int \<Rightarrow> unit option \<Rightarrow> verdict prog" where
  "sched_getparam_000 = sched_getparam_body (\<lambda>pid. pid) SCHED_RR ''SCHED_RR'' 50 80"

definition sched_getparam_001 :: "int \<Rightarrow> unit option \<Rightarrow> verdict prog" where
  "sched_getparam_001 = sched_getparam_body (\<lambda>pid. 0) SCHED_RR ''SCHED_RR'' 50 80"

definition sched_getparam_002 :: "int \<Rightarrow> unit option \<Rightarrow> verdict prog" where
  "sched_getparam_002 = sched_getparam_body (\<lambda>pid. pid) SCHED_FIFO ''SCHED_FIFO'' 60 90"

definition sched_getparam_runs :: "(int \<times> (int \<Rightarrow> unit option \<Rightarrow> verdict prog)) list" where
  "sched_getparam_runs =
     [(0, sched_getparam_000),
      (1, sched_getparam_001),
      (2, sched_getparam_002)]"

lemmas sched_getparam_defs =
  sched_getparam_runs_def sched_getparam_body_def
  sched_getparam_000_def sched_getparam_001_def sched_getparam_002_def

definition sched_setscheduler_000 :: "int \<Rightarrow> unit option \<Rightarrow> verdict prog" where
  "sched_setscheduler_000 = sched_setscheduler_body (\<lambda>pid. pid) SCHED_RR ''SCHED_RR'' 80"

definition sched_setscheduler_001 :: "int \<Rightarrow> unit option \<Rightarrow> verdict prog" where
  "sched_setscheduler_001 = sched_setscheduler_body (\<lambda>pid. 0) SCHED_RR ''SCHED_RR'' 80"

definition sched_setscheduler_002 :: "int \<Rightarrow> unit option \<Rightarrow> verdict prog" where
  "sched_setscheduler_002 = sched_setscheduler_body (\<lambda>pid. pid) SCHED_FIFO ''SCHED_FIFO'' 80"

definition sched_setscheduler_003 :: "int \<Rightarrow> unit option \<Rightarrow> verdict prog" where
  "sched_setscheduler_003 = sched_setscheduler_body (\<lambda>pid. pid) SCHED_OTHER ''SCHED_OTHER'' 0"

definition sched_setscheduler_004 :: "int \<Rightarrow> unit option \<Rightarrow> verdict prog" where
  "sched_setscheduler_004 = sched_setscheduler_body (\<lambda>pid. pid) SCHED_BATCH ''SCHED_BATCH'' 0"

definition sched_setscheduler_runs :: "(int \<times> (int \<Rightarrow> unit option \<Rightarrow> verdict prog)) list" where
  "sched_setscheduler_runs =
     [(0, sched_setscheduler_000),
      (1, sched_setscheduler_001),
      (2, sched_setscheduler_002),
      (3, sched_setscheduler_003),
      (4, sched_setscheduler_004)]"

lemmas sched_setscheduler_defs =
  sched_setscheduler_runs_def sched_setscheduler_body_def
  sched_setscheduler_000_def sched_setscheduler_001_def sched_setscheduler_002_def sched_setscheduler_003_def sched_setscheduler_004_def

definition sched_getscheduler_000 :: "int \<Rightarrow> unit option \<Rightarrow> verdict prog" where
  "sched_getscheduler_000 = sched_getscheduler_body (\<lambda>pid. pid)"

definition sched_getscheduler_001 :: "int \<Rightarrow> unit option \<Rightarrow> verdict prog" where
  "sched_getscheduler_001 = sched_getscheduler_body (\<lambda>pid. 0)"

definition sched_getscheduler_runs :: "(int \<times> (int \<Rightarrow> unit option \<Rightarrow> verdict prog)) list" where
  "sched_getscheduler_runs =
     [(0, sched_getscheduler_000),
      (1, sched_getscheduler_001)]"

lemmas sched_getscheduler_defs =
  sched_getscheduler_runs_def sched_getscheduler_body_def
  sched_getscheduler_000_def sched_getscheduler_001_def

definition sched_get_priority_max_000 :: "int \<Rightarrow> unit option \<Rightarrow> verdict prog" where
  "sched_get_priority_max_000 = sched_get_priority_max_body SCHED_RR ''SCHED_RR'' 99"

definition sched_get_priority_max_001 :: "int \<Rightarrow> unit option \<Rightarrow> verdict prog" where
  "sched_get_priority_max_001 = sched_get_priority_max_body SCHED_FIFO ''SCHED_FIFO'' 99"

definition sched_get_priority_max_002 :: "int \<Rightarrow> unit option \<Rightarrow> verdict prog" where
  "sched_get_priority_max_002 = sched_get_priority_max_body SCHED_OTHER ''SCHED_OTHER'' 0"

definition sched_get_priority_max_003 :: "int \<Rightarrow> unit option \<Rightarrow> verdict prog" where
  "sched_get_priority_max_003 = sched_get_priority_max_body SCHED_BATCH ''SCHED_BATCH'' 0"

definition sched_get_priority_max_runs :: "(int \<times> (int \<Rightarrow> unit option \<Rightarrow> verdict prog)) list" where
  "sched_get_priority_max_runs =
     [(0, sched_get_priority_max_000),
      (1, sched_get_priority_max_001),
      (2, sched_get_priority_max_002),
      (3, sched_get_priority_max_003)]"

lemmas sched_get_priority_max_defs =
  sched_get_priority_max_runs_def sched_get_priority_max_body_def
  sched_get_priority_max_000_def sched_get_priority_max_001_def sched_get_priority_max_002_def sched_get_priority_max_003_def

definition sched_get_priority_min_000 :: "int \<Rightarrow> unit option \<Rightarrow> verdict prog" where
  "sched_get_priority_min_000 = sched_get_priority_min_body SCHED_RR ''SCHED_RR'' 1"

definition sched_get_priority_min_001 :: "int \<Rightarrow> unit option \<Rightarrow> verdict prog" where
  "sched_get_priority_min_001 = sched_get_priority_min_body SCHED_FIFO ''SCHED_FIFO'' 1"

definition sched_get_priority_min_002 :: "int \<Rightarrow> unit option \<Rightarrow> verdict prog" where
  "sched_get_priority_min_002 = sched_get_priority_min_body SCHED_OTHER ''SCHED_OTHER'' 0"

definition sched_get_priority_min_003 :: "int \<Rightarrow> unit option \<Rightarrow> verdict prog" where
  "sched_get_priority_min_003 = sched_get_priority_min_body SCHED_BATCH ''SCHED_BATCH'' 0"

definition sched_get_priority_min_runs :: "(int \<times> (int \<Rightarrow> unit option \<Rightarrow> verdict prog)) list" where
  "sched_get_priority_min_runs =
     [(0, sched_get_priority_min_000),
      (1, sched_get_priority_min_001),
      (2, sched_get_priority_min_002),
      (3, sched_get_priority_min_003)]"

lemmas sched_get_priority_min_defs =
  sched_get_priority_min_runs_def sched_get_priority_min_body_def
  sched_get_priority_min_000_def sched_get_priority_min_001_def sched_get_priority_min_002_def sched_get_priority_min_003_def

definition sched_rr_get_interval_000 :: "int \<Rightarrow> unit option \<Rightarrow> verdict prog" where
  "sched_rr_get_interval_000 = sched_rr_get_interval_body (\<lambda>pid. pid) SCHED_RR ''SCHED_RR'' 80 0 10000"

definition sched_rr_get_interval_001 :: "int \<Rightarrow> unit option \<Rightarrow> verdict prog" where
  "sched_rr_get_interval_001 = sched_rr_get_interval_body (\<lambda>pid. 0) SCHED_RR ''SCHED_RR'' 80 0 10000"

definition sched_rr_get_interval_002 :: "int \<Rightarrow> unit option \<Rightarrow> verdict prog" where
  "sched_rr_get_interval_002 = sched_rr_get_interval_body (\<lambda>pid. pid) SCHED_FIFO ''SCHED_FIFO'' 80 0 0"

definition sched_rr_get_interval_003 :: "int \<Rightarrow> unit option \<Rightarrow> verdict prog" where
  "sched_rr_get_interval_003 = sched_rr_get_interval_body (\<lambda>pid. pid) SCHED_OTHER ''SCHED_OTHER'' 0 0 0"

definition sched_rr_get_interval_004 :: "int \<Rightarrow> unit option \<Rightarrow> verdict prog" where
  "sched_rr_get_interval_004 = sched_rr_get_interval_body (\<lambda>pid. pid) SCHED_BATCH ''SCHED_BATCH'' 0 0 0"

definition sched_rr_get_interval_runs :: "(int \<times> (int \<Rightarrow> unit option \<Rightarrow> verdict prog)) list" where
  "sched_rr_get_interval_runs =
     [(0, sched_rr_get_interval_000),
      (1, sched_rr_get_interval_001),
      (2, sched_rr_get_interval_002),
      (3, sched_rr_get_interval_003),
      (4, sched_rr_get_interval_004)]"

lemmas sched_rr_get_interval_defs =
  sched_rr_get_interval_runs_def sched_rr_get_interval_body_def
  sched_rr_get_interval_000_def sched_rr_get_interval_001_def sched_rr_get_interval_002_def sched_rr_get_interval_003_def sched_rr_get_interval_004_def

definition sched_case :: "string \<Rightarrow> int \<times> (int \<Rightarrow> unit option \<Rightarrow> verdict prog) \<Rightarrow> unit option test_case" where
  "sched_case suite c =
     \<lparr>test_suite = suite, num = fst c, tc_setup = SETUP_EMPTY, tc_run = snd c, tc_teardown = TEARDOWN_EMPTY\<rparr>"

definition sched_cases :: "unit option test_case list" where
  "sched_cases =
     map (sched_case ''sched_setparam'') sched_setparam_runs @
     map (sched_case ''sched_getparam'') sched_getparam_runs @
     map (sched_case ''sched_setscheduler'') sched_setscheduler_runs @
     map (sched_case ''sched_getscheduler'') sched_getscheduler_runs @
     map (sched_case ''sched_get_priority_max'') sched_get_priority_max_runs @
     map (sched_case ''sched_get_priority_min'') sched_get_priority_min_runs @
     map (sched_case ''sched_rr_get_interval'') sched_rr_get_interval_runs"

subsection \<open>What the cases establish\<close>

lemmas sched_spec_defs = own_def policy_valid_def prio_min_def prio_max_def

text \<open>The policy and priority that a passing case leaves the process with.\<close>

definition sched_setparam_goal :: "int \<Rightarrow> int \<times> int" where
  "sched_setparam_goal n = [(SCHED_RR, 80), (SCHED_RR, 80), (SCHED_FIFO, 90)] ! nat n"

definition sched_setscheduler_goal :: "int \<Rightarrow> int \<times> int" where
  "sched_setscheduler_goal n =
     [(SCHED_RR, 80), (SCHED_RR, 80), (SCHED_FIFO, 80), (SCHED_OTHER, 0), (SCHED_BATCH, 0)] ! nat n"

definition set_goal :: "int \<times> int \<Rightarrow> sched \<Rightarrow> sched" where
  "set_goal g s = s\<lparr>policy := fst g, prio := snd g\<rparr>"

lemma init_sched_priv: "sched_priv (sched_view (kst init_process))"
  by (simp add: sched_view_def init_process_def init_world_def)

text \<open>
  C19. Every case of \<^verbatim>\<open>sched_setparam\<close>, on a kernel with the documented behaviour, passes in a privileged
  process and leaves it with the policy and priority the case set; in an unprivileged process it
  reports that \<^verbatim>\<open>sched_setscheduler\<close> failed and changes nothing.
\<close>

theorem sched_setparam_suite_correct:
  fixes K :: "'s kernel"
  assumes K: "conforms_sched K view" and c: "(n, run) \<in> set sched_setparam_runs"
  shows "\<exists>p'. let s = view (kst p) in
     (if sched_priv s
      then exec K (run n a) p = (Returned None, p') \<and> view (kst p') = set_goal (sched_setparam_goal n) s
      else exec K (run n a) p = (Returned (Some ''sched_setscheduler() failed.''), p') \<and> view (kst p') = s)"
  using c unfolding sched_setparam_defs
  by (cases "sched_priv (view (kst p))"; auto simp: sched_call_defs tp_assert_def exec_simps conforms_schedD [OF K] sched_spec_defs
      sched_setparam_goal_def set_goal_def Let_def)

theorem sched_setparam_suite_correct_witness:
  "fst (exec ref_kernel (sched_setparam_002 2 None) init_process) = Returned None \<and>
   policy (sched_view (kst (snd (exec ref_kernel (sched_setparam_002 2 None) init_process)))) = SCHED_FIFO \<and>
   prio (sched_view (kst (snd (exec ref_kernel (sched_setparam_002 2 None) init_process)))) = 90"
  using sched_setparam_suite_correct [OF ref_conforms_sched, of 2 sched_setparam_002 init_process None]
  by (auto simp: sched_setparam_runs_def sched_setparam_goal_def set_goal_def Let_def init_sched_priv)

text \<open>
  C20. Every case of \<^verbatim>\<open>sched_setscheduler\<close>, on a kernel with the documented behaviour, passes in a
  privileged process, and in any process when it asks for a policy without real-time priority, and
  leaves the process with what it asked for; otherwise it reports the failure and changes nothing.
\<close>

theorem sched_setscheduler_suite_correct:
  fixes K :: "'s kernel"
  assumes K: "conforms_sched K view" and c: "(n, run) \<in> set sched_setscheduler_runs"
  shows "\<exists>p'. let s = view (kst p) in
     (if sched_priv s \<or> snd (sched_setscheduler_goal n) = 0
      then exec K (run n a) p = (Returned None, p') \<and> view (kst p') = set_goal (sched_setscheduler_goal n) s
      else exec K (run n a) p = (Returned (Some ''sched_setscheduler() failed.''), p') \<and> view (kst p') = s)"
  using c unfolding sched_setscheduler_defs
  by (cases "sched_priv (view (kst p))"; auto simp: sched_call_defs tp_assert_def exec_simps conforms_schedD [OF K] sched_spec_defs
      sched_setscheduler_goal_def set_goal_def Let_def)

theorem sched_setscheduler_suite_correct_witness:
  "fst (exec ref_kernel (sched_setscheduler_001 1 None) init_process) = Returned None \<and>
   policy (sched_view (kst (snd (exec ref_kernel (sched_setscheduler_001 1 None) init_process)))) = SCHED_RR"
  using sched_setscheduler_suite_correct [OF ref_conforms_sched, of 1 sched_setscheduler_001 init_process None]
  by (auto simp: sched_setscheduler_runs_def sched_setscheduler_goal_def set_goal_def Let_def init_sched_priv)

lemma sched_getparam_pass_iff:
  assumes K: "conforms_sched K view" and c: "(n, run) \<in> set sched_getparam_runs"
  shows "fst (exec K (run n a) p) = Returned None \<longleftrightarrow> sched_priv (view (kst p)) \<and> prio (view (kst p)) = 0"
  using c unfolding sched_getparam_defs
  by (auto simp: sched_call_defs passes_tp_assert exec_simps conforms_schedD [OF K] sched_spec_defs split: if_splits)

lemma sched_getscheduler_pass_iff:
  assumes K: "conforms_sched K view" and c: "(n, run) \<in> set sched_getscheduler_runs"
    and ok: "policy_valid (policy (view (kst p)))"
  shows "fst (exec K (run n a) p) = Returned None \<longleftrightarrow> sched_priv (view (kst p)) \<and> policy (view (kst p)) \<noteq> SCHED_RR"
  using c ok unfolding sched_getscheduler_defs
  by (auto simp: sched_call_defs passes_tp_assert exec_simps conforms_schedD [OF K] sched_spec_defs split: if_splits)

text \<open>
  C33. On a kernel with the documented behaviour the cases of \<^verbatim>\<open>sched_getparam\<close> pass exactly in a
  privileged process that starts with priority 0, and those of \<^verbatim>\<open>sched_getscheduler\<close> exactly in a
  privileged process that does not start under \<^verbatim>\<open>SCHED_RR\<close>.
\<close>

theorem sched_get_suites_pass_iff:
  fixes K :: "'s kernel"
  assumes K: "conforms_sched K view" and ok: "policy_valid (policy (view (kst p)))"
  shows "(\<forall>(n, run) \<in> set sched_getparam_runs. fst (exec K (run n a) p) = Returned None \<longleftrightarrow>
            sched_priv (view (kst p)) \<and> prio (view (kst p)) = 0) \<and>
         (\<forall>(n, run) \<in> set sched_getscheduler_runs. fst (exec K (run n a) p) = Returned None \<longleftrightarrow>
            sched_priv (view (kst p)) \<and> policy (view (kst p)) \<noteq> SCHED_RR)"
  using sched_getparam_pass_iff [OF K] sched_getscheduler_pass_iff [OF K _ ok] by blast

theorem sched_get_suites_pass_iff_witness:
  "fst (exec ref_kernel (sched_getparam_001 1 None) init_process) = Returned None \<and>
   fst (exec ref_kernel (sched_getscheduler_000 0 None) init_process) = Returned None"
  using sched_get_suites_pass_iff [OF ref_conforms_sched, of init_process None]
  by (simp add: sched_getparam_runs_def sched_getscheduler_runs_def policy_valid_def sched_view_def
      init_process_def init_world_def)



text \<open>
  C40. Every case of \<^verbatim>\<open>sched_get_priority_max\<close> and \<^verbatim>\<open>sched_get_priority_min\<close> passes on a kernel with the
  documented priority ranges, and changes nothing.
\<close>

theorem sched_get_priority_pass:
  fixes K :: "'s kernel"
  assumes K: "conforms_sched K view" and c: "(n, run) \<in> set (sched_get_priority_max_runs @ sched_get_priority_min_runs)"
  shows "fst (exec K (run n a) p) = Returned None \<and> view (kst (snd (exec K (run n a) p))) = view (kst p)"
  using c
  unfolding sched_get_priority_max_defs sched_get_priority_min_defs
  by (auto simp: sched_call_defs tp_assert_def exec_simps conforms_schedD [OF K] sched_spec_defs Let_def split: if_splits)

theorem sched_get_priority_pass_witness:
  "fst (exec ref_kernel (sched_get_priority_max_001 1 None) init_process) = Returned None"
  using sched_get_priority_pass [OF ref_conforms_sched, of 1 sched_get_priority_max_001 None init_process]
  by (simp add: sched_get_priority_max_runs_def)

end
