(* ===== verification/Test_Drv.thy ===== *)
theory Test_Drv
  imports Test_Mck
begin

text \<open>
  The Linux module \<^verbatim>\<open>src/test_drv\<close> that serves the device files of the suite
  \<^verbatim>\<open>mmap_dev\<close>: its life cycle (\<^verbatim>\<open>test_mck_drv.c\<close>), its two devices and its entries
  under \<^verbatim>\<open>/proc\<close>. The calls of the driver interface go to the kernel parameter; the module's
  variables and the memory it owns are the record \<^verbatim>\<open>drv\<close>.
\<close>

subsection \<open>State\<close>

text \<open>
  \<^verbatim>\<open>test_suite.list\<close> has two devices; \<^verbatim>\<open>kind\<close> stands for the function pointers
  \<^verbatim>\<open>fops\<close>, \<^verbatim>\<open>init\<close> and \<^verbatim>\<open>fin\<close> of an entry.
\<close>

datatype dev_kind = Mmap_dev | Mmap_dev2

record test_mck_dev =
  ts_name :: string
  kind :: dev_kind
  private_data :: u64
  devno :: u32
  dev_class :: int

type_synonym kmem = "u64 \<Rightarrow> u8"

record drv =
  ident :: "string option"
  test_mck_major :: int
  majmin :: string
  devlist :: "test_mck_dev list"
  procdir :: bool
  proc_ents :: "(string \<times> bool) list"
  kmem :: kmem

abbreviation (input) test_mck_minor :: int where "test_mck_minor \<equiv> 0"
abbreviation (input) test_mck_nr_devs :: nat where "test_mck_nr_devs \<equiv> 2"

definition drv_loaded :: "string option \<Rightarrow> kmem \<Rightarrow> drv" where
  "drv_loaded idt mem =
     \<lparr>ident = idt, test_mck_major = 0, majmin = replicate (test_mck_nr_devs * 8 + 1) (CHR 0x00),
      devlist =
        [\<lparr>ts_name = ''mmap_dev'', kind = Mmap_dev, private_data = 0, devno = 0, dev_class = 0\<rparr>,
         \<lparr>ts_name = ''mmap_dev2'', kind = Mmap_dev2, private_data = 0, devno = 0, dev_class = 0\<rparr>],
      procdir = False, proc_ents = [(''devno'', False), (''tp_names'', False)], kmem = mem\<rparr>"

definition test_mck_ident :: "drv \<Rightarrow> string" where
  "test_mck_ident d = (case ident d of None \<Rightarrow> [] | Some s \<Rightarrow> s)"

definition mck_printk :: "string \<Rightarrow> drv \<Rightarrow> string \<Rightarrow> fmtarg list \<Rightarrow> 'a prog \<Rightarrow> 'a prog" where
  "mck_printk ts d fmt args k =
     Fprintf Klog (''%s::%s(%s):'' @ fmt) ([FStr ''test_mck'', FStr ts, FStr (test_mck_ident d)] @ args) k"

text \<open>Kernel functions that answer a negative error number, and those whose answer is not used.\<close>

definition drv_int :: "drv_call \<Rightarrow> (int \<Rightarrow> 'a prog) \<Rightarrow> 'a prog" where
  "drv_int c k = Sys (Drv c) (\<lambda>r. case r of SOk v _ \<Rightarrow> k v | SErr e \<Rightarrow> k (- e))"

definition drv_void :: "drv_call \<Rightarrow> 'a prog \<Rightarrow> 'a prog" where
  "drv_void c k = Sys (Drv c) (\<lambda>_. k)"

definition upd_dev :: "nat \<Rightarrow> (test_mck_dev \<Rightarrow> test_mck_dev) \<Rightarrow> drv \<Rightarrow> drv" where
  "upd_dev i f d = d\<lparr>devlist := (devlist d)[i := f (devlist d ! i)]\<rparr>"

subsection \<open>The device mmap_dev\<close>

definition test_mck_mmap_dev_vma_open :: "drv \<Rightarrow> 'a prog \<Rightarrow> 'a prog" where
  "test_mck_mmap_dev_vma_open d k = mck_printk ''mmap_dev'' d ''call vm_open function.\<newline>'' [] k"

definition test_mck_mmap_dev_mmap :: "drv \<Rightarrow> u64 \<Rightarrow> u64 \<Rightarrow> u64 \<Rightarrow> int prog" where
  "test_mck_mmap_dev_mmap d vm_start vm_end vm_pgoff =
     mck_printk ''mmap_dev'' d ''call mmap function.(vm_start=%lx, vm_end=%lx, vm_pgoff==%lx)\<newline>''
       [FPtr vm_start, FPtr vm_end, FPtr vm_pgoff] (
     drv_int (Remap_pfn_range vm_start vm_pgoff (vm_end - vm_start)) (\<lambda>res.
     (let out = mck_printk ''mmap_dev'' d ''return mmap function(%d).\<newline>'' [FInt res] (Return 0) in
      if res \<noteq> 0 then out else test_mck_mmap_dev_vma_open d out)))"

definition test_mck_mmap_dev_ioctl :: "drv \<Rightarrow> int \<Rightarrow> int \<Rightarrow> int prog" where
  "test_mck_mmap_dev_ioctl d iocmd ioarg =
     mck_printk ''mmap_dev'' d ''call ioctl function(cmd:%u arg:%lu).\<newline>'' [FInt iocmd, FInt ioarg] (Return 0)"

definition test_mck_mmap_dev_open :: "drv \<Rightarrow> int prog" where
  "test_mck_mmap_dev_open d = mck_printk ''mmap_dev'' d ''call open function.\<newline>'' [] (Return 0)"

definition test_mck_mmap_dev_release :: "drv \<Rightarrow> int prog" where
  "test_mck_mmap_dev_release d = mck_printk ''mmap_dev'' d ''call release function.\<newline>'' [] (Return 0)"

definition test_mck_mmap_dev_init :: "nat \<Rightarrow> drv \<Rightarrow> (int \<times> drv) prog" where
  "test_mck_mmap_dev_init i d = Return (0, d)"

definition test_mck_mmap_dev_fin :: "nat \<Rightarrow> drv \<Rightarrow> drv prog" where
  "test_mck_mmap_dev_fin i d = Return d"

subsection \<open>The device mmap_dev2\<close>

definition test_mck_mmap_dev2_buf_size :: u64 where
  "test_mck_mmap_dev2_buf_size = PAGE_SIZE * 3"

abbreviation (input) TEST_MCK_MMAP_DEV2_BUF_RESET :: int where
  "TEST_MCK_MMAP_DEV2_BUF_RESET \<equiv> 0x4D00"

text \<open>\<^verbatim>\<open>memset\<close> on the memory the module owns.\<close>

definition kmemset :: "u64 \<Rightarrow> int \<Rightarrow> u64 \<Rightarrow> kmem \<Rightarrow> kmem" where
  "kmemset a v n m = (\<lambda>x. if x - a < n then word_of_int v else m x)"

function reset_loop :: "u64 \<Rightarrow> u64 \<Rightarrow> int \<Rightarrow> kmem \<Rightarrow> kmem" where
  "reset_loop start off val m =
     (if off < test_mck_mmap_dev2_buf_size then
        (let len = (if off + PAGE_SIZE < test_mck_mmap_dev2_buf_size then PAGE_SIZE
                    else test_mck_mmap_dev2_buf_size - off)
         in reset_loop start (off + PAGE_SIZE) (val + 1) (kmemset (start + off) val len m))
      else m)"
  by pat_completeness auto
termination
proof (relation "measure (\<lambda>(start, off, val, m). unat test_mck_mmap_dev2_buf_size - unat off)")
  fix off val m and start :: u64 and len
  assume "off < test_mck_mmap_dev2_buf_size"
  then show "((start, off + PAGE_SIZE, val + 1, kmemset (start + off) val len m), (start, off, val, m))
    \<in> measure (\<lambda>(start, off, val, m). unat test_mck_mmap_dev2_buf_size - unat off)"
    by (simp add: test_mck_mmap_dev2_buf_size_def abi_defs word_less_nat_alt unat_word_ariths)
qed simp

declare reset_loop.simps [simp del]

definition test_mck_mmap_dev2_buffer_reset :: "test_mck_dev \<Rightarrow> kmem \<Rightarrow> kmem" where
  "test_mck_mmap_dev2_buffer_reset dev m = reset_loop (private_data dev) 0 1 m"

text \<open>The page for a fault: \<^verbatim>\<open>vmf->page\<close> is named by the address it holds.\<close>

definition test_mck_mmap_dev2_vma_fault :: "drv \<Rightarrow> test_mck_dev \<Rightarrow> u64 \<Rightarrow> (int \<times> u64 option) prog" where
  "test_mck_mmap_dev2_vma_fault d dev pgoff =
     mck_printk ''mmap_dev2'' d ''call vm_fault function.\<newline>'' [] (
     (let buf = private_data dev in
      if buf = 0 then mck_printk ''mmap_dev2'' d ''buffer is NULL.\<newline>'' [] (Return (- ENOMEM, None))
      else if test_mck_mmap_dev2_buf_size \<le> push_bit 12 pgoff
      then mck_printk ''mmap_dev2'' d ''invalid page offset.\<newline>'' [] (Return (- EFAULT, None))
      else Return (0, Some (buf + push_bit 12 pgoff))))"

text \<open>\<^verbatim>\<open>open\<close> leaves the device in \<^verbatim>\<open>file->private_data\<close>, \<^verbatim>\<open>mmap\<close> in \<^verbatim>\<open>vma->vm_private_data\<close>.\<close>

definition test_mck_mmap_dev2_open :: "drv \<Rightarrow> nat \<Rightarrow> (int \<times> nat) prog" where
  "test_mck_mmap_dev2_open d i = mck_printk ''mmap_dev2'' d ''call open function.\<newline>'' [] (Return (0, i))"

definition test_mck_mmap_dev2_release :: "drv \<Rightarrow> int prog" where
  "test_mck_mmap_dev2_release d = mck_printk ''mmap_dev2'' d ''call release function.\<newline>'' [] (Return 0)"

definition test_mck_mmap_dev2_mmap :: "drv \<Rightarrow> nat \<Rightarrow> u64 \<Rightarrow> u64 \<Rightarrow> u64 \<Rightarrow> (int \<times> nat) prog" where
  "test_mck_mmap_dev2_mmap d file_dev vm_start vm_end vm_pgoff =
     mck_printk ''mmap_dev2'' d ''call mmap function.(vm_start=%lx, vm_end=%lx, vm_pgoff==%lx)\<newline>''
       [FPtr vm_start, FPtr vm_end, FPtr vm_pgoff] (
     mck_printk ''mmap_dev2'' d ''call vm_open function.\<newline>'' [] (
     mck_printk ''mmap_dev2'' d ''return mmap function(%d).\<newline>'' [FInt 0] (
     Return (0, file_dev))))"

definition test_mck_mmap_dev2_ioctl :: "nat \<Rightarrow> int \<Rightarrow> int \<Rightarrow> drv \<Rightarrow> (int \<times> drv) prog" where
  "test_mck_mmap_dev2_ioctl file_dev iocmd ioarg d =
     mck_printk ''mmap_dev2'' d ''call ioctl function(cmd:%u arg:%lu).\<newline>'' [FInt iocmd, FInt ioarg] (
     Return (0, if iocmd = TEST_MCK_MMAP_DEV2_BUF_RESET
                then d\<lparr>kmem := test_mck_mmap_dev2_buffer_reset (devlist d ! file_dev) (kmem d)\<rparr>
                else d))"

definition test_mck_mmap_dev2_init :: "nat \<Rightarrow> drv \<Rightarrow> (int \<times> drv) prog" where
  "test_mck_mmap_dev2_init i d =
     Sys (Drv (Vmalloc_user test_mck_mmap_dev2_buf_size)) (\<lambda>r.
     (let buf = (case r of SOk v _ \<Rightarrow> word_of_int v | SErr e \<Rightarrow> 0);
          d' = upd_dev i (private_data_update (\<lambda>_. buf)) d
      in mck_printk ''mmap_dev2'' d' ''dev(%p) buffer(%p).\<newline>'' [FAddr ''dev'', FPtr buf] (
         if buf = 0 then Return (- ENOMEM, d')
         else Return (0, d'\<lparr>kmem := test_mck_mmap_dev2_buffer_reset (devlist d' ! i) (kmem d')\<rparr>))))"

definition test_mck_mmap_dev2_fin :: "nat \<Rightarrow> drv \<Rightarrow> drv prog" where
  "test_mck_mmap_dev2_fin i d =
     (if private_data (devlist d ! i) \<noteq> 0
      then drv_void (Vfree (private_data (devlist d ! i))) (Return (upd_dev i (private_data_update (\<lambda>_. 0)) d))
      else Return d)"

subsection \<open>Entries under /proc\<close>

definition dev_init :: "nat \<Rightarrow> drv \<Rightarrow> (int \<times> drv) prog" where
  "dev_init i d = (case kind (devlist d ! i) of
     Mmap_dev \<Rightarrow> test_mck_mmap_dev_init i d | Mmap_dev2 \<Rightarrow> test_mck_mmap_dev2_init i d)"

definition dev_fin :: "nat \<Rightarrow> drv \<Rightarrow> drv prog" where
  "dev_fin i d = (case kind (devlist d ! i) of
     Mmap_dev \<Rightarrow> test_mck_mmap_dev_fin i d | Mmap_dev2 \<Rightarrow> test_mck_mmap_dev2_fin i d)"

text \<open>\<^verbatim>\<open>test_mck_procfs_string_read\<close>: the result and the new position; offsets are 64 bits wide.\<close>

definition test_mck_procfs_string_read :: "u64 \<Rightarrow> u64 \<Rightarrow> string \<Rightarrow> (int \<times> u64) prog" where
  "test_mck_procfs_string_read nbytes ppos str =
     (let len = of_nat (length str) in
      if len < ppos then Return (0, ppos)
      else
        (let count = (if len < ppos + nbytes then len - ppos else nbytes) in
         Sys (Drv (Copy_to_user (take (unat count) (drop (unat ppos) str)))) (\<lambda>r.
           (case r of SOk rest _ \<Rightarrow> if rest \<noteq> 0 then Return (- EFAULT, ppos) else Return (sint count, ppos + count)
            | SErr e \<Rightarrow> Return (- EFAULT, ppos)))))"

definition test_mck_procfs_devno_read :: "drv \<Rightarrow> u64 \<Rightarrow> u64 \<Rightarrow> (int \<times> u64) prog" where
  "test_mck_procfs_devno_read d nbytes ppos =
     test_mck_procfs_string_read nbytes ppos (takeWhile (\<lambda>c. c \<noteq> CHR 0x00) (majmin d))"

definition test_mck_tp_names :: string where
  "test_mck_tp_names = ''mmap_dev mmap_dev2 ''"

definition test_mck_procfs_tp_names_read :: "u64 \<Rightarrow> u64 \<Rightarrow> (int \<times> u64) prog" where
  "test_mck_procfs_tp_names_read nbytes ppos = test_mck_procfs_string_read nbytes ppos test_mck_tp_names"

definition proc_parent :: "drv \<Rightarrow> string" where
  "proc_parent d = (if procdir d then ''test_mck'' else [])"

fun cleanup_ents :: "string \<Rightarrow> (string \<times> bool) list \<Rightarrow> 'a prog \<Rightarrow> 'a prog" where
  "cleanup_ents dir [] k = k"
| "cleanup_ents dir ((fname, pent) # es) k =
     (if pent then drv_void (Remove_proc_entry dir fname) (cleanup_ents dir es k) else cleanup_ents dir es k)"

definition test_mck_cleanup_procfs :: "drv \<Rightarrow> drv prog" where
  "test_mck_cleanup_procfs d =
     cleanup_ents (proc_parent d) (proc_ents d) (
     drv_void (Remove_proc_entry [] ''test_mck'') (
     Return (d\<lparr>proc_ents := map (\<lambda>(f, _). (f, False)) (proc_ents d), procdir := False\<rparr>)))"

fun create_ents :: "(string \<times> bool) list \<Rightarrow> (string \<times> bool) list \<Rightarrow> drv \<Rightarrow> (int \<times> drv) prog" where
  "create_ents before [] d = Return (0, d\<lparr>proc_ents := before\<rparr>)"
| "create_ents before ((fname, pent) # es) d =
     Sys (Drv (Proc_create ''test_mck'' fname)) (\<lambda>r. case r of
       SErr e \<Rightarrow> Return (- ENOMEM, d\<lparr>proc_ents := before @ (fname, False) # es\<rparr>)
     | SOk v _ \<Rightarrow> create_ents (before @ [(fname, True)]) es d)"

definition test_mck_init_procfs :: "drv \<Rightarrow> (int \<times> drv) prog" where
  "test_mck_init_procfs d =
     Sys (Drv (Proc_mkdir ''test_mck'')) (\<lambda>r. case r of
       SErr e \<Rightarrow> Return (- ENOMEM, d\<lparr>procdir := False\<rparr>)
     | SOk v _ \<Rightarrow> create_ents [] (proc_ents d) (d\<lparr>procdir := True\<rparr>))"

subsection \<open>Setup and clean-up\<close>

fun cleanup_devs :: "nat list \<Rightarrow> drv \<Rightarrow> (drv \<Rightarrow> 'a prog) \<Rightarrow> 'a prog" where
  "cleanup_devs [] d k = k d"
| "cleanup_devs (i # is) d k =
     call (dev_fin i d) (\<lambda>d.
     drv_void (Cdev_del i) (
     drv_void (Device_destroy (dev_class (devlist d ! i)) (devno (devlist d ! i))) (
     drv_void (Class_destroy (dev_class (devlist d ! i))) (
     cleanup_devs is d k))))"

definition test_mck_cleanup :: "drv \<Rightarrow> drv prog" where
  "test_mck_cleanup d =
     call (test_mck_cleanup_procfs d) (\<lambda>d.
     cleanup_devs [0..<test_mck_nr_devs] d (\<lambda>d.
     drv_void (Unregister_chrdev_region (MKDEV (test_mck_major d) test_mck_minor) (int test_mck_nr_devs)) (
     Return d)))"

text \<open>\<^verbatim>\<open>snprintf\<close> into the buffer at an offset: at most \<^verbatim>\<open>size\<close> bytes with the final zero.\<close>

definition snprintf_at :: "string \<Rightarrow> nat \<Rightarrow> u64 \<Rightarrow> string \<Rightarrow> string" where
  "snprintf_at buf off sz str =
     (if sz = 0 then buf
      else (let w = take (unat sz - 1) str @ [CHR 0x00] in take off buf @ w @ drop (off + length w) buf))"

definition pad_left :: "nat \<Rightarrow> string \<Rightarrow> string" where
  "pad_left n s = replicate (n - length s) (CHR '' '') @ s"

definition pad_right :: "nat \<Rightarrow> string \<Rightarrow> string" where
  "pad_right n s = s @ replicate (n - length s) (CHR '' '')"

definition majmin_entry :: "int \<Rightarrow> int \<Rightarrow> string" where
  "majmin_entry ma i = pad_left 3 (dec_int ma) @ '':'' @ pad_right 3 (dec_int i) @ '' ''"

text \<open>
  The body of the loop for device \<^verbatim>\<open>i\<close>. \<^verbatim>\<open>Some res\<close> is \<^verbatim>\<open>goto fail\<close> with the value
  \<^verbatim>\<open>res\<close> has at that point; the last component is the position in the buffer.
\<close>

definition setup_dev :: "nat \<Rightarrow> int \<Rightarrow> drv \<Rightarrow> nat \<Rightarrow> (int option \<times> drv \<times> nat) prog" where
  "setup_dev i res d off =
     (let name = ts_name (devlist d ! i) in
      Sys (Drv (Class_create name)) (\<lambda>r. case r of
        SErr e \<Rightarrow>
          (let d = upd_dev i (dev_class_update (\<lambda>_. 0)) d in
           mck_printk [] d ''error create class(%s).'' [FStr name] (Return (Some res, d, off)))
      | SOk h _ \<Rightarrow>
          (let no = MKDEV (test_mck_major d) (test_mck_minor + int i);
               d = upd_dev i (\<lambda>dev. dev\<lparr>dev_class := h, devno := no\<rparr>) d in
           drv_int (Cdev_add i no) (\<lambda>res.
           if res \<noteq> 0
           then mck_printk [] d ''error %d adding mck test driver(%s).'' [FInt res, FStr name] (Return (Some res, d, off))
           else drv_void (Device_create h no name) (
             (let str = majmin_entry (test_mck_major d) (int i);
                  sz = of_nat (length (majmin d)) - of_nat off - 1;
                  d = d\<lparr>majmin := snprintf_at (majmin d) off sz str\<rparr>;
                  off = off + length str in
              call (dev_init i d) (\<lambda>(res, d).
                Return (if res \<noteq> 0 then Some res else None, d, off))))))))"

fun setup_devs :: "nat list \<Rightarrow> int \<Rightarrow> drv \<Rightarrow> nat \<Rightarrow> (int option \<times> drv) prog" where
  "setup_devs [] res d off = Return (None, d)"
| "setup_devs (i # is) res d off =
     call (setup_dev i res d off) (\<lambda>(failed, d, off).
       case failed of
         Some res \<Rightarrow> Return (Some res, d)
       | None \<Rightarrow> setup_devs is 0 d off)"

definition setup_fail :: "int \<Rightarrow> drv \<Rightarrow> (int \<times> drv) prog" where
  "setup_fail res d = call (test_mck_cleanup d) (\<lambda>d. Return (res, d))"

definition test_mck_setup :: "drv \<Rightarrow> (int \<times> drv) prog" where
  "test_mck_setup d =
     Sys (Drv (Alloc_chrdev_region test_mck_minor (int test_mck_nr_devs))) (\<lambda>r. case r of
       SErr e \<Rightarrow> mck_printk [] d ''error get major %d\<newline>'' [FInt (- e)] (setup_fail (- e) d)
     | SOk v os \<Rightarrow>
         (let d = d\<lparr>test_mck_major := MAJOR (case os of [OInt no] \<Rightarrow> word_of_int no | _ \<Rightarrow> 0)\<rparr> in
          call (setup_devs [0..<test_mck_nr_devs] v d 0) (\<lambda>(failed, d).
            case failed of
              Some res \<Rightarrow> setup_fail res d
            | None \<Rightarrow>
                call (test_mck_init_procfs d) (\<lambda>(res, d).
                  if res \<noteq> 0
                  then mck_printk [] d ''error %d create procfs.'' [FInt res] (setup_fail res d)
                  else Return (0, d)))))"

definition test_mck_init :: "drv \<Rightarrow> (int \<times> drv) prog" where
  "test_mck_init d = test_mck_setup d"

definition test_mck_exit :: "drv \<Rightarrow> drv prog" where
  "test_mck_exit d = test_mck_cleanup d"

end
