(* ===== verification/Drv_Life.thy ===== *)
theory Drv_Life
  imports Test_Drv
begin

text \<open>
  The life of the module of \<^verbatim>\<open>Test_Drv\<close>: which resources a setup acquires and a clean-up gives back,
  what the loaded module keeps while it serves requests, the contents of the pages of
  \<^verbatim>\<open>mmap_dev2\<close>, and the reads of the entries under \<^verbatim>\<open>/proc\<close>.
\<close>

subsection \<open>Clean-up\<close>

lemmas drv_call_defs = drv_int_def drv_void_def mck_printk_def

lemma exec_drv_void [exec_simps]:
  "exec K (drv_void c k) p = exec K k (p\<lparr>kst := snd (k_sys K (Drv c) (kst p))\<rparr>)"
  by (simp add: drv_void_def)

lemma exec_mck_printk [exec_simps]:
  "exec K (mck_printk ts d fmt args k) p =
     exec K k (p\<lparr>out := out p @ [(Klog, ''%s::%s(%s):'' @ fmt, [FStr ''test_mck'', FStr ts, FStr (test_mck_ident d)] @ args)]\<rparr>)"
  by (simp add: mck_printk_def)

lemma call_drv_void [simp]: "call (drv_void c k) f = drv_void c (call k f)"
  by (simp add: drv_void_def)

lemma call_mck_printk [simp]: "call (mck_printk ts d fmt args k) f = mck_printk ts d fmt args (call k f)"
  by (simp add: mck_printk_def)

text \<open>
  \<^verbatim>\<open>goes K view q l q' l'\<close>: from every process whose ledger is \<^verbatim>\<open>l\<close>, running \<^verbatim>\<open>q\<close> comes to
  \<^verbatim>\<open>q'\<close> with the ledger \<^verbatim>\<open>l'\<close>.
\<close>

definition goes :: "'s kernel \<Rightarrow> ('s \<Rightarrow> linux) \<Rightarrow> 'a prog \<Rightarrow> linux \<Rightarrow> 'a prog \<Rightarrow> linux \<Rightarrow> bool" where
  "goes K view q l q' l' \<longleftrightarrow>
     (\<forall>p. view (kst p) = l \<longrightarrow> (\<exists>p'. exec K q p = exec K q' p' \<and> view (kst p') = l'))"

lemma goes_refl: "goes K view q l q l"
  by (auto simp: goes_def)

lemma goes_trans: "goes K view q l q' l' \<Longrightarrow> goes K view q' l' q'' l'' \<Longrightarrow> goes K view q l q'' l''"
  by (fastforce simp: goes_def)

fun release :: "drv_call \<Rightarrow> linux \<Rightarrow> linux" where
  "release (Unregister_chrdev_region no n) l = l\<lparr>l_regions := l_regions l - {(no, n)}\<rparr>"
| "release (Class_destroy h) l = l\<lparr>l_classes := l_classes l - {h}\<rparr>"
| "release (Device_destroy h no) l = l\<lparr>l_devices := l_devices l - {(h, no)}\<rparr>"
| "release (Vfree b) l = l\<lparr>l_bufs := {c \<in> l_bufs l. fst c \<noteq> b}\<rparr>"
| "release (Remove_proc_entry dir nm) l = l\<lparr>l_procs := l_procs l - {(dir, nm)}\<rparr>"
| "release (Cdev_del i) l = l\<lparr>l_cdevs := {c \<in> l_cdevs l. fst c \<noteq> i}\<rparr>"
| "release _ l = l"

fun releasable :: "drv_call \<Rightarrow> linux \<Rightarrow> bool" where
  "releasable (Unregister_chrdev_region no n) l = True"
| "releasable (Class_destroy h) l = True"
| "releasable (Device_destroy h no) l = True"
| "releasable (Vfree b) l = True"
| "releasable (Remove_proc_entry dir nm) l = True"
| "releasable (Cdev_del i) l = (i \<in> fst ` l_cdevs l)"
| "releasable _ l = False"

lemma linux_rel_release: "releasable c l \<Longrightarrow> linux_rel c l r l' \<Longrightarrow> l' = release c l"
  by (cases c) auto

lemma goes_release:
  fixes K :: "'s kernel"
  assumes K: "conforms_linux K view" and c: "releasable c l"
  shows "goes K view (drv_void c q) l q (release c l)"
  unfolding goes_def
proof (intro allI impI)
  fix p :: "'s process"
  assume "view (kst p) = l"
  with linux_rel_release [OF c] conforms_linuxD [OF K, of c "kst p"]
  have "view (snd (k_sys K (Drv c) (kst p))) = release c l" by auto
  then show "\<exists>p'. exec K (drv_void c q) p = exec K q p' \<and> view (kst p') = release c l"
    by (intro exI [of _ "p\<lparr>kst := snd (k_sys K (Drv c) (kst p))\<rparr>"]) (simp add: exec_simps)
qed

fun releasable_all :: "drv_call list \<Rightarrow> linux \<Rightarrow> bool" where
  "releasable_all [] l = True"
| "releasable_all (c # cs) l = (releasable c l \<and> releasable_all cs (release c l))"

lemma goes_releases:
  "conforms_linux K view \<Longrightarrow> releasable_all cs l \<Longrightarrow> goes K view (foldr drv_void cs q) l q (fold release cs l)"
  by (induction cs arbitrary: l) (auto intro: goes_refl goes_trans goes_release)

text \<open>The state of the module after a complete setup, and the ledger then.\<close>

record held =
  hd_major :: int
  hd_class0 :: int
  hd_class1 :: int
  hd_devices :: "(int \<times> u32) set"
  hd_buf :: u64

definition drv_up :: "held \<Rightarrow> drv \<Rightarrow> bool" where
  "drv_up h d \<longleftrightarrow>
     test_mck_major d = hd_major h \<and> procdir d \<and> proc_ents d = [(''devno'', True), (''tp_names'', True)] \<and>
     devlist d =
       [\<lparr>ts_name = ''mmap_dev'', kind = Mmap_dev, private_data = 0, devno = MKDEV (hd_major h) 0, dev_class = hd_class0 h\<rparr>,
        \<lparr>ts_name = ''mmap_dev2'', kind = Mmap_dev2, private_data = hd_buf h, devno = MKDEV (hd_major h) 1, dev_class = hd_class1 h\<rparr>]"

definition holds :: "held \<Rightarrow> linux \<Rightarrow> linux" where
  "holds h l =
     \<lparr>l_regions = insert (MKDEV (hd_major h) 0, 2) (l_regions l),
      l_classes = insert (hd_class1 h) (insert (hd_class0 h) (l_classes l)),
      l_cdevs = insert (1, MKDEV (hd_major h) 1) (insert (0, MKDEV (hd_major h) 0) (l_cdevs l)),
      l_devices = hd_devices h \<union> l_devices l,
      l_bufs = insert (hd_buf h, test_mck_mmap_dev2_buf_size) (l_bufs l),
      l_procs = insert (''test_mck'', ''tp_names'') (insert (''test_mck'', ''devno'') (insert ([], ''test_mck'') (l_procs l)))\<rparr>"

text \<open>What is held is new to the ledger.\<close>

definition new_devs :: "held \<Rightarrow> linux \<Rightarrow> bool" where
  "new_devs h l \<longleftrightarrow>
     hd_class0 h \<notin> l_classes l \<and> hd_class1 h \<notin> l_classes l \<and> hd_class0 h \<noteq> hd_class1 h \<and>
     hd_class0 h \<notin> fst ` l_devices l \<and> hd_class1 h \<notin> fst ` l_devices l \<and>
     hd_devices h \<subseteq> {(hd_class0 h, MKDEV (hd_major h) 0), (hd_class1 h, MKDEV (hd_major h) 1)} \<and>
     hd_buf h \<noteq> 0 \<and> hd_buf h \<notin> fst ` l_bufs l \<and>
     unat (hd_buf h) + unat test_mck_mmap_dev2_buf_size < 2 ^ 64"

definition new_to :: "held \<Rightarrow> linux \<Rightarrow> bool" where
  "new_to h l \<longleftrightarrow> (MKDEV (hd_major h) 0, 2) \<notin> l_regions l \<and> new_devs h l"

text \<open>The module's own names are not in use before it is loaded.\<close>

definition names_free :: "linux \<Rightarrow> bool" where
  "names_free l \<longleftrightarrow> 0 \<notin> fst ` l_cdevs l \<and> 1 \<notin> fst ` l_cdevs l \<and>
     ([], ''test_mck'') \<notin> l_procs l \<and> (''test_mck'', ''devno'') \<notin> l_procs l \<and> (''test_mck'', ''tp_names'') \<notin> l_procs l"

text \<open>The calls a clean-up makes after a complete setup, in order, and what they leave.\<close>

definition release_calls :: "held \<Rightarrow> drv_call list" where
  "release_calls h =
    [Remove_proc_entry ''test_mck'' ''devno'', Remove_proc_entry ''test_mck'' ''tp_names'', Remove_proc_entry [] ''test_mck'',
     Cdev_del 0, Device_destroy (hd_class0 h) (MKDEV (hd_major h) 0), Class_destroy (hd_class0 h),
     Vfree (hd_buf h),
     Cdev_del 1, Device_destroy (hd_class1 h) (MKDEV (hd_major h) 1), Class_destroy (hd_class1 h),
     Unregister_chrdev_region (MKDEV (hd_major h) 0) 2]"

lemma insert_filter_out:
  "x \<notin> fst ` S \<Longrightarrow> {c \<in> insert (x, y) S. fst c \<noteq> x} = S"
  by force

lemma release_devices:
  assumes "hd_class0 h \<notin> fst ` S" "hd_class1 h \<notin> fst ` S"
    "D \<subseteq> {(hd_class0 h, a), (hd_class1 h, b)}"
  shows "D \<union> S - {(hd_class0 h, a)} - {(hd_class1 h, b)} = S"
  using assms by force

lemma releases_holds:
  assumes "new_to h l" "names_free l"
  shows "fold release (release_calls h) (holds h l) = l"
proof (rule linux.equality)
  let ?f = "fold release (release_calls h) (holds h l)"
  note d = release_calls_def holds_def
  show "l_regions ?f = l_regions l" using assms(1) by (simp add: d new_to_def)
  show "l_classes ?f = l_classes l" using assms(1) by (simp add: d new_to_def new_devs_def insert_commute)
  have "{c \<in> {c \<in> insert (1, x) (insert (0, y) S). fst c \<noteq> 0}. fst c \<noteq> 1} = S"
    if "0 \<notin> fst ` S" "1 \<notin> fst ` S" for S :: "(nat \<times> u32) set" and x y
    using that by force
  then show "l_cdevs ?f = l_cdevs l" using assms(2) by (simp add: d names_free_def)
  show "l_devices ?f = l_devices l"
    using assms(1) by (simp add: d new_to_def new_devs_def release_devices)
  show "l_bufs ?f = l_bufs l"
    using assms(1) insert_filter_out [of "hd_buf h" "l_bufs l"] by (simp add: d new_to_def new_devs_def)
  have "insert x (insert y (insert z S)) - {y} - {x} - {z} = S" if "x \<notin> S" "y \<notin> S" "z \<notin> S" for x y z and S :: "(string \<times> string) set"
    using that by blast
  then show "l_procs ?f = l_procs l" using assms(2) by (simp add: d names_free_def)
qed simp

lemma cleanup_releases:
  assumes K: "conforms_linux K view" and d: "drv_up h d" and l: "view (kst p) = holds h l"
    and h: "new_to h l" and n: "names_free l"
  shows "\<exists>d' p'. exec K (test_mck_cleanup d) p = (Returned d', p') \<and> view (kst p') = l"
proof -
  have up: "[0..<2] = [0, 1 :: nat]" by (simp add: upt_rec)
  let ?cs = "release_calls h"
  obtain d' where q: "test_mck_cleanup d = foldr drv_void ?cs (Return d')"
    using d h
    by (simp add: test_mck_cleanup_def test_mck_cleanup_procfs_def drv_up_def proc_parent_def up dev_fin_def
      test_mck_mmap_dev_fin_def test_mck_mmap_dev2_fin_def upd_dev_def new_to_def new_devs_def release_calls_def)
  have "releasable_all ?cs (holds h l)"
    by (auto simp: release_calls_def holds_def image_iff)
  from goes_releases [OF K this, of "Return d'"] q l obtain p' where
    p': "exec K (test_mck_cleanup d) p = exec K (Return d') p'" "view (kst p') = fold release ?cs (holds h l)"
    by (auto simp: goes_def)
  have "fold release ?cs (holds h l) = l"
    using h n by (rule releases_holds)
  with p' show ?thesis by auto
qed

subsection \<open>Setup\<close>

lemma linux_rel_dest:
  "linux_rel (Class_create nm) l (SOk h os) l' \<Longrightarrow>
     h \<noteq> 0 \<and> h \<notin> l_classes l \<and> h \<notin> fst ` l_devices l \<and> l' = l\<lparr>l_classes := insert h (l_classes l)\<rparr>"
  "linux_rel (Cdev_add i no) l (SOk v os) l' \<Longrightarrow> v = 0 \<and> l' = l\<lparr>l_cdevs := insert (i, no) (l_cdevs l)\<rparr>"
  "linux_rel (Cdev_add i no) l (SErr e) l' \<Longrightarrow> 0 < e"
  "linux_rel (Device_create h no nm) l r l' \<Longrightarrow> \<exists>D. D \<subseteq> {(h, no)} \<and> l' = l\<lparr>l_devices := D \<union> l_devices l\<rparr>"
  "linux_rel (Vmalloc_user n) l (SOk v os) l' \<Longrightarrow>
     \<exists>b. v = uint b \<and> b \<noteq> 0 \<and> unat b + unat n < 2 ^ 64 \<and> b \<notin> fst ` l_bufs l \<and> l' = l\<lparr>l_bufs := insert (b, n) (l_bufs l)\<rparr>"
  "linux_rel (Alloc_chrdev_region mi c) l (SOk v os) l' \<Longrightarrow>
     \<exists>ma. 0 < ma \<and> ma < 4096 \<and> v = 0 \<and> os = [OInt (uint (MKDEV ma mi))] \<and> (MKDEV ma mi, c) \<notin> l_regions l \<and>
       l' = l\<lparr>l_regions := insert (MKDEV ma mi, c) (l_regions l)\<rparr>"
  "linux_rel (Proc_mkdir nm) l (SOk v os) l' \<Longrightarrow> l' = l\<lparr>l_procs := insert ([], nm) (l_procs l)\<rparr>"
  "linux_rel (Proc_create dir nm) l (SOk v os) l' \<Longrightarrow> l' = l\<lparr>l_procs := insert (dir, nm) (l_procs l)\<rparr>"
  by (auto simp: refused_def intro: exI [of _ "{}"] exI [of _ "{(h, no)}"])

text \<open>The loop body comes to the device's own initialisation, or fails.\<close>

lemma setup_dev_cases:
  fixes K :: "'s kernel" and p :: "'s process"
  assumes K: "conforms_linux K view"
  obtains (fail) res' d' p' where "exec K (setup_dev i res d off) p = (Returned (Some res', d', off), p')"
    | (cont) h D mm off' p' where
      "h \<noteq> 0" "h \<notin> l_classes (view (kst p))" "h \<notin> fst ` l_devices (view (kst p))"
      "D \<subseteq> {(h, MKDEV (test_mck_major d) (int i))}"
      "view (kst p') = (view (kst p))\<lparr>l_classes := insert h (l_classes (view (kst p))),
         l_cdevs := insert (i, MKDEV (test_mck_major d) (int i)) (l_cdevs (view (kst p))),
         l_devices := D \<union> l_devices (view (kst p))\<rparr>"
      "exec K (setup_dev i res d off) p =
         exec K (call (dev_init i ((upd_dev i (\<lambda>dev. dev\<lparr>dev_class := h, devno := MKDEV (test_mck_major d) (int i)\<rparr>) d)
             \<lparr>majmin := mm\<rparr>))
           (\<lambda>(res, d). Return (if res \<noteq> 0 then Some res else None, d, off'))) p'"
proof (cases "fst (k_sys K (Drv (Class_create (ts_name (devlist d ! i)))) (kst p))")
  case (SErr e)
  then show ?thesis using fail by (simp add: setup_dev_def exec_simps Let_def)
next
  case (SOk h os)
  note cls = linux_rel_dest(1) [OF conforms_linuxD [OF K, of "Class_create (ts_name (devlist d ! i))" "kst p", unfolded SOk]]
  define no where "no = MKDEV (test_mck_major d) (int i)"
  define s1 where "s1 = snd (k_sys K (Drv (Class_create (ts_name (devlist d ! i)))) (kst p))"
  define s2 where "s2 = snd (k_sys K (Drv (Cdev_add i no)) s1)"
  show ?thesis
  proof (cases "fst (k_sys K (Drv (Cdev_add i no)) s1)")
    case (SErr e)
    with linux_rel_dest(3) [OF conforms_linuxD [OF K, of "Cdev_add i no" s1, unfolded SErr]]
    show ?thesis using fail SOk by (simp add: setup_dev_def exec_simps Let_def drv_int_def s1_def no_def upd_dev_def)
  next
    case (SOk v os')
    note cd = linux_rel_dest(2) [OF conforms_linuxD [OF K, of "Cdev_add i no" s1, unfolded SOk]]
    obtain D where D: "D \<subseteq> {(h, no)}"
      "view (snd (k_sys K (Drv (Device_create h no (ts_name (devlist d ! i)))) s2)) = (view s2)\<lparr>l_devices := D \<union> l_devices (view s2)\<rparr>"
      using linux_rel_dest(4) [OF conforms_linuxD [OF K, of "Device_create h no (ts_name (devlist d ! i))" s2]] by blast
    show ?thesis
      using cls cd D \<open>fst (k_sys K (Drv (Class_create (ts_name (devlist d ! i)))) (kst p)) = SOk h os\<close> SOk
      by (intro cont [of h D "p\<lparr>kst := snd (k_sys K (Drv (Device_create h no (ts_name (devlist d ! i)))) s2)\<rparr>"])
        (simp_all add: setup_dev_def exec_simps Let_def drv_int_def s1_def s2_def no_def upd_dev_def)
  qed
qed

text \<open>Cleaning up always returns, and leaves no directory.\<close>

lemma exec_dev_fin: "\<exists>d' p'. exec K (dev_fin i d) p = (Returned d', p') \<and> procdir d' = procdir d"
  by (cases "kind (devlist d ! i)")
    (auto simp: dev_fin_def test_mck_mmap_dev_fin_def test_mck_mmap_dev2_fin_def exec_simps upd_dev_def)

lemma exec_cleanup_devs: "\<exists>d' p'. exec K (cleanup_devs is d k) p = exec K (k d') p' \<and> procdir d' = procdir d"
proof (induction "is" arbitrary: d p)
  case (Cons i "is")
  obtain d' p' where "exec K (dev_fin i d) p = (Returned d', p')" "procdir d' = procdir d"
    using exec_dev_fin by blast
  with Cons show ?case by (fastforce simp: exec_simps)
qed auto

lemma exec_cleanup_ents: "\<exists>p'. exec K (cleanup_ents dir es k) p = exec K k p'"
  by (induction es arbitrary: p) (auto simp: exec_simps)

lemma exec_cleanup_down: "\<exists>d' p'. exec K (test_mck_cleanup d) p = (Returned d', p') \<and> \<not> procdir d'"
proof -
  let ?d = "d\<lparr>proc_ents := map (\<lambda>(f, _). (f, False)) (proc_ents d), procdir := False\<rparr>"
  obtain p1 where "exec K (test_mck_cleanup_procfs d) p = (Returned ?d, p1)"
    using exec_cleanup_ents [of K "proc_parent d" "proc_ents d"] unfolding test_mck_cleanup_procfs_def
    by (metis (no_types, lifting) exec.simps(1) exec_drv_void)
  moreover obtain d2 p2 where "exec K (cleanup_devs [0..<2] ?d (\<lambda>d. drv_void (Unregister_chrdev_region (MKDEV (test_mck_major d) 0) (int 2)) (Return d))) p1
      = (Returned d2, p2)" "\<not> procdir d2"
    using exec_cleanup_devs [of K "[0..<2]" ?d "\<lambda>d. drv_void (Unregister_chrdev_region (MKDEV (test_mck_major d) 0) (int 2)) (Return d)" p1]
    by (auto simp: exec_simps)
  ultimately show ?thesis by (auto simp: test_mck_cleanup_def exec_simps simp del: upt.simps)
qed

lemma exec_setup_fail: "\<exists>d' p'. exec K (setup_fail res d) p = (Returned (res, d'), p') \<and> \<not> procdir d'"
proof -
  obtain d' p' where "exec K (test_mck_cleanup d) p = (Returned d', p')" "\<not> procdir d'"
    using exec_cleanup_down by blast
  then show ?thesis by (simp add: setup_fail_def exec_simps)
qed

lemma exec_setup_devs_Cons:
  "exec K (setup_dev i res d off) p = (Returned (failed, d', off'), p') \<Longrightarrow>
   exec K (setup_devs (i # is) res d off) p =
     (case failed of Some r \<Rightarrow> (Returned (Some r, d'), p') | None \<Rightarrow> exec K (setup_devs is 0 d' off') p')"
  by (simp add: exec_call split: option.splits)

lemma setup_dev0_cases:
  fixes K :: "'s kernel" and p :: "'s process"
  assumes K: "conforms_linux K view" and k: "kind (devlist d ! i) = Mmap_dev" "i < length (devlist d)"
  obtains (fail) res' d' p' where "exec K (setup_dev i res d off) p = (Returned (Some res', d', off), p')"
    | (ok) h D mm off' p' where
      "h \<noteq> 0" "h \<notin> l_classes (view (kst p))" "h \<notin> fst ` l_devices (view (kst p))"
      "D \<subseteq> {(h, MKDEV (test_mck_major d) (int i))}"
      "view (kst p') = (view (kst p))\<lparr>l_classes := insert h (l_classes (view (kst p))),
         l_cdevs := insert (i, MKDEV (test_mck_major d) (int i)) (l_cdevs (view (kst p))),
         l_devices := D \<union> l_devices (view (kst p))\<rparr>"
      "exec K (setup_dev i res d off) p =
         (Returned (None, (upd_dev i (\<lambda>dev. dev\<lparr>dev_class := h, devno := MKDEV (test_mck_major d) (int i)\<rparr>) d)
             \<lparr>majmin := mm\<rparr>, off'), p')"
proof (rule setup_dev_cases [OF K, of i res d off p])
  fix h D mm off' p'
  assume a: "h \<noteq> 0" "h \<notin> l_classes (view (kst p))" "h \<notin> fst ` l_devices (view (kst p))"
      "D \<subseteq> {(h, MKDEV (test_mck_major d) (int i))}"
      "view (kst p') = (view (kst p))\<lparr>l_classes := insert h (l_classes (view (kst p))),
         l_cdevs := insert (i, MKDEV (test_mck_major d) (int i)) (l_cdevs (view (kst p))),
         l_devices := D \<union> l_devices (view (kst p))\<rparr>"
    and "exec K (setup_dev i res d off) p =
         exec K (call (dev_init i ((upd_dev i (\<lambda>dev. dev\<lparr>dev_class := h, devno := MKDEV (test_mck_major d) (int i)\<rparr>) d)
             \<lparr>majmin := mm\<rparr>))
           (\<lambda>(res, d). Return (if res \<noteq> 0 then Some res else None, d, off'))) p'"
  with k have "exec K (setup_dev i res d off) p =
         (Returned (None, (upd_dev i (\<lambda>dev. dev\<lparr>dev_class := h, devno := MKDEV (test_mck_major d) (int i)\<rparr>) d)
             \<lparr>majmin := mm\<rparr>, off'), p')"
    by (simp add: dev_init_def upd_dev_def test_mck_mmap_dev_init_def)
  with a show ?thesis by (rule ok)
qed (rule fail)

lemma setup_dev1_cases:
  fixes K :: "'s kernel" and p :: "'s process"
  assumes K: "conforms_linux K view" and k: "kind (devlist d ! i) = Mmap_dev2" "i < length (devlist d)"
  obtains (fail) res' d' off' p' where "exec K (setup_dev i res d off) p = (Returned (Some res', d', off'), p')"
    | (ok) h D b mm off' p' where
      "h \<noteq> 0" "h \<notin> l_classes (view (kst p))" "h \<notin> fst ` l_devices (view (kst p))"
      "D \<subseteq> {(h, MKDEV (test_mck_major d) (int i))}" "b \<noteq> 0" "b \<notin> fst ` l_bufs (view (kst p))"
      "unat b + unat test_mck_mmap_dev2_buf_size < 2 ^ 64"
      "view (kst p') = (view (kst p))\<lparr>l_classes := insert h (l_classes (view (kst p))),
         l_cdevs := insert (i, MKDEV (test_mck_major d) (int i)) (l_cdevs (view (kst p))),
         l_devices := D \<union> l_devices (view (kst p)),
         l_bufs := insert (b, test_mck_mmap_dev2_buf_size) (l_bufs (view (kst p)))\<rparr>"
      "exec K (setup_dev i res d off) p =
         (Returned (None, (upd_dev i (\<lambda>dev. dev\<lparr>dev_class := h, devno := MKDEV (test_mck_major d) (int i), private_data := b\<rparr>)
             (d\<lparr>majmin := mm\<rparr>))\<lparr>kmem := reset_loop b 0 1 (kmem d)\<rparr>, off'), p')"
proof (rule setup_dev_cases [OF K, of i res d off p])
  fix h D mm off' p'
  assume a: "h \<noteq> 0" "h \<notin> l_classes (view (kst p))" "h \<notin> fst ` l_devices (view (kst p))"
      "D \<subseteq> {(h, MKDEV (test_mck_major d) (int i))}"
    and v: "view (kst p') = (view (kst p))\<lparr>l_classes := insert h (l_classes (view (kst p))),
         l_cdevs := insert (i, MKDEV (test_mck_major d) (int i)) (l_cdevs (view (kst p))),
         l_devices := D \<union> l_devices (view (kst p))\<rparr>"
    and e: "exec K (setup_dev i res d off) p =
         exec K (call (dev_init i ((upd_dev i (\<lambda>dev. dev\<lparr>dev_class := h, devno := MKDEV (test_mck_major d) (int i)\<rparr>) d)
             \<lparr>majmin := mm\<rparr>))
           (\<lambda>(res, d). Return (if res \<noteq> 0 then Some res else None, d, off'))) p'"
  show ?thesis
  proof (cases "fst (k_sys K (Drv (Vmalloc_user test_mck_mmap_dev2_buf_size)) (kst p'))")
    case (SErr er)
    then show ?thesis using fail k unfolding e
      by (simp add: dev_init_def upd_dev_def test_mck_mmap_dev2_init_def exec_simps Let_def)
  next
    case (SOk w os)
    obtain b where b: "w = uint b" "b \<noteq> 0" "b \<notin> fst ` l_bufs (view (kst p'))"
      "unat b + unat test_mck_mmap_dev2_buf_size < 2 ^ 64"
      "view (snd (k_sys K (Drv (Vmalloc_user test_mck_mmap_dev2_buf_size)) (kst p'))) =
        (view (kst p'))\<lparr>l_bufs := insert (b, test_mck_mmap_dev2_buf_size) (l_bufs (view (kst p')))\<rparr>"
      using linux_rel_dest(5) [OF conforms_linuxD [OF K, of "Vmalloc_user test_mck_mmap_dev2_buf_size" "kst p'", unfolded SOk]] by blast
    have "\<exists>p''. exec K (setup_dev i res d off) p =
         (Returned (None, (upd_dev i (\<lambda>dev. dev\<lparr>dev_class := h, devno := MKDEV (test_mck_major d) (int i), private_data := b\<rparr>)
             (d\<lparr>majmin := mm\<rparr>))\<lparr>kmem := reset_loop b 0 1 (kmem d)\<rparr>, off'), p'') \<and> kst p'' = snd (k_sys K (Drv (Vmalloc_user test_mck_mmap_dev2_buf_size)) (kst p'))"
      unfolding e using b(1,2) SOk k
      by (simp add: dev_init_def upd_dev_def test_mck_mmap_dev2_init_def exec_simps Let_def test_mck_mmap_dev2_buffer_reset_def)
    then show ?thesis using ok [OF a b(2)] b v by auto
  qed
qed (rule fail)


lemma init_procfs_cases:
  fixes K :: "'s kernel" and p :: "'s process"
  assumes K: "conforms_linux K view" and k: "proc_ents d = [(''devno'', False), (''tp_names'', False)]"
  obtains (fail) d' p' where "exec K (test_mck_init_procfs d) p = (Returned (- ENOMEM, d'), p')"
    | (ok) p' where
      "exec K (test_mck_init_procfs d) p = (Returned (0, d\<lparr>procdir := True, proc_ents := [(''devno'', True), (''tp_names'', True)]\<rparr>), p')"
      "view (kst p') = (view (kst p))\<lparr>l_procs :=
         insert (''test_mck'', ''tp_names'') (insert (''test_mck'', ''devno'') (insert ([], ''test_mck'') (l_procs (view (kst p)))))\<rparr>"
proof -
  define s1 where "s1 = snd (k_sys K (Drv (Proc_mkdir ''test_mck'')) (kst p))"
  define s2 where "s2 = snd (k_sys K (Drv (Proc_create ''test_mck'' ''devno'')) s1)"
  define s3 where "s3 = snd (k_sys K (Drv (Proc_create ''test_mck'' ''tp_names'')) s2)"
  note defs = test_mck_init_procfs_def k
  show ?thesis
  proof (cases "fst (k_sys K (Drv (Proc_mkdir ''test_mck'')) (kst p))")
    case (SErr e)
    then show ?thesis using fail by (simp add: defs)
  next
    case A: (SOk v os)
    note v1 = linux_rel_dest(7) [OF conforms_linuxD [OF K, of "Proc_mkdir ''test_mck''" "kst p", unfolded A], folded s1_def]
    show ?thesis
    proof (cases "fst (k_sys K (Drv (Proc_create ''test_mck'' ''devno'')) s1)")
      case (SErr e)
      then show ?thesis using fail A by (simp add: defs s1_def)
    next
      case B: (SOk v os)
      note v2 = linux_rel_dest(8) [OF conforms_linuxD [OF K, of "Proc_create ''test_mck'' ''devno''" s1, unfolded B], folded s2_def]
      show ?thesis
      proof (cases "fst (k_sys K (Drv (Proc_create ''test_mck'' ''tp_names'')) s2)")
        case (SErr e)
        then show ?thesis using fail A B by (simp add: defs s1_def s2_def)
      next
        case C: (SOk v os)
        note v3 = linux_rel_dest(8) [OF conforms_linuxD [OF K, of "Proc_create ''test_mck'' ''tp_names''" s2, unfolded C], folded s3_def]
        show ?thesis
          using A B C by (intro ok [of "p\<lparr>kst := s3\<rparr>"]) (simp_all add: v1 v2 v3, simp add: defs s1_def s2_def s3_def)
      qed
    qed
  qed
qed

lemma exec_call_setup_fail:
  "\<exists>d' p'. exec K (mck_printk ts d fmt args (setup_fail res d)) p = (Returned (res, d'), p') \<and> \<not> procdir d'"
  using exec_setup_fail by (fastforce simp: exec_mck_printk)


text \<open>The loop over the two devices fails, or has set up both.\<close>

lemma setup_devs_cases:
  fixes K :: "'s kernel" and p :: "'s process"
  assumes K: "conforms_linux K view" and d: "devlist d = devlist (drv_loaded idt mem)"
  obtains (fail) r d' p' where "exec K (setup_devs [0, 1] res d 0) p = (Returned (Some r, d'), p')"
    | (ok) h d' p' where "exec K (setup_devs [0, 1] res d 0) p = (Returned (None, d'), p')"
        "hd_major h = test_mck_major d" "drv_up h (d'\<lparr>procdir := True, proc_ents := [(''devno'', True), (''tp_names'', True)]\<rparr>)"
        "new_devs h (view (kst p))"
        "proc_ents d' = proc_ents d" "kmem d' = reset_loop (hd_buf h) 0 1 (kmem d)"
        "view (kst p') = (holds h (view (kst p)))\<lparr>l_regions := l_regions (view (kst p)), l_procs := l_procs (view (kst p))\<rparr>"
proof -
  have k0: "kind (devlist d ! 0) = Mmap_dev" "0 < length (devlist d)" by (simp_all add: d drv_loaded_def)
  show ?thesis
  proof (rule setup_dev0_cases [OF K k0, of res 0 p])
    fix r d' p1
    assume "exec K (setup_dev 0 res d 0) p = (Returned (Some r, d', 0), p1)"
    from exec_setup_devs_Cons [OF this] show ?thesis by (auto intro: fail)
  next
    fix h0 D0 mm0 off1 p1
    let ?d1 = "(upd_dev 0 (\<lambda>dev. dev\<lparr>dev_class := h0, devno := MKDEV (test_mck_major d) (int 0)\<rparr>) d)\<lparr>majmin := mm0\<rparr>"
    assume a: "h0 \<noteq> 0" "h0 \<notin> l_classes (view (kst p))" "h0 \<notin> fst ` l_devices (view (kst p))"
      "D0 \<subseteq> {(h0, MKDEV (test_mck_major d) (int 0))}"
      "view (kst p1) = (view (kst p))\<lparr>l_classes := insert h0 (l_classes (view (kst p))),
         l_cdevs := insert (0, MKDEV (test_mck_major d) (int 0)) (l_cdevs (view (kst p))),
         l_devices := D0 \<union> l_devices (view (kst p))\<rparr>"
      and e: "exec K (setup_dev 0 res d 0) p = (Returned (None, ?d1, off1), p1)"
    have k1: "kind (devlist ?d1 ! 1) = Mmap_dev2" "1 < length (devlist ?d1)" by (simp_all add: d drv_loaded_def upd_dev_def)
    note e1 = exec_setup_devs_Cons [OF e, of "[1]", unfolded option.case]
    show ?thesis
    proof (rule setup_dev1_cases [OF K k1, of 0 off1 p1])
      fix r d' off' p2
      assume "exec K (setup_dev 1 0 ?d1 off1) p1 = (Returned (Some r, d', off'), p2)"
      from exec_setup_devs_Cons [OF this, of "[]"] e1 show ?thesis by (auto intro: fail simp del: setup_devs.simps)
    next
      fix h1 D1 b mm off2 p2
      let ?d2 = "(upd_dev 1 (\<lambda>dev. dev\<lparr>dev_class := h1, devno := MKDEV (test_mck_major ?d1) (int 1), private_data := b\<rparr>)
             (?d1\<lparr>majmin := mm\<rparr>))\<lparr>kmem := reset_loop b 0 1 (kmem ?d1)\<rparr>"
      assume b: "h1 \<noteq> 0" "h1 \<notin> l_classes (view (kst p1))" "h1 \<notin> fst ` l_devices (view (kst p1))"
          "D1 \<subseteq> {(h1, MKDEV (test_mck_major ?d1) (int 1))}" "b \<noteq> 0" "b \<notin> fst ` l_bufs (view (kst p1))"
          "unat b + unat test_mck_mmap_dev2_buf_size < 2 ^ 64"
          "view (kst p2) = (view (kst p1))\<lparr>l_classes := insert h1 (l_classes (view (kst p1))),
             l_cdevs := insert (1, MKDEV (test_mck_major ?d1) (int 1)) (l_cdevs (view (kst p1))),
             l_devices := D1 \<union> l_devices (view (kst p1)),
             l_bufs := insert (b, test_mck_mmap_dev2_buf_size) (l_bufs (view (kst p1)))\<rparr>"
        and f: "exec K (setup_dev 1 0 ?d1 off1) p1 = (Returned (None, ?d2, off2), p2)"
      define h where "h = \<lparr>hd_major = test_mck_major d, hd_class0 = h0, hd_class1 = h1, hd_devices = D1 \<union> D0, hd_buf = b\<rparr>"
      have e2: "exec K (setup_devs [0, 1] res d 0) p = (Returned (None, ?d2), p2)"
        using e1 exec_setup_devs_Cons [OF f, of "[]"] by (simp del: setup_devs.simps(2))
      have u: "drv_up h (?d2\<lparr>procdir := True, proc_ents := [(''devno'', True), (''tp_names'', True)]\<rparr>)"
        by (simp add: drv_up_def h_def upd_dev_def d drv_loaded_def)
      have n: "new_devs h (view (kst p))"
        using a b by (auto simp: new_devs_def h_def upd_dev_def)
      show ?thesis
        by (rule ok [OF e2 _ u n]) (simp_all add: h_def upd_dev_def holds_def a b Un_assoc)
    qed
  qed
qed

text \<open>A setup ends with everything undone as far as the module remembers it, or with everything in place.\<close>

lemma setup_cases:
  fixes K :: "'s kernel" and p :: "'s process"
  assumes K: "conforms_linux K view"
  obtains (fail) res d p' where "exec K (test_mck_setup (drv_loaded idt mem)) p = (Returned (res, d), p')" "\<not> procdir d"
    | (up) h d p' where "exec K (test_mck_setup (drv_loaded idt mem)) p = (Returned (0, d), p')"
        "drv_up h d" "new_to h (view (kst p))" "view (kst p') = holds h (view (kst p))"
        "kmem d = reset_loop (hd_buf h) 0 1 mem"
proof (cases "fst (k_sys K (Drv (Alloc_chrdev_region 0 2)) (kst p))")
  case (SErr e)
  show ?thesis
    using exec_call_setup_fail [of K "[]" "drv_loaded idt mem" "''error get major %d\<newline>''" "[FInt (- e)]" "- e"
      "p\<lparr>kst := snd (k_sys K (Drv (Alloc_chrdev_region 0 2)) (kst p))\<rparr>"] SErr
    by (auto simp: test_mck_setup_def intro: fail)
next
  case (SOk v os)
  define p0 where "p0 = p\<lparr>kst := snd (k_sys K (Drv (Alloc_chrdev_region 0 2)) (kst p))\<rparr>"
  obtain ma where ma: "0 < ma" "ma < 4096" "os = [OInt (uint (MKDEV ma 0))]" "(MKDEV ma 0, 2) \<notin> l_regions (view (kst p))"
    "view (kst p0) = (view (kst p))\<lparr>l_regions := insert (MKDEV ma 0, 2) (l_regions (view (kst p)))\<rparr>"
    using linux_rel_dest(6) [OF conforms_linuxD [OF K, of "Alloc_chrdev_region 0 2" "kst p", unfolded SOk]]
    by (auto simp: p0_def)
  define d0 where "d0 = (drv_loaded idt mem)\<lparr>test_mck_major := ma\<rparr>"
  have two: "[0..<2] = [0, 1 :: nat]" by (simp add: upt_rec)
  have e: "exec K (test_mck_setup (drv_loaded idt mem)) p =
      exec K (call (setup_devs [0, 1] v d0 0) (\<lambda>(failed, d).
            case failed of
              Some res \<Rightarrow> setup_fail res d
            | None \<Rightarrow>
                call (test_mck_init_procfs d) (\<lambda>(res, d).
                  if res \<noteq> 0
                  then mck_printk [] d ''error %d create procfs.'' [FInt res] (setup_fail res d)
                  else Return (0, d)))) p0" (is "_ = exec K (call _ ?rest) p0")
    using SOk ma MAJOR_MKDEV [of ma]
    by (simp add: test_mck_setup_def p0_def d0_def Let_def two del: setup_devs.simps upt.simps)
  have dl: "devlist d0 = devlist (drv_loaded idt mem)" "test_mck_major d0 = ma" "kmem d0 = mem"
    by (simp_all add: d0_def drv_loaded_def)
  show ?thesis
  proof (rule setup_devs_cases [OF K dl(1), of v p0])
    fix r d' p1
    assume "exec K (setup_devs [0, 1] v d0 0) p0 = (Returned (Some r, d'), p1)"
    with e have "exec K (test_mck_setup (drv_loaded idt mem)) p = exec K (setup_fail r d') p1"
      by (simp add: exec_call_Returned del: setup_devs.simps)
    with exec_setup_fail [of K r d' p1] show ?thesis by (auto intro: fail)
  next
    fix h d1 p1
    assume d1: "exec K (setup_devs [0, 1] v d0 0) p0 = (Returned (None, d1), p1)" "hd_major h = test_mck_major d0"
        "drv_up h (d1\<lparr>procdir := True, proc_ents := [(''devno'', True), (''tp_names'', True)]\<rparr>)"
        "new_devs h (view (kst p0))"
        "proc_ents d1 = proc_ents d0" "kmem d1 = reset_loop (hd_buf h) 0 1 (kmem d0)"
        "view (kst p1) = (holds h (view (kst p0)))\<lparr>l_regions := l_regions (view (kst p0)), l_procs := l_procs (view (kst p0))\<rparr>"
    have l1: "(view (kst p1))\<lparr>l_procs :=
         insert (''test_mck'', ''tp_names'') (insert (''test_mck'', ''devno'') (insert ([], ''test_mck'') (l_procs (view (kst p1)))))\<rparr>
        = holds h (view (kst p))"
      using d1 by (simp add: holds_def ma dl)
    have n: "new_to h (view (kst p))" using d1 ma by (simp add: new_to_def new_devs_def dl)
    have pe: "proc_ents d1 = [(''devno'', False), (''tp_names'', False)]"
      using d1 by (simp add: d0_def drv_loaded_def)
    from e d1(1) have e1: "exec K (test_mck_setup (drv_loaded idt mem)) p = exec K (?rest (None, d1)) p1"
      by (simp add: exec_call_Returned del: setup_devs.simps)
    show ?thesis
    proof (rule init_procfs_cases [OF K pe, of p1])
      fix d2 p2
      assume "exec K (test_mck_init_procfs d1) p1 = (Returned (- ENOMEM, d2), p2)"
      with e1 have "exec K (test_mck_setup (drv_loaded idt mem)) p =
          exec K (mck_printk [] d2 ''error %d create procfs.'' [FInt (- ENOMEM)] (setup_fail (- ENOMEM) d2)) p2"
        by (simp add: exec_call_Returned)
      with exec_call_setup_fail [of K "[]" d2 _ _ "- ENOMEM" p2] show ?thesis by (metis fail)
    next
      fix p2
      assume "exec K (test_mck_init_procfs d1) p1 =
          (Returned (0, d1\<lparr>procdir := True, proc_ents := [(''devno'', True), (''tp_names'', True)]\<rparr>), p2)"
        "view (kst p2) = (view (kst p1))\<lparr>l_procs :=
         insert (''test_mck'', ''tp_names'') (insert (''test_mck'', ''devno'') (insert ([], ''test_mck'') (l_procs (view (kst p1)))))\<rparr>"
      with e1 l1 d1 n show ?thesis by (intro up [OF _ d1(3) n]) (simp_all add: exec_call_Returned dl)
    qed
  qed
qed

subsection \<open>The pages of mmap_dev2\<close>

lemma buf_size_val: "test_mck_mmap_dev2_buf_size = 12288"
  by (simp add: test_mck_mmap_dev2_buf_size_def abi_defs)

lemma kmemset_in: "x - a < n \<Longrightarrow> kmemset a v n m x = word_of_int v"
  and kmemset_out: "\<not> x - a < n \<Longrightarrow> kmemset a v n m x = m x"
  by (simp_all add: kmemset_def)

text \<open>The loop runs three times.\<close>

lemma reset_loop_unroll:
  "reset_loop b 0 1 m = kmemset (b + 8192) 3 4096 (kmemset (b + 4096) 2 4096 (kmemset b 1 4096 m))"
proof -
  have "reset_loop b 12288 4 m' = m'" for m' by (subst reset_loop.simps) (simp add: buf_size_val)
  moreover have "reset_loop b 8192 3 m' = reset_loop b 12288 4 (kmemset (b + 8192) 3 4096 m')" for m'
    by (subst reset_loop.simps) (simp add: buf_size_val abi_defs)
  moreover have "reset_loop b 4096 2 m' = reset_loop b 8192 3 (kmemset (b + 4096) 2 4096 m')" for m'
    by (subst reset_loop.simps) (simp add: buf_size_val abi_defs)
  moreover have "reset_loop b 0 1 m = reset_loop b 4096 2 (kmemset b 1 4096 m)"
    by (subst reset_loop.simps) (simp add: buf_size_val abi_defs)
  ultimately show ?thesis by simp
qed

lemma kmemset_at_offset: "kmemset (b + c) v 4096 m (b + y) = (if y - c < 4096 then word_of_int v else m (b + y))"
  by (simp add: kmemset_def)

lemma reset_loop_at:
  "reset_loop b 0 1 m (b + y) = (if unat y < 12288 then of_nat (unat y div 4096 + 1) else m (b + y))"
proof -
  have y: "y - 8192 < 4096 \<longleftrightarrow> 8192 \<le> unat y \<and> unat y < 12288"
    "y - 4096 < 4096 \<longleftrightarrow> 4096 \<le> unat y \<and> unat y < 8192" "y < 4096 \<longleftrightarrow> unat y < 4096"
    using unsigned_less [of y] by (auto simp: word_less_nat_alt unat_sub_if')
  have q: "8192 \<le> n \<Longrightarrow> n < 12288 \<Longrightarrow> n div 4096 = 2" "4096 \<le> n \<Longrightarrow> n < 8192 \<Longrightarrow> n div 4096 = 1" for n :: nat
    by auto
  show ?thesis
    using kmemset_at_offset [of b 0] unfolding reset_loop_unroll by (auto simp: kmemset_at_offset y q)
qed

lemma page_offset:
  assumes "i < 3" "j < 4096"
  shows "unat (of_nat (4096 * i + j) :: u64) = 4096 * i + j"
  using assms unfolding unsigned_of_nat by (simp add: take_bit_nat_eq_self)

lemma reset_loop_page:
  "i < 3 \<Longrightarrow> j < 4096 \<Longrightarrow> reset_loop b 0 1 m (b + of_nat (4096 * i + j)) = of_nat (i + 1)"
  unfolding reset_loop_at page_offset by simp


definition fault_page :: "u64 \<Rightarrow> u64 \<Rightarrow> u64 option" where
  "fault_page buf pgoff =
     (if buf = 0 \<or> test_mck_mmap_dev2_buf_size \<le> push_bit 12 pgoff then None else Some (buf + push_bit 12 pgoff))"

lemma exec_fault:
  "\<exists>p'. exec K (test_mck_mmap_dev2_vma_fault d dev pgoff) p =
     (Returned (if private_data dev = 0 then - ENOMEM
                else if fault_page (private_data dev) pgoff = None then - EFAULT else 0,
                fault_page (private_data dev) pgoff), p') \<and> kst p' = kst p"
  by (simp add: test_mck_mmap_dev2_vma_fault_def fault_page_def exec_simps Let_def)

lemma unat_push_12: "unat (push_bit 12 pg :: u64) = 4096 * (unat pg mod 2 ^ 52)"
proof -
  have "unat (push_bit 12 pg) = (unat pg * 4096) mod 2 ^ 64"
    unfolding unsigned_push_bit_eq by (simp add: push_bit_eq_mult take_bit_eq_mod)
  also have "\<dots> = 4096 * (unat pg mod 2 ^ 52)"
    using mult_mod_right [of 4096 "unat pg" "2 ^ 52"] by (simp add: mult.commute)
  finally show ?thesis .
qed

text \<open>The offset is computed in 64 bits: page numbers that differ by a multiple of 2^52 are served the same page.\<close>

lemma fault_page_iff:
  "fault_page buf pg = (if buf \<noteq> 0 \<and> unat pg mod 2 ^ 52 < 3 then Some (buf + of_nat (4096 * (unat pg mod 2 ^ 52))) else None)"
proof -
  have "push_bit 12 pg = of_nat (4096 * (unat pg mod 2 ^ 52))"
    unfolding unat_push_12 [symmetric] by simp
  moreover have "(test_mck_mmap_dev2_buf_size \<le> push_bit 12 pg) \<longleftrightarrow> 3 \<le> unat pg mod 2 ^ 52"
    unfolding word_le_nat_alt unat_push_12 buf_size_val by simp
  ultimately show ?thesis by (simp add: fault_page_def)
qed


text \<open>
  What a test program relies on of such a device: its first \<^verbatim>\<open>npages\<close> pages are served, always the
  same memory, later ones are not, and after a reset page \<^verbatim>\<open>i\<close> is filled with \<^verbatim>\<open>i + 1\<close>.
\<close>

locale page_device =
  fixes ok :: "'d \<Rightarrow> bool" and reset :: "'d \<Rightarrow> 'd" and page :: "'d \<Rightarrow> u64 \<Rightarrow> u64 option"
    and byte :: "'d \<Rightarrow> u64 \<Rightarrow> u8" and npages :: nat
  assumes reset_ok: "ok d \<Longrightarrow> ok (reset d)"
    and page_beyond: "ok d \<Longrightarrow> npages \<le> i \<Longrightarrow> i < 2 ^ 52 \<Longrightarrow> page d (of_nat i) = None"
    and page_reset: "ok d \<Longrightarrow> i < npages \<Longrightarrow>
      \<exists>a. page d (of_nat i) = Some a \<and> page (reset d) (of_nat i) = Some a \<and>
        (\<forall>j<4096. byte (reset d) (a + of_nat j) = of_nat (i + 1))"
begin

definition contents :: "'d \<Rightarrow> nat \<Rightarrow> u8 option" where
  "contents d n = map_option (\<lambda>a. byte d (a + of_nat (n mod 4096))) (page d (of_nat (n div 4096)))"

lemma contents_reset:
  assumes "ok d" "n < 2 ^ 64"
  shows "contents (reset d) n = (if n < 4096 * npages then Some (of_nat (n div 4096 + 1)) else None)"
proof (cases "n div 4096 < npages")
  case True
  then obtain a where "page (reset d) (of_nat (n div 4096)) = Some a"
    "\<forall>j<4096. byte (reset d) (a + of_nat j) = of_nat (n div 4096 + 1)"
    using page_reset [OF assms(1)] by blast
  moreover have "n mod 4096 < 4096" by simp
  moreover have "n < 4096 * npages" using True by (simp add: less_mult_imp_div_less mult.commute div_less_iff_less_mult)
  ultimately show ?thesis by (auto simp: contents_def)
next
  case False
  then have "page (reset d) (of_nat (n div 4096)) = None"
    using assms by (intro page_beyond reset_ok) auto
  with False show ?thesis by (auto simp: contents_def)
qed

end

text \<open>The module's device two is one: the buffer, the fault handler and the reset of the driver.\<close>

interpretation dev2: page_device
  "\<lambda>d. private_data (devlist d ! 1) \<noteq> 0"
  "\<lambda>d. d\<lparr>kmem := test_mck_mmap_dev2_buffer_reset (devlist d ! 1) (kmem d)\<rparr>"
  "\<lambda>d. fault_page (private_data (devlist d ! 1))" kmem 3
proof (unfold_locales, goal_cases)
  case (2 d i)
  then show ?case by (simp add: fault_page_iff unsigned_of_nat take_bit_nat_eq_self)
next
  case (3 d i)
  then show ?case
    using reset_loop_page [of i _ "private_data (devlist d ! 1)" "kmem d"]
    by (simp add: fault_page_iff unsigned_of_nat take_bit_nat_eq_self test_mck_mmap_dev2_buffer_reset_def
        add.assoc)
qed simp

subsection \<open>Serving requests\<close>

text \<open>
  What the loaded module may be asked to do, in any order: the operations of its device files, page
  faults and writes by user programs to the pages it serves, and reads of its entries.
\<close>

inductive drv_step :: "'s kernel \<Rightarrow> drv \<times> 's process \<Rightarrow> drv \<times> 's process \<Rightarrow> bool" for K where
  open1: "exec K (test_mck_mmap_dev_open d) p = (Returned r, p') \<Longrightarrow> drv_step K (d, p) (d, p')"
| release1: "exec K (test_mck_mmap_dev_release d) p = (Returned r, p') \<Longrightarrow> drv_step K (d, p) (d, p')"
| ioctl1: "exec K (test_mck_mmap_dev_ioctl d cmd arg) p = (Returned r, p') \<Longrightarrow> drv_step K (d, p) (d, p')"
| mmap1: "exec K (test_mck_mmap_dev_mmap d a b pg) p = (Returned r, p') \<Longrightarrow> drv_step K (d, p) (d, p')"
| open2: "exec K (test_mck_mmap_dev2_open d i) p = (Returned r, p') \<Longrightarrow> drv_step K (d, p) (d, p')"
| release2: "exec K (test_mck_mmap_dev2_release d) p = (Returned r, p') \<Longrightarrow> drv_step K (d, p) (d, p')"
| ioctl2: "exec K (test_mck_mmap_dev2_ioctl i cmd arg d) p = (Returned (r, d'), p') \<Longrightarrow> drv_step K (d, p) (d', p')"
| mmap2: "exec K (test_mck_mmap_dev2_mmap d i a b pg) p = (Returned r, p') \<Longrightarrow> drv_step K (d, p) (d, p')"
| fault2: "exec K (test_mck_mmap_dev2_vma_fault d (devlist d ! i) pg) p = (Returned r, p') \<Longrightarrow> drv_step K (d, p) (d, p')"
| user_write: "fault_page (private_data (devlist d ! 1)) pg = Some a \<Longrightarrow> j < 4096 \<Longrightarrow>
    drv_step K (d, p) (d\<lparr>kmem := (kmem d)(a + j := v)\<rparr>, p)"
| devno_read: "exec K (test_mck_procfs_devno_read d n pos) p = (Returned r, p') \<Longrightarrow> drv_step K (d, p) (d, p')"
| tp_names_read: "exec K (test_mck_procfs_tp_names_read n pos) p = (Returned r, p') \<Longrightarrow> drv_step K (d, p) (d, p')"

lemma string_read_ledger:
  assumes K: "conforms_linux K view" and "exec K (test_mck_procfs_string_read n pos str) p = (Returned r, p')"
  shows "view (kst p') = view (kst p)"
proof -
  have "view (snd (k_sys K (Drv (Copy_to_user s)) w)) = view w" for s w
    using conforms_linuxD [OF K, of "Copy_to_user s" w] by auto
  with assms(2) show ?thesis
    by (auto simp: test_mck_procfs_string_read_def Let_def split: if_splits sysres.splits)
qed

lemma mmap1_ledger:
  assumes K: "conforms_linux K view" and "exec K (test_mck_mmap_dev_mmap d a b pg) p = (Returned r, p')"
  shows "view (kst p') = view (kst p)"
proof -
  have "view (snd (k_sys K (Drv (Remap_pfn_range x y z)) w)) = view w" for x y z w
    using conforms_linuxD [OF K, of "Remap_pfn_range x y z" w] by (auto simp: refused_def)
  with assms(2) show ?thesis
    by (auto simp: test_mck_mmap_dev_mmap_def test_mck_mmap_dev_vma_open_def Let_def drv_int_def exec_simps split: if_splits sysres.splits)
qed

lemma drv_step_keeps:
  assumes K: "conforms_linux K view" and "drv_step K (d, p) (d', p')" "drv_up h d" "view (kst p) = l"
  shows "drv_up h d' \<and> view (kst p') = l"
  using assms(2)
proof cases
  case mmap1
  then show ?thesis using assms(3,4) mmap1_ledger [OF K] by auto
next
  case devno_read
  then show ?thesis using assms(3,4) string_read_ledger [OF K] by (auto simp: test_mck_procfs_devno_read_def)
next
  case tp_names_read
  then show ?thesis using assms(3,4) string_read_ledger [OF K] by (auto simp: test_mck_procfs_tp_names_read_def)
next
  case (fault2 i pg r)
  then show ?thesis using assms(3,4) exec_fault [of K d "devlist d ! i" pg p] by auto
qed (use assms(3,4) in \<open>auto simp: exec_simps drv_up_def test_mck_mmap_dev_open_def test_mck_mmap_dev_release_def
    test_mck_mmap_dev_ioctl_def test_mck_mmap_dev2_open_def test_mck_mmap_dev2_release_def
    test_mck_mmap_dev2_ioctl_def test_mck_mmap_dev2_mmap_def\<close>)

lemma drv_steps_keep:
  assumes K: "conforms_linux K view" and "(drv_step K)\<^sup>*\<^sup>* x y" "drv_up h (fst x)"
  shows "drv_up h (fst y) \<and> view (kst (snd y)) = view (kst (snd x))"
  using assms(2,3)
proof (induction rule: rtranclp_induct)
  case (step y z)
  then show ?case using drv_step_keeps [OF K, of "fst y" "snd y" "fst z" "snd z"] by auto
qed simp

subsection \<open>Reading an entry in pieces\<close>

text \<open>\<^verbatim>\<open>k\<close> reads of up to \<^verbatim>\<open>n\<close> bytes, one after the other, from position \<^verbatim>\<open>pos\<close>.\<close>

fun reads :: "nat \<Rightarrow> u64 \<Rightarrow> string \<Rightarrow> u64 \<Rightarrow> (int list \<times> u64) prog" where
  "reads 0 n str pos = Return ([], pos)"
| "reads (Suc k) n str pos =
     call (test_mck_procfs_string_read n pos str) (\<lambda>(r, pos).
     call (reads k n str pos) (\<lambda>(rs, pos). Return (r # rs, pos)))"

text \<open>The user's side of \<^verbatim>\<open>copy_to_user\<close>: everything arrives, behind what arrived before.\<close>

definition copies :: "'s kernel \<Rightarrow> ('s \<Rightarrow> string) \<Rightarrow> bool" where
  "copies K got \<longleftrightarrow> (\<forall>s w. fst (k_sys K (Drv (Copy_to_user s)) w) = SOk 0 [] \<and>
     got (snd (k_sys K (Drv (Copy_to_user s)) w)) = got w @ s)"

lemma word_of_nat_unat_id: "unat (w :: u64) = m \<Longrightarrow> w = of_nat m"
  by auto

lemma string_read_step:
  assumes "copies K got" "length str < 2 ^ 63" "unat n < 2 ^ 63" "unat pos \<le> length str"
  shows "\<exists>p'. exec K (test_mck_procfs_string_read n pos str) p =
      (Returned (int (min (unat n) (length str - unat pos)), pos + of_nat (min (unat n) (length str - unat pos))), p') \<and>
    got (kst p') = got (kst p) @ take (unat n) (drop (unat pos) str)"
proof -
  let ?len = "of_nat (length str) :: u64"
  define m where "m = min (unat n) (length str - unat pos)"
  have len: "unat ?len = length str" using assms(2) by (simp add: unsigned_of_nat take_bit_nat_eq_self)
  have sum: "unat (pos + n) = unat pos + unat n" using assms by (intro unat_plus_no_wrap) simp
  have cnt: "unat (if ?len < pos + n then ?len - pos else n) = m"
    using assms(4) len sum by (auto simp: word_less_nat_alt unat_sub word_le_nat_alt m_def)
  note cw = word_of_nat_unat_id [OF cnt]
  have "m < 2 ^ 63" using assms(3) by (simp add: m_def)
  then have s: "sint (of_nat m :: u64) = int m"
    by (simp add: sint_uint unsigned_of_nat signed_take_bit_int_eq_self take_bit_nat_eq_self of_nat_take_bit take_bit_int_eq_self)
  have tk: "take m (drop (unat pos) str) = take (unat n) (drop (unat pos) str)"
    by (simp add: m_def min_def)
  have um: "unat (of_nat m :: u64) = m" using cnt unfolding cw .
  have "exec K (test_mck_procfs_string_read n pos str) p =
      (Returned (int m, pos + of_nat m), p\<lparr>kst := snd (k_sys K (Drv (Copy_to_user (take m (drop (unat pos) str)))) (kst p))\<rparr>)"
    using assms(1,4) len unfolding test_mck_procfs_string_read_def Let_def cw
    by (simp add: word_less_nat_alt s um copies_def)
  with assms(1) show ?thesis unfolding m_def [symmetric] by (simp add: copies_def tk)
qed

lemma exec_reads:
  assumes "copies K got" "length str < 2 ^ 63" "unat n < 2 ^ 63" "unat pos \<le> length str"
  shows "\<exists>rs p'. exec K (reads k n str pos) p =
      (Returned (rs, pos + of_nat (min (k * unat n) (length str - unat pos))), p') \<and>
    got (kst p') = got (kst p) @ take (k * unat n) (drop (unat pos) str) \<and>
    sum_list rs = int (min (k * unat n) (length str - unat pos)) \<and> length rs = k"
  using assms(4)
proof (induction k arbitrary: pos p)
  case (Suc k)
  define m where "m = min (unat n) (length str - unat pos)"
  obtain p1 where p1: "exec K (test_mck_procfs_string_read n pos str) p = (Returned (int m, pos + of_nat m), p1)"
    "got (kst p1) = got (kst p) @ take (unat n) (drop (unat pos) str)"
    using string_read_step [OF assms(1-3) Suc.prems, of p] unfolding m_def by blast
  have u: "unat (pos + of_nat m) = unat pos + m"
    using Suc.prems assms(2) by (subst unat_of_nat_add) (auto simp: m_def)
  have m: "min (Suc k * unat n) (length str - unat pos) = m + min (k * unat n) (length str - unat pos - m)"
    by (auto simp: m_def)
  have t: "take (Suc k * unat n) xs = take (unat n) xs @ take (k * unat n) (drop (unat n) xs)" for xs :: string
    by (simp add: take_add)
  have dr: "take j (drop (m + unat pos) str) = take j (drop (unat n + unat pos) str)" for j
    by (cases "unat n \<le> length str - unat pos") (auto simp: m_def)
  have le: "unat (pos + of_nat m) \<le> length str" using Suc.prems u by (simp add: m_def)
  obtain rs p2 where q: "exec K (reads k n str (pos + of_nat m)) p1 =
      (Returned (rs, pos + of_nat m + of_nat (min (k * unat n) (length str - unat pos - m))), p2)"
    "got (kst p2) = got (kst p1) @ take (k * unat n) (drop (unat pos + m) str)"
    "sum_list rs = int (min (k * unat n) (length str - unat pos - m))" "length rs = k"
    using Suc.IH [OF le, of p1] unfolding u diff_diff_left [symmetric] by blast
  have "exec K (reads (Suc k) n str pos) p =
      (Returned (int m # rs, pos + of_nat m + of_nat (min (k * unat n) (length str - unat pos - m))), p2)"
    using p1(1) q(1) by (simp add: exec_call_Returned)
  moreover have "got (kst p2) = got (kst p) @ take (Suc k * unat n) (drop (unat pos) str)"
    unfolding t using p1(2) q(2) dr [of "k * unat n"] by (simp add: add.commute)
  ultimately show ?case
    using q(3,4) unfolding m by (intro exI [of _ "int m # rs"] exI [of _ p2]) (simp add: add.assoc)
qed simp


subsection \<open>Properties\<close>

text \<open>
  C6. Loading, serving and unloading: once the initialisation function has set up the entries under
  \<^verbatim>\<open>/proc\<close> it answers 0, and after any sequence of requests the exit function returns with every
  resource of the kernel (device numbers, classes, devices, memory, entries) as it was before
  loading: nothing leaks and nothing of others is released.
\<close>

theorem module_load_serve_unload:
  assumes "conforms_linux K view" and "names_free (view (kst p))"
    and "exec K (test_mck_init (drv_loaded idt mem)) p = (Returned (res, d), p1)" and "procdir d"
    and "(drv_step K)\<^sup>*\<^sup>* (d, p1) (d2, p2)"
  shows "res = 0 \<and> (\<exists>d3 p3. exec K (test_mck_exit d2) p2 = (Returned d3, p3) \<and> view (kst p3) = view (kst p))"
proof (rule setup_cases [OF assms(1), of idt mem p])
  fix res' d' p'
  assume "exec K (test_mck_setup (drv_loaded idt mem)) p = (Returned (res', d'), p')" "\<not> procdir d'"
  with assms(3,4) show ?thesis by (simp add: test_mck_init_def)
next
  fix h d' p'
  assume s: "exec K (test_mck_setup (drv_loaded idt mem)) p = (Returned (0, d'), p')" "drv_up h d'"
    "new_to h (view (kst p))" "view (kst p') = holds h (view (kst p))"
  with assms(3) have "res = 0" "d' = d" "p' = p1" by (simp_all add: test_mck_init_def)
  with s drv_steps_keep [OF assms(1,5), of h] have "drv_up h d2" "view (kst p2) = holds h (view (kst p))" by simp_all
  from cleanup_releases [OF assms(1) this s(3) assms(2)] \<open>res = 0\<close> show ?thesis by (simp add: test_mck_exit_def)
qed

theorem module_load_serve_unload_witness:
  "\<exists>d p1 d2 p2 d3 p3.
     exec ref_kernel (test_mck_init (drv_loaded (Some ''id'') (\<lambda>_. 0))) init_process = (Returned (0, d), p1) \<and>
     exec ref_kernel (test_mck_mmap_dev2_ioctl 1 TEST_MCK_MMAP_DEV2_BUF_RESET 0 d) p1 = (Returned (0, d2), p2) \<and>
     exec ref_kernel (test_mck_exit d2) p2 = (Returned d3, p3) \<and> w_linux (kst p3) = w_linux init_world"
proof -
  have ev: "case exec ref_kernel (test_mck_init (drv_loaded (Some ''id'') (\<lambda>_. 0))) init_process of
      (Returned (r, d), p1) \<Rightarrow> procdir d | _ \<Rightarrow> False"
    by (simp add: test_mck_init_def test_mck_setup_def exec_simps ref_kernel_def init_process_def init_world_def
      acquire_def first_free_def MAJOR_MKDEV upt_rec setup_dev_def drv_loaded_def upd_dev_def Let_def drv_int_def dev_init_def
      test_mck_mmap_dev_init_def test_mck_mmap_dev2_init_def buf_size_val test_mck_init_procfs_def)
  then obtain r d p1 where a: "exec ref_kernel (test_mck_init (drv_loaded (Some ''id'') (\<lambda>_. 0))) init_process = (Returned (r, d), p1)"
    "procdir d" by (auto split: prod.splits outcome.splits)
  have n: "names_free (w_linux (kst init_process))" by (simp add: names_free_def init_process_def init_world_def)
  obtain d2 p2 where b: "exec ref_kernel (test_mck_mmap_dev2_ioctl 1 TEST_MCK_MMAP_DEV2_BUF_RESET 0 d) p1 = (Returned (0, d2), p2)"
    by (simp add: test_mck_mmap_dev2_ioctl_def exec_simps)
  then have "(drv_step ref_kernel)\<^sup>*\<^sup>* (d, p1) (d2, p2)" by (blast intro: drv_step.ioctl2)
  from module_load_serve_unload [OF ref_conforms_linux n a this] a b show ?thesis
    by (auto simp: init_process_def)
qed



text \<open>
  C31. When the class of the first device cannot be created, the initialisation function answers 0
  although nothing is set up: the value it returns is that of the call before.
\<close>

theorem class_create_failure_is_success:
  assumes "conforms_linux K view"
    and "fst (k_sys K (Drv (Alloc_chrdev_region 0 2)) (kst p)) = SOk v os"
    and "fst (k_sys K (Drv (Class_create ''mmap_dev'')) (snd (k_sys K (Drv (Alloc_chrdev_region 0 2)) (kst p)))) = SErr e"
  shows "\<exists>d p'. exec K (test_mck_init (drv_loaded idt mem)) p = (Returned (0, d), p') \<and> \<not> procdir d"
proof -
  have "v = 0"
    using linux_rel_dest(6) [OF conforms_linuxD [OF assms(1), of "Alloc_chrdev_region 0 2" "kst p", unfolded assms(2)]] by auto
  have two: "[0..<2] = [0, 1 :: nat]" by (simp add: upt_rec)
  have "\<exists>d p1. exec K (test_mck_init (drv_loaded idt mem)) p = exec K (setup_fail 0 d) p1"
    using assms(2,3) \<open>v = 0\<close>
    by (simp add: test_mck_init_def test_mck_setup_def two setup_dev_def exec_simps Let_def drv_loaded_def del: upt.simps) blast
  then show ?thesis using exec_setup_fail by metis
qed


text \<open>A kernel that conforms and never creates a class.\<close>

definition no_class_sys :: "syscall \<Rightarrow> world \<Rightarrow> sysres \<times> world" where
  "no_class_sys c w = (case c of Drv (Class_create nm) \<Rightarrow> (SErr ENOMEM, w) | _ \<Rightarrow> ref_sys c w)"

lemma no_class_conforms: "conforms_linux (ref_kernel\<lparr>k_sys := no_class_sys\<rparr>) w_linux"
proof -
  have "linux_rel c (w_linux w) (fst (no_class_sys (Drv c) w)) (w_linux (snd (no_class_sys (Drv c) w)))" for c w
    using ref_linux_rel [of c "w_linux w"]
    by (cases c) (simp_all add: no_class_sys_def split_beta refused_def del: ref_linux.simps linux_rel.simps, simp add: refused_def)
  then show ?thesis by (simp add: conforms_linux_def)
qed

theorem class_create_failure_is_success_witness:
  "\<exists>d p'. exec (ref_kernel\<lparr>k_sys := no_class_sys\<rparr>) (test_mck_init (drv_loaded None (\<lambda>_. 0))) init_process = (Returned (0, d), p') \<and>
     \<not> procdir d"
  by (rule class_create_failure_is_success [OF no_class_conforms, where v = 0 and e = ENOMEM])
    (simp_all add: no_class_sys_def init_process_def init_world_def acquire_def first_free_def)

text \<open>
  C29. Resetting the buffer of \<^verbatim>\<open>mmap_dev2\<close> through \<^verbatim>\<open>ioctl\<close> and then faulting: a page whose number is
  below three modulo \<open>2^52\<close> (the offset is computed in 64 bits) is served from the buffer and holds
  its number plus one in every byte; any other fault gives \<^verbatim>\<open>-EFAULT\<close> and no page.
\<close>

theorem mmap_dev2_reset_fault:
  assumes "private_data (devlist d ! i) \<noteq> 0"
  shows "\<exists>d' p' p''. exec K (test_mck_mmap_dev2_ioctl i TEST_MCK_MMAP_DEV2_BUF_RESET arg d) p = (Returned (0, d'), p') \<and>
    (let pg = unat pgoff mod 2 ^ 52; buf = private_data (devlist d ! i) in
     if pg < 3
     then exec K (test_mck_mmap_dev2_vma_fault d' (devlist d' ! i) pgoff) p' = (Returned (0, Some (buf + of_nat (4096 * pg))), p'') \<and>
       (\<forall>j<4096. kmem d' (buf + of_nat (4096 * pg + j)) = of_nat (pg + 1))
     else exec K (test_mck_mmap_dev2_vma_fault d' (devlist d' ! i) pgoff) p' = (Returned (- EFAULT, None), p''))"
proof -
  define d' where "d' = d\<lparr>kmem := reset_loop (private_data (devlist d ! i)) 0 1 (kmem d)\<rparr>"
  obtain p' where p': "exec K (test_mck_mmap_dev2_ioctl i TEST_MCK_MMAP_DEV2_BUF_RESET arg d) p = (Returned (0, d'), p')"
    by (simp add: test_mck_mmap_dev2_ioctl_def exec_simps d'_def test_mck_mmap_dev2_buffer_reset_def)
  obtain p'' where p'': "exec K (test_mck_mmap_dev2_vma_fault d' (devlist d' ! i) pgoff) p' =
     (Returned (if fault_page (private_data (devlist d ! i)) pgoff = None then - EFAULT else 0,
                fault_page (private_data (devlist d ! i)) pgoff), p'')"
    using exec_fault [of K d' "devlist d' ! i" pgoff p'] assms by (auto simp: d'_def)
  have "\<forall>j<4096. kmem d' (private_data (devlist d ! i) + of_nat (4096 * k + j)) = of_nat (k + 1)" if "k < 3" for k
    using reset_loop_page that unfolding d'_def by simp
  with p' p'' assms show ?thesis
    by (intro exI [of _ d'] exI [of _ p'] exI [of _ p'']) (simp add: fault_page_iff Let_def)
qed

theorem mmap_dev2_reset_fault_witness:
  "let d = upd_dev 1 (private_data_update (\<lambda>_. 0x100000)) (drv_loaded None (\<lambda>_. 0)) in
   \<exists>d' p' p''. exec ref_kernel (test_mck_mmap_dev2_ioctl 1 TEST_MCK_MMAP_DEV2_BUF_RESET 0 d) init_process = (Returned (0, d'), p') \<and>
     exec ref_kernel (test_mck_mmap_dev2_vma_fault d' (devlist d' ! 1) 2) p' = (Returned (0, Some 0x102000), p'')"
  using mmap_dev2_reset_fault [of "upd_dev 1 (private_data_update (\<lambda>_. 0x100000)) (drv_loaded None (\<lambda>_. 0))" 1
    ref_kernel 0 init_process 2]
  by (auto simp: Let_def upd_dev_def drv_loaded_def)

text \<open>
  C30. Reading an entry under \<^verbatim>\<open>/proc\<close> in pieces of any size, from the start: the reader receives the
  string up to the number of bytes asked for, each byte once and in order, and the results of the
  reads add up to what was received.
\<close>

theorem procfs_reads_deliver:
  assumes "copies K got" and "length str < 2 ^ 63" and "unat n < 2 ^ 63"
  shows "\<exists>rs p'. exec K (reads k n str 0) p = (Returned (rs, of_nat (min (k * unat n) (length str))), p') \<and>
    got (kst p') = got (kst p) @ take (k * unat n) str \<and> sum_list rs = int (min (k * unat n) (length str))"
  using exec_reads [OF assms, of 0 k p] by auto

definition copy_kernel :: "string kernel" where
  "copy_kernel =
     \<lparr>k_sys = (\<lambda>c s. case c of Drv (Copy_to_user t) \<Rightarrow> (SOk 0 [], s @ t) | _ \<Rightarrow> (SErr ENOSYS, s)),
      k_load = (\<lambda>a s. Inl SIGSEGV), k_store = (\<lambda>a b s. Inl SIGSEGV), k_sigaction = (\<lambda>sg s. (SErr EINVAL, s))\<rparr>"

theorem procfs_reads_deliver_witness:
  "\<exists>rs p'. exec copy_kernel (reads 3 8 test_mck_tp_names 0)
      \<lparr>kst = [], errno = 0, globals = (\<lambda>_. 0), gstrings = (\<lambda>_. []), disp = (\<lambda>_. SIG_DFL), out = []\<rparr> = (Returned (rs, 19), p') \<and>
    kst p' = ''mmap_dev mmap_dev2 '' \<and> sum_list rs = 19"
  using procfs_reads_deliver [of copy_kernel "\<lambda>s. s" test_mck_tp_names 8 3
    "\<lparr>kst = [], errno = 0, globals = (\<lambda>_. 0), gstrings = (\<lambda>_. []), disp = (\<lambda>_. SIG_DFL), out = []\<rparr>"]
  by (auto simp: copies_def copy_kernel_def test_mck_tp_names_def)

text \<open>The \<^verbatim>\<open>mmap\<close> of the first device answers 0 whatever \<^verbatim>\<open>remap_pfn_range\<close> answered.\<close>

lemma mmap_dev_mmap_always_0: "fst (exec K (test_mck_mmap_dev_mmap d a b pg) p) = Returned 0"
  by (auto simp: test_mck_mmap_dev_mmap_def test_mck_mmap_dev_vma_open_def Let_def drv_int_def exec_simps split: sysres.split)

end
