(* ===== verification/Runs.thy ===== *)
theory Runs
  imports Clib
begin

text \<open>
  A judgement for proofs about runs: \<^verbatim>\<open>runs K q p Q\<close> says that the program \<^verbatim>\<open>q\<close>, started in the
  process \<^verbatim>\<open>p\<close>, ends with an outcome and a process that satisfy \<^verbatim>\<open>Q\<close>. There is one rule per
  operation of a program, with the rest of the program in its premises, so that a proof walks through
  a test case from its first call to its last. Every run of a program ends, so nothing is assumed
  about termination.
\<close>

named_theorems runs_intros \<open>rules that walk through a program\<close>

definition runs :: "'s kernel \<Rightarrow> 'a prog \<Rightarrow> 's process \<Rightarrow> ('a outcome \<Rightarrow> 's process \<Rightarrow> bool) \<Rightarrow> bool" where
  "runs K q p Q \<longleftrightarrow> (case exec K q p of (r, p') \<Rightarrow> Q r p')"

lemma runsI: "exec K q p = (r, p') \<Longrightarrow> Q r p' \<Longrightarrow> runs K q p Q"
  by (simp add: runs_def)

lemma runsE:
  assumes "runs K q p Q"
  obtains r p' where "exec K q p = (r, p')" "Q r p'"
  using assms by (auto simp: runs_def split: prod.splits)

lemma runs_returns: "runs K q p (\<lambda>r p'. \<exists>v. r = Returned v \<and> P v p') \<Longrightarrow> \<exists>v p'. exec K q p = (Returned v, p') \<and> P v p'"
  by (auto elim: runsE)

lemma runs_mono: "runs K q p P \<Longrightarrow> (\<And>r p'. P r p' \<Longrightarrow> Q r p') \<Longrightarrow> runs K q p Q"
  by (auto simp: runs_def split: prod.splits)

lemma runs_Return [runs_intros]: "Q (Returned v) p \<Longrightarrow> runs K (Return v) p Q"
  by (simp add: runs_def)

lemma runs_Exit [runs_intros]: "Q (Exited n) p \<Longrightarrow> runs K (Exit n) p Q"
  by (simp add: runs_def)

lemma runs_Fprintf [runs_intros]:
  "runs K k (p\<lparr>out := out p @ [(h, fmt, args)]\<rparr>) Q \<Longrightarrow> runs K (Fprintf h fmt args k) p Q"
  by (simp add: runs_def)

lemma runs_Errno [runs_intros]: "runs K (k (errno p)) p Q \<Longrightarrow> runs K (Errno k) p Q"
  by (simp add: runs_def)

lemma runs_SetErrno [runs_intros]: "runs K k (p\<lparr>errno := e\<rparr>) Q \<Longrightarrow> runs K (SetErrno e k) p Q"
  by (simp add: runs_def)

lemma runs_Glob [runs_intros]: "runs K (k (globals p x)) p Q \<Longrightarrow> runs K (Glob x k) p Q"
  by (simp add: runs_def)

lemma runs_SetGlob [runs_intros]:
  "runs K k (p\<lparr>globals := (globals p)(x := v)\<rparr>) Q \<Longrightarrow> runs K (SetGlob x v k) p Q"
  by (simp add: runs_def)

lemma runs_GlobStr [runs_intros]: "runs K (k (gstrings p x)) p Q \<Longrightarrow> runs K (GlobStr x k) p Q"
  by (simp add: runs_def)

lemma runs_SetGlobStr [runs_intros]:
  "runs K k (p\<lparr>gstrings := (gstrings p)(x := v)\<rparr>) Q \<Longrightarrow> runs K (SetGlobStr x v k) p Q"
  by (simp add: runs_def)

lemma runs_tp_assert [runs_intros]:
  "(t \<Longrightarrow> runs K k p Q) \<Longrightarrow> (\<not> t \<Longrightarrow> Q (Returned (Some msg)) p) \<Longrightarrow> runs K (tp_assert t msg k) p Q"
  by (cases t) (simp_all add: runs_def)

lemma runs_if: "(b \<Longrightarrow> runs K q p Q) \<Longrightarrow> (\<not> b \<Longrightarrow> runs K q' p Q) \<Longrightarrow> runs K (if b then q else q') p Q"
  by simp

text \<open>Calling a function: the rest runs from every process it returns in; other outcomes are passed on.\<close>

lemma runs_call:
  "runs K q p (\<lambda>r p'. case r of Returned v \<Rightarrow> runs K (f v) p' Q | Exited n \<Rightarrow> Q (Exited n) p'
     | Killed sg \<Rightarrow> Q (Killed sg) p' | Undefined \<Rightarrow> Q Undefined p') \<Longrightarrow> runs K (call q f) p Q"
  by (auto simp: runs_def exec_call split: prod.splits outcome.splits)

lemma runs_callI:
  "runs K q p (\<lambda>r p'. \<exists>v. r = Returned v \<and> P v p') \<Longrightarrow> (\<And>v p'. P v p' \<Longrightarrow> runs K (f v) p' Q) \<Longrightarrow> runs K (call q f) p Q"
  by (rule runs_call) (auto elim: runs_mono)

lemma runs_sys_int:
  assumes "\<And>v os s'. k_sys K c (kst p) = (SOk v os, s') \<Longrightarrow> runs K (k v) (p\<lparr>kst := s'\<rparr>) Q"
    and "\<And>e s'. k_sys K c (kst p) = (SErr e, s') \<Longrightarrow> runs K (k (- 1)) (p\<lparr>kst := s', errno := e\<rparr>) Q"
  shows "runs K (sys_int c k) p Q"
proof (cases "k_sys K c (kst p)")
  case (Pair r s')
  then show ?thesis using assms by (cases r) (simp_all add: runs_def exec_sys_int)
qed

lemma runs_sys_ptr:
  assumes "\<And>v os s'. k_sys K c (kst p) = (SOk v os, s') \<Longrightarrow> runs K (k (word_of_int v)) (p\<lparr>kst := s'\<rparr>) Q"
    and "\<And>e s'. k_sys K c (kst p) = (SErr e, s') \<Longrightarrow> runs K (k (- 1)) (p\<lparr>kst := s', errno := e\<rparr>) Q"
  shows "runs K (sys_ptr c k) p Q"
  unfolding sys_ptr_def by (rule runs_sys_int) (use assms in \<open>simp_all add: word_of_int_minus\<close>)

lemma runs_sys_out:
  assumes "\<And>v os s'. k_sys K c (kst p) = (SOk v os, s') \<Longrightarrow>
      runs K (k v (if length os = length old then os else old)) (p\<lparr>kst := s'\<rparr>) Q"
    and "\<And>e s'. k_sys K c (kst p) = (SErr e, s') \<Longrightarrow> runs K (k (- 1) old) (p\<lparr>kst := s', errno := e\<rparr>) Q"
  shows "runs K (sys_out c old k) p Q"
proof (cases "k_sys K c (kst p)")
  case (Pair r s')
  then show ?thesis using assms by (cases r) (simp_all add: runs_def exec_sys_out)
qed

lemma runs_Load:
  assumes "\<And>b s'. k_load K a (kst p) = Inr (b, s') \<Longrightarrow> runs K (k b) (p\<lparr>kst := s'\<rparr>) Q"
    and "\<And>sg. k_load K a (kst p) = Inl sg \<Longrightarrow> Q (fault sg p) p"
  shows "runs K (Load a k) p Q"
  using assms by (cases "k_load K a (kst p)") (auto simp: runs_def)

lemma runs_Store:
  assumes "\<And>s'. k_store K a b (kst p) = Inr s' \<Longrightarrow> runs K k (p\<lparr>kst := s'\<rparr>) Q"
    and "\<And>sg. k_store K a b (kst p) = Inl sg \<Longrightarrow> Q (fault sg p) p"
  shows "runs K (Store a b k) p Q"
  using assms by (cases "k_store K a b (kst p)") (auto simp: runs_def)

end
