(* ===== verification/Map_Spec.thy ===== *)
theory Map_Spec
  imports Kernel_Spec Vm_Spec Runs
begin

text \<open>
  What open(2), stat(2), read(2), mmap(2), munmap(2), mprotect(2) and remap_file_pages(2) document
  of memory that shows files and devices: an address space whose bytes are the process's own or
  come from an object, privately (copied page by page when written) or shared (written through).
  Calls that take a resource may always be refused and then change nothing.
\<close>

subsection \<open>Objects and the address space\<close>

text \<open>A byte of a mapping: the process's own value, or a byte of an object, shared or not.\<close>

datatype msrc = Own u8 | Of bool string nat

record mcell =
  mprot :: int
  msrc :: msrc

type_synonym dev_contents = "nat \<Rightarrow> u8 option"

record mm =
  mm_fs :: fs
  mm_devs :: "string \<Rightarrow> dev_contents option"
  mm_cells :: "u64 \<Rightarrow> mcell option"

text \<open>Lengths are rounded up to whole pages.\<close>

definition pg_up :: "nat \<Rightarrow> nat" where
  "pg_up n = (n + 4095) div 4096 * 4096"

text \<open>The characters of a file as bytes.\<close>

definition byte_of :: "char \<Rightarrow> u8" where
  "byte_of c = of_nat (of_char c)"

definition char_byte :: "u8 \<Rightarrow> char" where
  "char_byte b = char_of (unat b)"

lemma byte_of_char_byte [simp]: "byte_of (char_byte b) = b"
proof -
  have "unat b < 256" using unsigned_less [of b] by simp
  then show ?thesis by (simp add: byte_of_def char_byte_def)
qed

text \<open>The rest of a file's last page reads as zeros; pages beyond it are not there.\<close>

definition file_byte :: "string \<Rightarrow> nat \<Rightarrow> u8 option" where
  "file_byte c off =
     (if off < length c then Some (byte_of (c ! off)) else if off < pg_up (length c) then Some 0 else None)"

definition obj_byte :: "mm \<Rightarrow> string \<Rightarrow> nat \<Rightarrow> u8 option" where
  "obj_byte m p off =
     (case mm_devs m p of
        Some d \<Rightarrow> d off
      | None \<Rightarrow> (case files (mm_fs m) p of Some c \<Rightarrow> file_byte c off | None \<Rightarrow> None))"

definition obj_there :: "mm \<Rightarrow> string \<Rightarrow> bool" where
  "obj_there m p \<longleftrightarrow> mm_devs m p \<noteq> None \<or> files (mm_fs m) p \<noteq> None"

definition cell_byte :: "mm \<Rightarrow> mcell \<Rightarrow> u8 option" where
  "cell_byte m c = (case msrc c of Own v \<Rightarrow> Some v | Of sh p off \<Rightarrow> obj_byte m p off)"

text \<open>Whether the object of a byte still has its name; nothing is said of mappings of removed files.\<close>

definition cell_there :: "mm \<Rightarrow> mcell \<Rightarrow> bool" where
  "cell_there m c = (case msrc c of Own v \<Rightarrow> True | Of sh p off \<Rightarrow> obj_there m p)"

subsection \<open>Accesses\<close>

text \<open>
  \<^verbatim>\<open>rd\<close> says which protections allow reading on the machine: those with \<^verbatim>\<open>PROT_READ\<close>, not
  \<^verbatim>\<open>PROT_NONE\<close>, and possibly others.
\<close>

definition rd_ok :: "(int \<Rightarrow> bool) \<Rightarrow> bool" where
  "rd_ok rd \<longleftrightarrow> \<not> rd PROT_NONE \<and> (\<forall>pr. pr AND PROT_READ \<noteq> 0 \<longrightarrow> rd pr)"

definition mm_fault :: "bool \<Rightarrow> u64 \<Rightarrow> mm \<Rightarrow> int option" where
  "mm_fault perm a m =
     (case mm_cells m a of
        None \<Rightarrow> Some SIGSEGV
      | Some c \<Rightarrow>
          if \<not> perm then Some SIGSEGV
          else if cell_byte m c = None then Some SIGBUS
          else None)"

definition can_read :: "(int \<Rightarrow> bool) \<Rightarrow> u64 \<Rightarrow> mm \<Rightarrow> bool" where
  "can_read rd a m = (case mm_cells m a of None \<Rightarrow> False | Some c \<Rightarrow> rd (mprot c))"

definition can_write :: "u64 \<Rightarrow> mm \<Rightarrow> bool" where
  "can_write a m = (case mm_cells m a of None \<Rightarrow> False | Some c \<Rightarrow> mprot c AND PROT_WRITE \<noteq> 0)"

definition same_page :: "u64 \<Rightarrow> u64 \<Rightarrow> bool" where
  "same_page x y \<longleftrightarrow> unat x div 4096 = unat y div 4096"

text \<open>Writing an object through a shared mapping.\<close>

definition obj_set :: "string \<Rightarrow> nat \<Rightarrow> u8 \<Rightarrow> mm \<Rightarrow> mm" where
  "obj_set p off b m =
     (case mm_devs m p of
        Some d \<Rightarrow> m\<lparr>mm_devs := (mm_devs m)(p \<mapsto> d(off \<mapsto> b))\<rparr>
      | None \<Rightarrow> m\<lparr>mm_fs := (mm_fs m)\<lparr>files := (files (mm_fs m))(p :=
          map_option (\<lambda>c. c[off := char_byte b]) (files (mm_fs m) p))\<rparr>\<rparr>)"

text \<open>A write to a private page makes the whole page the process's own.\<close>

definition own_page :: "mm \<Rightarrow> mcell \<Rightarrow> mcell" where
  "own_page m c = c\<lparr>msrc := (case cell_byte m c of None \<Rightarrow> msrc c | Some v \<Rightarrow> Own v)\<rparr>"

definition mm_store :: "u64 \<Rightarrow> u8 \<Rightarrow> mm \<Rightarrow> mm" where
  "mm_store a b m =
     (case mm_cells m a of
        None \<Rightarrow> m
      | Some c \<Rightarrow>
          (case msrc c of
             Own v \<Rightarrow> m\<lparr>mm_cells := (mm_cells m)(a \<mapsto> c\<lparr>msrc := Own b\<rparr>)\<rparr>
           | Of True p off \<Rightarrow> obj_set p off b m
           | Of False p off \<Rightarrow>
               m\<lparr>mm_cells := (\<lambda>x. if x = a then Some (c\<lparr>msrc := Own b\<rparr>)
                                else if same_page x a then map_option (own_page m) (mm_cells m x)
                                else mm_cells m x)\<rparr>))"

text \<open>Nothing is said of a shared write behind the end of a file, in its last page.\<close>

definition store_defined :: "u64 \<Rightarrow> mm \<Rightarrow> bool" where
  "store_defined a m =
     (case mm_cells m a of
        None \<Rightarrow> True
      | Some c \<Rightarrow> cell_there m c \<and>
          (case msrc c of
             Of True p off \<Rightarrow> mm_devs m p \<noteq> None \<or> off < length (the (files (mm_fs m) p)) \<or> obj_byte m p off = None
           | _ \<Rightarrow> True))"

definition load_defined :: "u64 \<Rightarrow> mm \<Rightarrow> bool" where
  "load_defined a m = (case mm_cells m a of None \<Rightarrow> True | Some c \<Rightarrow> cell_there m c)"

definition mm_load_law :: "'s kernel \<Rightarrow> ('s \<Rightarrow> mm) \<Rightarrow> (int \<Rightarrow> bool) \<Rightarrow> u64 \<Rightarrow> 's \<Rightarrow> bool" where
  "mm_load_law K view rd a s \<longleftrightarrow> (load_defined a (view s) \<longrightarrow>
     (case mm_fault (can_read rd a (view s)) a (view s) of
        Some sg \<Rightarrow> k_load K a s = Inl sg
      | None \<Rightarrow> \<exists>s'. k_load K a s = Inr (the (cell_byte (view s) (the (mm_cells (view s) a))), s') \<and> view s' = view s))"

definition mm_store_law :: "'s kernel \<Rightarrow> ('s \<Rightarrow> mm) \<Rightarrow> u64 \<Rightarrow> u8 \<Rightarrow> 's \<Rightarrow> bool" where
  "mm_store_law K view a b s \<longleftrightarrow> (store_defined a (view s) \<longrightarrow>
     (case mm_fault (can_write a (view s)) a (view s) of
        Some sg \<Rightarrow> k_store K a b s = Inl sg
      | None \<Rightarrow> \<exists>s'. k_store K a b s = Inr s' \<and> view s' = mm_store a b (view s)))"


subsection \<open>Calls on files\<close>

definition mm_refused :: "mm \<Rightarrow> sysres \<Rightarrow> mm \<Rightarrow> bool" where
  "mm_refused m r m' \<longleftrightarrow> (\<exists>e. r = SErr e) \<and> m' = m"

definition opened :: "int \<Rightarrow> string \<Rightarrow> int \<Rightarrow> mm \<Rightarrow> mm" where
  "opened fd p fl m =
     m\<lparr>mm_fs := (mm_fs m)\<lparr>fds := (fds (mm_fs m))(fd \<mapsto> (p, 0, fl AND 3)),
       files := (if obj_there m p then files (mm_fs m) else (files (mm_fs m))(p \<mapsto> []))\<rparr>\<rparr>"

definition open_rel :: "string \<Rightarrow> int \<Rightarrow> mm \<Rightarrow> sysres \<Rightarrow> mm \<Rightarrow> bool" where
  "open_rel p fl m r m' \<longleftrightarrow>
     mm_refused m r m' \<or>
     (\<exists>fd. r = SOk fd [] \<and> 0 \<le> fd \<and> fd < 2 ^ 31 \<and> fds (mm_fs m) fd = None \<and>
        (obj_there m p \<or> fl AND O_CREAT \<noteq> 0) \<and> m' = opened fd p fl m)"

definition stat_rel :: "string \<Rightarrow> mm \<Rightarrow> sysres \<Rightarrow> mm \<Rightarrow> bool" where
  "stat_rel p m r m' \<longleftrightarrow>
     m' = m \<and> ((\<exists>e. r = SErr e) \<or> (\<exists>sz. r = SOk 0 [OInt sz] \<and>
       (\<forall>c. mm_devs m p = None \<longrightarrow> files (mm_fs m) p = Some c \<longrightarrow> sz = int (length c))))"

definition fstat_rel :: "int \<Rightarrow> mm \<Rightarrow> sysres \<Rightarrow> mm \<Rightarrow> bool" where
  "fstat_rel fd m r m' \<longleftrightarrow>
     (case fds (mm_fs m) fd of None \<Rightarrow> mm_refused m r m' | Some (p, _, _) \<Rightarrow> stat_rel p m r m')"

definition read_rel :: "int \<Rightarrow> u64 \<Rightarrow> mm \<Rightarrow> sysres \<Rightarrow> mm \<Rightarrow> bool" where
  "read_rel fd n m r m' \<longleftrightarrow>
     (\<forall>p off md c. fds (mm_fs m) fd = Some (p, off, md) \<longrightarrow> mm_devs m p = None \<longrightarrow> files (mm_fs m) p = Some c \<longrightarrow>
        md \<noteq> O_WRONLY \<longrightarrow> 0 \<le> off \<longrightarrow>
        mm_refused m r m' \<or>
        (let d = take (unat n) (drop (nat off) c) in
         r = SOk (int (length d)) [OStr d] \<and>
         m' = m\<lparr>mm_fs := (mm_fs m)\<lparr>fds := (fds (mm_fs m))(fd \<mapsto> (p, off + int (length d), md))\<rparr>\<rparr>))"

text \<open>\<^verbatim>\<open>ioc\<close> is what the commands of the devices do to their contents.\<close>

type_synonym ioctls = "string \<Rightarrow> int \<Rightarrow> dev_contents \<Rightarrow> dev_contents"

definition ioctl_rel :: "ioctls \<Rightarrow> int \<Rightarrow> int \<Rightarrow> mm \<Rightarrow> sysres \<Rightarrow> mm \<Rightarrow> bool" where
  "ioctl_rel ioc fd cmd m r m' \<longleftrightarrow>
     (\<forall>p off md d. fds (mm_fs m) fd = Some (p, off, md) \<longrightarrow> mm_devs m p = Some d \<longrightarrow>
        r = SOk 0 [] \<and> m' = m\<lparr>mm_devs := (mm_devs m)(p \<mapsto> ioc p cmd d)\<rparr>)"

text \<open>The other calls on files act on them as \<^verbatim>\<open>conforms_file\<close> says and leave memory and devices alone.\<close>

fun fs_only :: "syscall \<Rightarrow> bool" where
  "fs_only (File (Close fd)) = True"
| "fs_only (File (Write fd buf)) = True"
| "fs_only (File (Lseek fd off wh)) = True"
| "fs_only (File (Fsync fd)) = True"
| "fs_only (File (Unlink p)) = True"
| "fs_only (File (Mkstemp t)) = True"
| "fs_only _ = False"

subsection \<open>Calls on mappings\<close>

text \<open>What a new mapping may show: an open object with sufficient access mode.\<close>

definition mmap_denied :: "int \<Rightarrow> int \<Rightarrow> int \<Rightarrow> bool" where
  "mmap_denied md pr fl \<longleftrightarrow> md = O_WRONLY \<or> (mmap_shared fl \<and> pr AND PROT_WRITE \<noteq> 0 \<and> md = O_RDONLY)"

definition room :: "mm \<Rightarrow> u64 \<Rightarrow> nat \<Rightarrow> bool" where
  "room m b n \<longleftrightarrow> page_aligned b \<and> b \<noteq> 0 \<and> fits b n \<and> unmapped (mm_cells m) b n"

definition map_cells :: "u64 \<Rightarrow> nat \<Rightarrow> (u64 \<Rightarrow> mcell option) \<Rightarrow> mm \<Rightarrow> mm" where
  "map_cells b n f m = m\<lparr>mm_cells := map_range b n f (mm_cells m)\<rparr>"

definition obj_cells :: "int \<Rightarrow> bool \<Rightarrow> string \<Rightarrow> u64 \<Rightarrow> nat \<Rightarrow> u64 \<Rightarrow> mcell option" where
  "obj_cells pr sh p b off x = Some \<lparr>mprot = pr, msrc = Of sh p (off + (unat x - unat b))\<rparr>"

definition mm_mmap_rel :: "u64 \<Rightarrow> int \<Rightarrow> int \<Rightarrow> int \<Rightarrow> u64 \<Rightarrow> mm \<Rightarrow> sysres \<Rightarrow> mm \<Rightarrow> bool" where
  "mm_mmap_rel n pr fl fd off m r m' \<longleftrightarrow>
     (\<not> mmap_fixed fl \<and> 0 < n \<and> page_aligned off \<longrightarrow>
        mm_refused m r m' \<or>
        (\<exists>b. r = SOk (uint b) [] \<and> room m b (pg_up (unat n)) \<and>
           (if mmap_anonymous fl
            then \<not> mmap_shared fl \<longrightarrow> m' = map_cells b (pg_up (unat n)) (\<lambda>_. Some \<lparr>mprot = pr, msrc = Own 0\<rparr>) m
            else \<exists>p pos md. fds (mm_fs m) fd = Some (p, pos, md) \<and> \<not> mmap_denied md pr fl \<and>
              m' = map_cells b (pg_up (unat n)) (obj_cells pr (mmap_shared fl) p b (unat off)) m)))"

definition mm_munmap_rel :: "u64 \<Rightarrow> u64 \<Rightarrow> mm \<Rightarrow> sysres \<Rightarrow> mm \<Rightarrow> bool" where
  "mm_munmap_rel a n m r m' \<longleftrightarrow>
     (page_aligned a \<and> 0 < n \<and> fits a (pg_up (unat n)) \<longrightarrow>
        mm_refused m r m' \<or> (r = SOk 0 [] \<and> m' = map_cells a (pg_up (unat n)) (\<lambda>_. None) m))"

definition mprotect_rel :: "u64 \<Rightarrow> u64 \<Rightarrow> int \<Rightarrow> mm \<Rightarrow> sysres \<Rightarrow> mm \<Rightarrow> bool" where
  "mprotect_rel a n pr m r m' \<longleftrightarrow>
     (page_aligned a \<and> fits a (pg_up (unat n)) \<and> mapped (mm_cells m) a (pg_up (unat n)) \<longrightarrow>
        mm_refused m r m' \<or>
        (r = SOk 0 [] \<and>
         m' = map_cells a (pg_up (unat n)) (\<lambda>x. map_option (mprot_update (\<lambda>_. pr)) (mm_cells m x)) m))"

text \<open>A range of one shared mapping of an object is made to show its pages from \<^verbatim>\<open>pgoff\<close> on.\<close>

definition remap_rel :: "u64 \<Rightarrow> u64 \<Rightarrow> u64 \<Rightarrow> mm \<Rightarrow> sysres \<Rightarrow> mm \<Rightarrow> bool" where
  "remap_rel a n pgoff m r m' \<longleftrightarrow>
     (\<forall>p pr. page_aligned a \<and> page_aligned n \<and> 0 < n \<and> fits a (unat n) \<and> unat pgoff < 2 ^ 52 \<and>
       (\<forall>x. inr a (unat n) x \<longrightarrow> (\<exists>off. mm_cells m x = Some \<lparr>mprot = pr, msrc = Of True p off\<rparr>)) \<longrightarrow>
        mm_refused m r m' \<or>
        (r = SOk 0 [] \<and> m' = map_cells a (unat n) (obj_cells pr True p a (unat pgoff * 4096)) m))"

text \<open>Calls that leave what the process sees of its memory and files as it is.\<close>

fun mm_neutral :: "syscall \<Rightarrow> bool" where
  "mm_neutral (Mem (Msync a n fl)) = True"
| "mm_neutral (Mem (Mlock a n)) = True"
| "mm_neutral (Mem (Munlock a n)) = True"
| "mm_neutral (Mem (Mlockall fl)) = True"
| "mm_neutral (Mem Munlockall) = True"
| "mm_neutral (Mem (Mincore a n vec)) = True"
| "mm_neutral (File Sync) = True"
| "mm_neutral _ = False"

text \<open>\<^verbatim>\<open>malloc\<close> and \<^verbatim>\<open>free\<close> keep every byte that is not theirs.\<close>

definition heap_rel :: "mm \<Rightarrow> mm \<Rightarrow> bool" where
  "heap_rel m m' \<longleftrightarrow> mm_fs m' = mm_fs m \<and> mm_devs m' = mm_devs m \<and>
     (\<forall>x c. mm_cells m x = Some c \<longrightarrow> (\<forall>v. msrc c \<noteq> Own v) \<longrightarrow> mm_cells m' x = Some c)"

subsection \<open>Conformance\<close>

definition conforms_map :: "'s kernel \<Rightarrow> ('s \<Rightarrow> mm) \<Rightarrow> (int \<Rightarrow> bool) \<Rightarrow> ioctls \<Rightarrow> bool" where
  "conforms_map K view rd ioc \<longleftrightarrow>
     rd_ok rd \<and>
     conforms_file K (\<lambda>s. mm_fs (view s)) \<and>
     (\<forall>c s. fs_only c \<longrightarrow> mm_cells (view (snd (k_sys K c s))) = mm_cells (view s) \<and>
        mm_devs (view (snd (k_sys K c s))) = mm_devs (view s)) \<and>
     (\<forall>c s. mm_neutral c \<longrightarrow> view (snd (k_sys K c s)) = view s) \<and>
     (\<forall>n s. heap_rel (view s) (view (snd (k_sys K (Mem (Malloc n)) s)))) \<and>
     (\<forall>a s. heap_rel (view s) (view (snd (k_sys K (Mem (Free a)) s)))) \<and>
     (\<forall>p fl s r s'. k_sys K (File (Open p fl)) s = (r, s') \<longrightarrow> open_rel p fl (view s) r (view s')) \<and>
     (\<forall>p s r s'. k_sys K (File (Stat p)) s = (r, s') \<longrightarrow> stat_rel p (view s) r (view s')) \<and>
     (\<forall>fd s r s'. k_sys K (File (Fstat fd)) s = (r, s') \<longrightarrow> fstat_rel fd (view s) r (view s')) \<and>
     (\<forall>fd n s r s'. k_sys K (File (Read fd n)) s = (r, s') \<longrightarrow> read_rel fd n (view s) r (view s')) \<and>
     (\<forall>fd cmd s r s'. k_sys K (File (Ioctl fd cmd)) s = (r, s') \<longrightarrow> ioctl_rel ioc fd cmd (view s) r (view s')) \<and>
     (\<forall>n pr fl fd off s r s'. k_sys K (Mem (Mmap 0 n pr fl fd off)) s = (r, s') \<longrightarrow>
        mm_mmap_rel n pr fl fd off (view s) r (view s')) \<and>
     (\<forall>a n s r s'. k_sys K (Mem (Munmap a n)) s = (r, s') \<longrightarrow> mm_munmap_rel a n (view s) r (view s')) \<and>
     (\<forall>a n pr s r s'. k_sys K (Mem (Mprotect a n pr)) s = (r, s') \<longrightarrow> mprotect_rel a n pr (view s) r (view s')) \<and>
     (\<forall>a n pgoff s r s'. k_sys K (Mem (Remap_file_pages a n 0 pgoff 0)) s = (r, s') \<longrightarrow>
        remap_rel a n pgoff (view s) r (view s')) \<and>
     (\<forall>a s. mm_load_law K view rd a s) \<and>
     (\<forall>a b s. mm_store_law K view a b s)"


lemma conforms_mapD:
  assumes "conforms_map K view rd ioc"
  shows map_rd_ok: "rd_ok rd"
    and map_file: "conforms_file K (\<lambda>s. mm_fs (view s))"
    and map_fs_only: "fs_only c \<Longrightarrow> mm_cells (view (snd (k_sys K c s))) = mm_cells (view s)"
      "fs_only c \<Longrightarrow> mm_devs (view (snd (k_sys K c s))) = mm_devs (view s)"
    and map_neutral: "mm_neutral c \<Longrightarrow> view (snd (k_sys K c s)) = view s"
    and map_malloc: "heap_rel (view s) (view (snd (k_sys K (Mem (Malloc n)) s)))"
    and map_free: "heap_rel (view s) (view (snd (k_sys K (Mem (Free a)) s)))"
    and map_open: "k_sys K (File (Open path fl)) s = (r, s') \<Longrightarrow> open_rel path fl (view s) r (view s')"
    and map_stat: "k_sys K (File (Stat path)) s = (r, s') \<Longrightarrow> stat_rel path (view s) r (view s')"
    and map_fstat: "k_sys K (File (Fstat fd)) s = (r, s') \<Longrightarrow> fstat_rel fd (view s) r (view s')"
    and map_read: "k_sys K (File (Read fd n)) s = (r, s') \<Longrightarrow> read_rel fd n (view s) r (view s')"
    and map_ioctl: "k_sys K (File (Ioctl fd cmd)) s = (r, s') \<Longrightarrow> ioctl_rel ioc fd cmd (view s) r (view s')"
    and map_mmap: "k_sys K (Mem (Mmap 0 n pr fl fd off)) s = (r, s') \<Longrightarrow> mm_mmap_rel n pr fl fd off (view s) r (view s')"
    and map_munmap: "k_sys K (Mem (Munmap a n)) s = (r, s') \<Longrightarrow> mm_munmap_rel a n (view s) r (view s')"
    and map_mprotect: "k_sys K (Mem (Mprotect a n pr)) s = (r, s') \<Longrightarrow> mprotect_rel a n pr (view s) r (view s')"
    and map_remap: "k_sys K (Mem (Remap_file_pages a n 0 pgoff 0)) s = (r, s') \<Longrightarrow> remap_rel a n pgoff (view s) r (view s')"
    and map_load: "mm_load_law K view rd a s"
    and map_store: "mm_store_law K view a b s"
  using assms unfolding conforms_map_def by simp_all

subsection \<open>Walking through a program\<close>

text \<open>A call that may be refused, and answers with what \<^verbatim>\<open>P\<close> says when it is not.\<close>

lemma runs_refusable:
  assumes "\<And>r s'. k_sys K c (kst p) = (r, s') \<Longrightarrow>
      mm_refused (view (kst p)) r (view s') \<or> (\<exists>v. r = SOk v [] \<and> P v (view s'))"
    and "\<And>e s'. view s' = view (kst p) \<Longrightarrow> runs K (k (- 1)) (p\<lparr>kst := s', errno := e\<rparr>) Q"
    and "\<And>v s'. P v (view s') \<Longrightarrow> runs K (k v) (p\<lparr>kst := s'\<rparr>) Q"
  shows "runs K (sys_int c k) p Q"
proof (rule runs_sys_int)
  fix v os s' assume "k_sys K c (kst p) = (SOk v os, s')"
  with assms(1) [OF this] assms(3) show "runs K (k v) (p\<lparr>kst := s'\<rparr>) Q" by (auto simp: mm_refused_def)
next
  fix e s' assume "k_sys K c (kst p) = (SErr e, s')"
  with assms(1) [OF this] assms(2) show "runs K (k (- 1)) (p\<lparr>kst := s', errno := e\<rparr>) Q" by (auto simp: mm_refused_def)
qed

lemma runs_refusable_ptr:
  assumes "\<And>r s'. k_sys K c (kst p) = (r, s') \<Longrightarrow>
      mm_refused (view (kst p)) r (view s') \<or> (\<exists>b. r = SOk (uint b) [] \<and> P b (view s'))"
    and "\<And>e s'. view s' = view (kst p) \<Longrightarrow> runs K (k (- 1)) (p\<lparr>kst := s', errno := e\<rparr>) Q"
    and "\<And>b s'. P b (view s') \<Longrightarrow> runs K (k b) (p\<lparr>kst := s'\<rparr>) Q"
  shows "runs K (sys_ptr c k) p Q"
  unfolding sys_ptr_def
proof (rule runs_refusable [where P = "\<lambda>v m. \<exists>b. v = uint b \<and> P b m"])
  fix r s' assume "k_sys K c (kst p) = (r, s')"
  from assms(1) [OF this]
  show "mm_refused (view (kst p)) r (view s') \<or> (\<exists>v. r = SOk v [] \<and> (\<exists>b. v = uint b \<and> P b (view s')))" by blast
qed (use assms(2,3) in auto)

text \<open>One rule per call: what the rest may rely on when the call was refused, and when it succeeded.\<close>

lemma runs_open_int:
  assumes K: "conforms_map K view rd ioc"
    and "\<And>e s'. view s' = view (kst p) \<Longrightarrow> runs K (k (- 1)) (p\<lparr>kst := s', errno := e\<rparr>) Q"
    and "\<And>fd s'. 0 \<le> fd \<Longrightarrow> fd < 2 ^ 31 \<Longrightarrow> fds (mm_fs (view (kst p))) fd = None \<Longrightarrow>
      obj_there (view (kst p)) path \<or> fl AND O_CREAT \<noteq> 0 \<Longrightarrow>
      view s' = opened fd path fl (view (kst p)) \<Longrightarrow> runs K (k fd) (p\<lparr>kst := s'\<rparr>) Q"
  shows "runs K (sys_int (File (Open path fl)) k) p Q"
proof (rule runs_refusable [where P = "\<lambda>fd m. 0 \<le> fd \<and> fd < 2 ^ 31 \<and> fds (mm_fs (view (kst p))) fd = None \<and>
    (obj_there (view (kst p)) path \<or> fl AND O_CREAT \<noteq> 0) \<and> m = opened fd path fl (view (kst p))"])
  fix r s' assume "k_sys K (File (Open path fl)) (kst p) = (r, s')"
  from map_open [OF K this]
  show "mm_refused (view (kst p)) r (view s') \<or> (\<exists>fd. r = SOk fd [] \<and> 0 \<le> fd \<and> fd < 2 ^ 31 \<and>
      fds (mm_fs (view (kst p))) fd = None \<and>
      (obj_there (view (kst p)) path \<or> fl AND O_CREAT \<noteq> 0) \<and> view s' = opened fd path fl (view (kst p)))"
    by (simp add: open_rel_def)
qed (use assms(2,3) in simp_all)

lemma runs_open:
  assumes K: "conforms_map K view rd ioc"
    and "\<And>e s'. view s' = view (kst p) \<Longrightarrow> runs K (k (- 1)) (p\<lparr>kst := s', errno := e\<rparr>) Q"
    and "\<And>fd s'. 0 \<le> fd \<Longrightarrow> fds (mm_fs (view (kst p))) fd = None \<Longrightarrow> obj_there (view (kst p)) path \<or> fl AND O_CREAT \<noteq> 0 \<Longrightarrow>
      view s' = opened fd path fl (view (kst p)) \<Longrightarrow> runs K (k fd) (p\<lparr>kst := s'\<rparr>) Q"
  shows "runs K (sys_int (File (Open path fl)) k) p Q"
  by (rule runs_open_int [OF K]) (use assms(2,3) in simp_all)

lemma runs_stat:
  assumes K: "conforms_map K view rd ioc"
    and "mm_devs (view (kst p)) path = None" "files (mm_fs (view (kst p))) path = Some c"
    and "\<And>e s'. view s' = view (kst p) \<Longrightarrow> runs K (k (- 1) [v]) (p\<lparr>kst := s', errno := e\<rparr>) Q"
    and "\<And>s'. view s' = view (kst p) \<Longrightarrow> runs K (k 0 [OInt (int (length c))]) (p\<lparr>kst := s'\<rparr>) Q"
  shows "runs K (sys_out (File (Stat path)) [v] k) p Q"
proof (rule runs_sys_out)
  fix w os s' assume "k_sys K (File (Stat path)) (kst p) = (SOk w os, s')"
  from map_stat [OF K this] assms(2,3,5)
  show "runs K (k w (if length os = length [v] then os else [v])) (p\<lparr>kst := s'\<rparr>) Q" by (auto simp: stat_rel_def)
next
  fix e s' assume "k_sys K (File (Stat path)) (kst p) = (SErr e, s')"
  from map_stat [OF K this] assms(4)
  show "runs K (k (- 1) [v]) (p\<lparr>kst := s', errno := e\<rparr>) Q" by (auto simp: stat_rel_def)
qed

lemma runs_fstat:
  assumes K: "conforms_map K view rd ioc" and "fds (mm_fs (view (kst p))) fd = Some (path, off, md)"
    and "mm_devs (view (kst p)) path = None" "files (mm_fs (view (kst p))) path = Some c"
    and "\<And>e s'. view s' = view (kst p) \<Longrightarrow> runs K (k (- 1) [v]) (p\<lparr>kst := s', errno := e\<rparr>) Q"
    and "\<And>s'. view s' = view (kst p) \<Longrightarrow> runs K (k 0 [OInt (int (length c))]) (p\<lparr>kst := s'\<rparr>) Q"
  shows "runs K (sys_out (File (Fstat fd)) [v] k) p Q"
proof (rule runs_sys_out)
  fix w os s' assume "k_sys K (File (Fstat fd)) (kst p) = (SOk w os, s')"
  from map_fstat [OF K this] assms(2-4,6)
  show "runs K (k w (if length os = length [v] then os else [v])) (p\<lparr>kst := s'\<rparr>) Q" by (auto simp: fstat_rel_def stat_rel_def)
next
  fix e s' assume "k_sys K (File (Fstat fd)) (kst p) = (SErr e, s')"
  from map_fstat [OF K this] assms(2,5)
  show "runs K (k (- 1) [v]) (p\<lparr>kst := s', errno := e\<rparr>) Q" by (auto simp: fstat_rel_def stat_rel_def)
qed

lemma runs_ioctl:
  assumes K: "conforms_map K view rd ioc" and "fds (mm_fs (view (kst p))) fd = Some (path, off, md)"
    and "mm_devs (view (kst p)) path = Some d"
    and "\<And>s'. view s' = (view (kst p))\<lparr>mm_devs := (mm_devs (view (kst p)))(path \<mapsto> ioc path cmd d)\<rparr> \<Longrightarrow>
      runs K (k 0) (p\<lparr>kst := s'\<rparr>) Q"
  shows "runs K (sys_int (File (Ioctl fd cmd)) k) p Q"
proof (rule runs_sys_int)
  fix v os s' assume "k_sys K (File (Ioctl fd cmd)) (kst p) = (SOk v os, s')"
  from map_ioctl [OF K this] assms(2-4) show "runs K (k v) (p\<lparr>kst := s'\<rparr>) Q" by (simp add: ioctl_rel_def)
next
  fix e s' assume "k_sys K (File (Ioctl fd cmd)) (kst p) = (SErr e, s')"
  from map_ioctl [OF K this] assms(2,3) show "runs K (k (- 1)) (p\<lparr>kst := s', errno := e\<rparr>) Q" by (simp add: ioctl_rel_def)
qed

lemma runs_mmap_obj:
  assumes K: "conforms_map K view rd ioc" and fl: "\<not> mmap_fixed fl" "\<not> mmap_anonymous fl" "0 < n" "page_aligned off"
    and fd: "fds (mm_fs (view (kst p))) fd = Some (path, pos, md)"
    and "\<And>e s'. view s' = view (kst p) \<Longrightarrow> runs K (k (- 1)) (p\<lparr>kst := s', errno := e\<rparr>) Q"
    and "\<And>b s'. \<not> mmap_denied md pr fl \<Longrightarrow> room (view (kst p)) b (pg_up (unat n)) \<Longrightarrow>
      view s' = map_cells b (pg_up (unat n)) (obj_cells pr (mmap_shared fl) path b (unat off)) (view (kst p)) \<Longrightarrow>
      runs K (k b) (p\<lparr>kst := s'\<rparr>) Q"
  shows "runs K (sys_ptr (Mem (Mmap 0 n pr fl fd off)) k) p Q"
proof (rule runs_refusable_ptr [where P = "\<lambda>b m. \<not> mmap_denied md pr fl \<and> room (view (kst p)) b (pg_up (unat n)) \<and>
    m = map_cells b (pg_up (unat n)) (obj_cells pr (mmap_shared fl) path b (unat off)) (view (kst p))"])
  fix r s' assume "k_sys K (Mem (Mmap 0 n pr fl fd off)) (kst p) = (r, s')"
  from map_mmap [OF K this] fl fd
  show "mm_refused (view (kst p)) r (view s') \<or> (\<exists>b. r = SOk (uint b) [] \<and> \<not> mmap_denied md pr fl \<and>
      room (view (kst p)) b (pg_up (unat n)) \<and>
      view s' = map_cells b (pg_up (unat n)) (obj_cells pr (mmap_shared fl) path b (unat off)) (view (kst p)))"
    by (auto simp: mm_mmap_rel_def)
qed (use assms(7,8) in simp_all)

lemma runs_mmap_anon:
  assumes K: "conforms_map K view rd ioc" and fl: "\<not> mmap_fixed fl" "mmap_anonymous fl" "\<not> mmap_shared fl" "0 < n" "page_aligned off"
    and "\<And>e s'. view s' = view (kst p) \<Longrightarrow> runs K (k (- 1)) (p\<lparr>kst := s', errno := e\<rparr>) Q"
    and "\<And>b s'. room (view (kst p)) b (pg_up (unat n)) \<Longrightarrow>
      view s' = map_cells b (pg_up (unat n)) (\<lambda>_. Some \<lparr>mprot = pr, msrc = Own 0\<rparr>) (view (kst p)) \<Longrightarrow>
      runs K (k b) (p\<lparr>kst := s'\<rparr>) Q"
  shows "runs K (sys_ptr (Mem (Mmap 0 n pr fl fd off)) k) p Q"
proof (rule runs_refusable_ptr [where P = "\<lambda>b m. room (view (kst p)) b (pg_up (unat n)) \<and>
    m = map_cells b (pg_up (unat n)) (\<lambda>_. Some \<lparr>mprot = pr, msrc = Own 0\<rparr>) (view (kst p))"])
  fix r s' assume "k_sys K (Mem (Mmap 0 n pr fl fd off)) (kst p) = (r, s')"
  from map_mmap [OF K this] fl
  show "mm_refused (view (kst p)) r (view s') \<or> (\<exists>b. r = SOk (uint b) [] \<and> room (view (kst p)) b (pg_up (unat n)) \<and>
      view s' = map_cells b (pg_up (unat n)) (\<lambda>_. Some \<lparr>mprot = pr, msrc = Own 0\<rparr>) (view (kst p)))"
    by (auto simp: mm_mmap_rel_def)
qed (use assms(7,8) in simp_all)

lemma runs_munmap:
  assumes K: "conforms_map K view rd ioc" and a: "page_aligned a" "0 < n" "fits a (pg_up (unat n))"
    and "\<And>e s'. view s' = view (kst p) \<Longrightarrow> runs K (k (- 1)) (p\<lparr>kst := s', errno := e\<rparr>) Q"
    and "\<And>s'. view s' = map_cells a (pg_up (unat n)) (\<lambda>_. None) (view (kst p)) \<Longrightarrow> runs K (k 0) (p\<lparr>kst := s'\<rparr>) Q"
  shows "runs K (sys_int (Mem (Munmap a n)) k) p Q"
proof (rule runs_refusable [where P = "\<lambda>v m. v = 0 \<and> m = map_cells a (pg_up (unat n)) (\<lambda>_. None) (view (kst p))"])
  fix r s' assume "k_sys K (Mem (Munmap a n)) (kst p) = (r, s')"
  from map_munmap [OF K this] a
  show "mm_refused (view (kst p)) r (view s') \<or>
      (\<exists>v. r = SOk v [] \<and> v = 0 \<and> view s' = map_cells a (pg_up (unat n)) (\<lambda>_. None) (view (kst p)))"
    by (auto simp: mm_munmap_rel_def)
qed (use assms(5,6) in simp_all)

lemma runs_mprotect:
  assumes K: "conforms_map K view rd ioc" and a: "page_aligned a" "fits a (pg_up (unat n))"
    "mapped (mm_cells (view (kst p))) a (pg_up (unat n))"
    and "\<And>e s'. view s' = view (kst p) \<Longrightarrow> runs K (k (- 1)) (p\<lparr>kst := s', errno := e\<rparr>) Q"
    and "\<And>s'. view s' = map_cells a (pg_up (unat n))
        (\<lambda>x. map_option (mprot_update (\<lambda>_. pr)) (mm_cells (view (kst p)) x)) (view (kst p)) \<Longrightarrow>
      runs K (k 0) (p\<lparr>kst := s'\<rparr>) Q"
  shows "runs K (sys_int (Mem (Mprotect a n pr)) k) p Q"
proof (rule runs_refusable [where P = "\<lambda>v m. v = 0 \<and> m = map_cells a (pg_up (unat n))
        (\<lambda>x. map_option (mprot_update (\<lambda>_. pr)) (mm_cells (view (kst p)) x)) (view (kst p))"])
  fix r s' assume "k_sys K (Mem (Mprotect a n pr)) (kst p) = (r, s')"
  from map_mprotect [OF K this] a
  show "mm_refused (view (kst p)) r (view s') \<or> (\<exists>v. r = SOk v [] \<and> v = 0 \<and>
      view s' = map_cells a (pg_up (unat n)) (\<lambda>x. map_option (mprot_update (\<lambda>_. pr)) (mm_cells (view (kst p)) x)) (view (kst p)))"
    by (auto simp: mprotect_rel_def)
qed (use assms(5,6) in simp_all)

lemma runs_remap:
  assumes K: "conforms_map K view rd ioc" and a: "page_aligned a" "page_aligned n" "0 < n" "fits a (unat n)" "unat pgoff < 2 ^ 52"
    and c: "\<And>x. inr a (unat n) x \<Longrightarrow> \<exists>off. mm_cells (view (kst p)) x = Some \<lparr>mprot = pr, msrc = Of True path off\<rparr>"
    and "\<And>e s'. view s' = view (kst p) \<Longrightarrow> runs K (k (- 1)) (p\<lparr>kst := s', errno := e\<rparr>) Q"
    and "\<And>s'. view s' = map_cells a (unat n) (obj_cells pr True path a (unat pgoff * 4096)) (view (kst p)) \<Longrightarrow>
      runs K (k 0) (p\<lparr>kst := s'\<rparr>) Q"
  shows "runs K (sys_int (Mem (Remap_file_pages a n 0 pgoff 0)) k) p Q"
proof (rule runs_refusable [where P = "\<lambda>v m. v = 0 \<and>
    m = map_cells a (unat n) (obj_cells pr True path a (unat pgoff * 4096)) (view (kst p))"])
  fix r s' assume "k_sys K (Mem (Remap_file_pages a n 0 pgoff 0)) (kst p) = (r, s')"
  from map_remap [OF K this, unfolded remap_rel_def, rule_format, of pr path] a c
  show "mm_refused (view (kst p)) r (view s') \<or> (\<exists>v. r = SOk v [] \<and> v = 0 \<and>
      view s' = map_cells a (unat n) (obj_cells pr True path a (unat pgoff * 4096)) (view (kst p)))"
    by blast
qed (use assms(8,9) in simp_all)

lemma runs_neutral:
  assumes K: "conforms_map K view rd ioc" and "mm_neutral c"
    and "\<And>e s'. view s' = view (kst p) \<Longrightarrow> runs K (k (- 1)) (p\<lparr>kst := s', errno := e\<rparr>) Q"
    and "\<And>v s'. view s' = view (kst p) \<Longrightarrow> runs K (k v) (p\<lparr>kst := s'\<rparr>) Q"
  shows "runs K (sys_int c k) p Q"
  by (rule runs_sys_int) (use map_neutral [OF K assms(2), of "kst p"] assms(3,4) in simp_all)


subsection \<open>What a program sees\<close>

definition vis :: "mm \<Rightarrow> u64 \<Rightarrow> u8 option" where
  "vis m x = (case mm_cells m x of None \<Rightarrow> None | Some c \<Rightarrow> cell_byte m c)"

text \<open>The object and offset a byte shows through a shared mapping.\<close>

definition shared_at :: "mm \<Rightarrow> u64 \<Rightarrow> (string \<times> nat) option" where
  "shared_at m x =
     (case mm_cells m x of
        Some c \<Rightarrow> (case msrc c of Of True p off \<Rightarrow> Some (p, off) | _ \<Rightarrow> None)
      | None \<Rightarrow> None)"

definition prot_at :: "mm \<Rightarrow> u64 \<Rightarrow> int option" where
  "prot_at m x = map_option mprot (mm_cells m x)"

definition there_at :: "mm \<Rightarrow> u64 \<Rightarrow> bool" where
  "there_at m x = (case mm_cells m x of None \<Rightarrow> False | Some c \<Rightarrow> cell_there m c)"

lemma obj_byte_same: "mm_devs m' = mm_devs m \<Longrightarrow> mm_fs m' = mm_fs m \<Longrightarrow> obj_byte m' p off = obj_byte m p off"
  by (simp add: obj_byte_def split: option.split)

lemma cell_byte_same: "mm_devs m' = mm_devs m \<Longrightarrow> mm_fs m' = mm_fs m \<Longrightarrow> cell_byte m' c = cell_byte m c"
  using obj_byte_same [of m' m] by (cases "msrc c") (simp_all add: cell_byte_def)

lemma cell_there_same: "mm_devs m' = mm_devs m \<Longrightarrow> mm_fs m' = mm_fs m \<Longrightarrow> cell_there m' c = cell_there m c"
  by (cases "msrc c") (simp_all add: cell_there_def obj_there_def)

lemma cell_byte_own_page: "cell_byte m (own_page m c) = cell_byte m c"
  by (auto simp: own_page_def cell_byte_def split: option.split msrc.split)

lemma cell_there_own_page: "cell_there m c \<Longrightarrow> cell_there m (own_page m c)"
  by (auto simp: own_page_def cell_there_def split: option.split msrc.split)

text \<open>A write to a private page changes the byte written and nothing else of what is seen.\<close>

lemma mm_store_fields:
  assumes "shared_at m a = None"
  shows "mm_fs (mm_store a b m) = mm_fs m" "mm_devs (mm_store a b m) = mm_devs m"
    "\<not> same_page x a \<Longrightarrow> mm_cells (mm_store a b m) x = mm_cells m x"
    "mm_cells m a = Some c \<Longrightarrow> mm_cells (mm_store a b m) a = Some (c\<lparr>msrc := Own b\<rparr>)"
    "x \<noteq> a \<Longrightarrow> mm_cells (mm_store a b m) x \<in> {mm_cells m x, map_option (own_page m) (mm_cells m x)}"
proof -
  have "(\<exists>v. mm_store a b m = m\<lparr>mm_cells := (mm_cells m)(a := map_option (\<lambda>c. c\<lparr>msrc := Own b\<rparr>) (mm_cells m a))\<rparr>) \<or>
    mm_store a b m = m\<lparr>mm_cells := (\<lambda>x. if x = a then map_option (\<lambda>c. c\<lparr>msrc := Own b\<rparr>) (mm_cells m a)
                                else if same_page x a then map_option (own_page m) (mm_cells m x)
                                else mm_cells m x)\<rparr>"
  proof (cases "mm_cells m a")
    case None
    then show ?thesis by (simp add: mm_store_def fun_upd_idem)
  next
    case (Some d)
    then show ?thesis using assms by (cases "msrc d") (auto simp: mm_store_def shared_at_def cong: if_cong split: bool.splits)
  qed
  then show "mm_fs (mm_store a b m) = mm_fs m" "mm_devs (mm_store a b m) = mm_devs m"
    "\<not> same_page x a \<Longrightarrow> mm_cells (mm_store a b m) x = mm_cells m x"
    "mm_cells m a = Some c \<Longrightarrow> mm_cells (mm_store a b m) a = Some (c\<lparr>msrc := Own b\<rparr>)"
    "x \<noteq> a \<Longrightarrow> mm_cells (mm_store a b m) x \<in> {mm_cells m x, map_option (own_page m) (mm_cells m x)}"
    by (auto simp: same_page_def)
qed

lemma mm_store_private:
  assumes s: "shared_at m a = None" and c: "mm_cells m a = Some c"
  shows "vis (mm_store a b m) x = (if x = a then Some b else vis m x)"
    and "prot_at (mm_store a b m) x = prot_at m x"
    and "there_at m x \<Longrightarrow> there_at (mm_store a b m) x"
    and "shared_at m x = None \<Longrightarrow> shared_at (mm_store a b m) x = None"
proof -
  note f = mm_store_fields [OF s]
  note same = cell_byte_same [OF f(2,1)] cell_there_same [OF f(2,1)]
  consider (here) "x = a" "mm_cells (mm_store a b m) x = Some (c\<lparr>msrc := Own b\<rparr>)"
    | (keep) "x \<noteq> a" "mm_cells (mm_store a b m) x = mm_cells m x"
    | (own) "x \<noteq> a" "mm_cells (mm_store a b m) x = map_option (own_page m) (mm_cells m x)"
    using f(4) [OF c, of b] f(5) [of x b] by blast
  note cs = this
  show "vis (mm_store a b m) x = (if x = a then Some b else vis m x)"
    using cs
  proof cases
    case here
    then show ?thesis by (simp add: vis_def cell_byte_def)
  next
    case keep
    then show ?thesis by (cases "mm_cells m x") (simp_all add: vis_def same)
  next
    case own
    then show ?thesis by (cases "mm_cells m x") (simp_all add: vis_def same cell_byte_own_page)
  qed
  show "prot_at (mm_store a b m) x = prot_at m x"
    using cs by cases (simp_all add: prot_at_def own_page_def option.map_comp comp_def c)
  show "there_at m x \<Longrightarrow> there_at (mm_store a b m) x"
    using cs
  proof cases
    case here
    then show ?thesis by (simp add: there_at_def cell_there_def)
  next
    case keep
    then show "there_at m x \<Longrightarrow> ?thesis" by (cases "mm_cells m x") (simp_all add: there_at_def same)
  next
    case own
    then show "there_at m x \<Longrightarrow> ?thesis" by (cases "mm_cells m x") (simp_all add: there_at_def same cell_there_own_page)
  qed
  show "shared_at m x = None \<Longrightarrow> shared_at (mm_store a b m) x = None"
    using cs
  proof cases
    case own
    then show "shared_at m x = None \<Longrightarrow> ?thesis"
      by (cases "mm_cells m x") (auto simp: shared_at_def own_page_def split: option.splits msrc.splits bool.splits)
  qed (simp_all add: shared_at_def)
qed

lemma runs_load_vis:
  assumes K: "conforms_map K view rd ioc" and "there_at (view (kst p)) a" "vis (view (kst p)) a = Some v"
    "prot_at (view (kst p)) a = Some pr" "rd pr"
    and "\<And>s'. view s' = view (kst p) \<Longrightarrow> runs K (k v) (p\<lparr>kst := s'\<rparr>) Q"
  shows "runs K (Load a k) p Q"
proof -
  obtain c where c: "mm_cells (view (kst p)) a = Some c" "cell_there (view (kst p)) c" "cell_byte (view (kst p)) c = Some v"
    "rd (mprot c)"
    using assms(2-5) by (auto simp: there_at_def vis_def prot_at_def split: option.splits)
  then have "\<exists>s'. k_load K a (kst p) = Inr (v, s') \<and> view s' = view (kst p)"
    using map_load [OF K, of a "kst p"] by (simp add: mm_load_law_def load_defined_def mm_fault_def can_read_def)
  then show ?thesis using assms(6) by (auto intro: runs_Load)
qed

lemma runs_load_segv:
  assumes K: "conforms_map K view rd ioc"
    and "mm_cells (view (kst p)) a = None \<or> there_at (view (kst p)) a \<and> prot_at (view (kst p)) a = Some pr \<and> \<not> rd pr"
    and "Q (fault SIGSEGV p) p"
  shows "runs K (Load a k) p Q"
proof -
  have "k_load K a (kst p) = Inl SIGSEGV"
    using map_load [OF K, of a "kst p"] assms(2)
    by (auto simp: mm_load_law_def load_defined_def mm_fault_def can_read_def there_at_def prot_at_def split: option.splits)
  then show ?thesis using assms(3) by (auto intro: runs_Load)
qed

lemma runs_store_private:
  assumes K: "conforms_map K view rd ioc" and "there_at (view (kst p)) a" "vis (view (kst p)) a \<noteq> None"
    "prot_at (view (kst p)) a = Some pr" "pr AND PROT_WRITE \<noteq> 0" "shared_at (view (kst p)) a = None"
    and "\<And>s'. view s' = mm_store a b (view (kst p)) \<Longrightarrow> runs K k (p\<lparr>kst := s'\<rparr>) Q"
  shows "runs K (Store a b k) p Q"
proof -
  obtain c where c: "mm_cells (view (kst p)) a = Some c" "cell_there (view (kst p)) c" "cell_byte (view (kst p)) c \<noteq> None"
    "mprot c AND PROT_WRITE \<noteq> 0"
    using assms(2-5) by (auto simp: there_at_def vis_def prot_at_def split: option.splits)
  moreover then have "store_defined a (view (kst p))"
    using assms(6) by (auto simp: store_defined_def shared_at_def split: msrc.splits bool.splits)
  ultimately have "\<exists>s'. k_store K a b (kst p) = Inr s' \<and> view s' = mm_store a b (view (kst p))"
    using map_store [OF K, of a b "kst p"] by (auto simp: mm_store_law_def mm_fault_def can_write_def)
  then show ?thesis using assms(7) by (auto intro: runs_Store)
qed

lemma runs_store_shared_dev:
  assumes K: "conforms_map K view rd ioc" and "shared_at (view (kst p)) a = Some (path, off)"
    "mm_devs (view (kst p)) path = Some d" "d off \<noteq> None" "prot_at (view (kst p)) a = Some pr" "pr AND PROT_WRITE \<noteq> 0"
    and "\<And>s'. view s' = (view (kst p))\<lparr>mm_devs := (mm_devs (view (kst p)))(path \<mapsto> d(off \<mapsto> b))\<rparr> \<Longrightarrow>
      runs K k (p\<lparr>kst := s'\<rparr>) Q"
  shows "runs K (Store a b k) p Q"
proof -
  obtain c where c: "mm_cells (view (kst p)) a = Some c" "msrc c = Of True path off" "mprot c AND PROT_WRITE \<noteq> 0"
    using assms(2,5,6) by (auto simp: shared_at_def prot_at_def split: option.splits msrc.splits bool.splits)
  then have "\<exists>s'. k_store K a b (kst p) = Inr s' \<and> view s' = mm_store a b (view (kst p))"
    using map_store [OF K, of a b "kst p"] assms(3,4)
    by (simp add: mm_store_law_def mm_fault_def can_write_def store_defined_def cell_there_def obj_there_def cell_byte_def obj_byte_def)
  moreover have "mm_store a b (view (kst p)) = (view (kst p))\<lparr>mm_devs := (mm_devs (view (kst p)))(path \<mapsto> d(off \<mapsto> b))\<rparr>"
    using c assms(3) by (simp add: mm_store_def obj_set_def)
  ultimately show ?thesis using assms(7) by (auto intro: runs_Store)
qed

lemma runs_store_shared_file:
  assumes K: "conforms_map K view rd ioc" and "shared_at (view (kst p)) a = Some (path, off)"
    "mm_devs (view (kst p)) path = None" "files (mm_fs (view (kst p))) path = Some c" "off < length c"
    "prot_at (view (kst p)) a = Some pr" "pr AND PROT_WRITE \<noteq> 0"
    and "\<And>s'. view s' = (view (kst p))\<lparr>mm_fs := (mm_fs (view (kst p)))
        \<lparr>files := (files (mm_fs (view (kst p))))(path \<mapsto> c[off := char_byte b])\<rparr>\<rparr> \<Longrightarrow> runs K k (p\<lparr>kst := s'\<rparr>) Q"
  shows "runs K (Store a b k) p Q"
proof -
  obtain e where e: "mm_cells (view (kst p)) a = Some e" "msrc e = Of True path off" "mprot e AND PROT_WRITE \<noteq> 0"
    using assms(2,6,7) by (auto simp: shared_at_def prot_at_def split: option.splits msrc.splits bool.splits)
  then have "\<exists>s'. k_store K a b (kst p) = Inr s' \<and> view s' = mm_store a b (view (kst p))"
    using map_store [OF K, of a b "kst p"] assms(3-5)
    by (simp add: mm_store_law_def mm_fault_def can_write_def store_defined_def cell_there_def obj_there_def cell_byte_def
      obj_byte_def file_byte_def)
  moreover have "mm_store a b (view (kst p)) = (view (kst p))\<lparr>mm_fs := (mm_fs (view (kst p)))
        \<lparr>files := (files (mm_fs (view (kst p))))(path \<mapsto> c[off := char_byte b])\<rparr>\<rparr>"
    using e assms(3,4) by (simp add: mm_store_def obj_set_def)
  ultimately show ?thesis using assms(8) by (auto intro: runs_Store)
qed

text \<open>A store to memory that is not there, may not be written, or lies behind the end of its object.\<close>

lemma runs_store_segv:
  assumes K: "conforms_map K view rd ioc"
    and "mm_cells (view (kst p)) a = None \<or>
      (\<exists>c. mm_cells (view (kst p)) a = Some c \<and> store_defined a (view (kst p)) \<and> mprot c AND PROT_WRITE = 0)"
    and "Q (fault SIGSEGV p) p"
  shows "runs K (Store a b k) p Q"
proof -
  have "k_store K a b (kst p) = Inl SIGSEGV"
    using map_store [OF K, of a b "kst p"] assms(2)
    by (auto simp: mm_store_law_def store_defined_def mm_fault_def can_write_def split: option.splits)
  then show ?thesis using assms(3) by (auto intro: runs_Store)
qed

lemma runs_store_bus:
  assumes K: "conforms_map K view rd ioc" and "there_at (view (kst p)) a" "vis (view (kst p)) a = None"
    "prot_at (view (kst p)) a = Some pr" "pr AND PROT_WRITE \<noteq> 0"
    and "Q (fault SIGBUS p) p"
  shows "runs K (Store a b k) p Q"
proof -
  obtain c where c: "mm_cells (view (kst p)) a = Some c" "cell_there (view (kst p)) c" "cell_byte (view (kst p)) c = None"
    "mprot c AND PROT_WRITE \<noteq> 0"
    using assms(2-5) by (auto simp: there_at_def vis_def prot_at_def split: option.splits)
  moreover then have "store_defined a (view (kst p))"
    by (auto simp: store_defined_def cell_byte_def split: msrc.splits bool.splits)
  ultimately have "k_store K a b (kst p) = Inl SIGBUS"
    using map_store [OF K, of a b "kst p"] by (simp add: mm_store_law_def mm_fault_def can_write_def)
  then show ?thesis using assms(6) by (auto intro: runs_Store)
qed

subsection \<open>Ranges of pages, and reading them\<close>

lemma pg_up_dvd: "pg_up n mod 4096 = 0"
  by (simp add: pg_up_def)

lemma pg_up_ge: "n \<le> pg_up n"
  using div_mult_mod_eq [of "n + 4095" 4096] mod_less_divisor [of 4096 "n + 4095"] unfolding pg_up_def by linarith

lemma pg_up_pages: "pg_up n div 4096 = (n + 4095) div 4096"
  by (simp add: pg_up_def)

lemma roomD:
  assumes "room m b n"
  shows "page_aligned b" "b \<noteq> 0" "b \<noteq> - 1" "fits b n" "unmapped (mm_cells m) b n"
  using assms page_aligned_not_failed by (auto simp: room_def)

text \<open>A page that starts in a range of whole pages lies in it.\<close>

lemma inr_same_page:
  assumes "page_aligned b" "n mod 4096 = 0" "fits b n" "inr b n a" "same_page x a"
  shows "inr b n x"
proof -
  obtain k where k: "unat b = 4096 * k" using assms(1) unfolding page_aligned_def by (metis mod_0_imp_dvd dvdE)
  obtain l where l: "n = 4096 * l" using assms(2) by (metis mod_0_imp_dvd dvdE)
  have "k \<le> unat a div 4096" "unat a div 4096 < k + l"
    using assms(4) unfolding inr_def k l by (auto simp: less_mult_imp_div_less div_le_mono)
  then show ?thesis
    using assms(5) unfolding inr_def same_page_def k l by linarith
qed

lemma fault_kst [simp]: "fault sg (p\<lparr>kst := s\<rparr>) = fault sg p"
  by (simp add: fault_def)

text \<open>A range that can be read and shows a list of bytes.\<close>

definition shows_at :: "(int \<Rightarrow> bool) \<Rightarrow> mm \<Rightarrow> u64 \<Rightarrow> u8 list \<Rightarrow> bool" where
  "shows_at rd m a bs \<longleftrightarrow> (\<forall>k<length bs. there_at m (a + of_nat k) \<and> vis m (a + of_nat k) = Some (bs ! k) \<and>
     (\<exists>pr. prot_at m (a + of_nat k) = Some pr \<and> rd pr))"

lemma shows_at_Cons: "shows_at rd m a (c # bs) \<longleftrightarrow>
   there_at m a \<and> vis m a = Some c \<and> (\<exists>pr. prot_at m a = Some pr \<and> rd pr) \<and> shows_at rd m (a + 1) bs"
  by (simp add: shows_at_def All_less_Suc2 add.assoc conj_assoc)

lemma runs_memcmp_eq:
  assumes K: "conforms_map K view rd ioc" and "shows_at rd (view (kst p)) a bs"
    and "\<And>s'. view s' = view (kst p) \<Longrightarrow> runs K (k 0) (p\<lparr>kst := s'\<rparr>) Q"
  shows "runs K (memcmp_buf bs a k) p Q"
  using assms(2,3)
proof (induction bs arbitrary: a p)
  case Nil
  then show ?case using Nil(2) [of "kst p"] by simp
next
  case (Cons c bs)
  from Cons.prems(1) obtain pr where h: "there_at (view (kst p)) a" "vis (view (kst p)) a = Some c"
    "prot_at (view (kst p)) a = Some pr" "rd pr" "shows_at rd (view (kst p)) (a + 1) bs"
    by (auto simp: shows_at_Cons)
  show ?case unfolding memcmp_buf.simps
  proof (rule runs_load_vis [OF K h(1-4)])
    fix s' assume s': "view s' = view (kst p)"
    have "runs K (memcmp_buf bs (a + 1) k) (p\<lparr>kst := s'\<rparr>) Q"
      by (rule Cons.IH) (use s' h(5) Cons.prems(2) in simp_all)
    then show "runs K (if c = c then memcmp_buf bs (a + 1) k else k (if c < c then - 1 else 1)) (p\<lparr>kst := s'\<rparr>) Q" by simp
  qed
qed

lemma runs_close:
  assumes K: "conforms_map K view rd ioc" and "fds (mm_fs (view (kst p))) fd \<noteq> None"
    and "\<And>s'. view s' = (view (kst p))\<lparr>mm_fs := (mm_fs (view (kst p)))\<lparr>fds := (fds (mm_fs (view (kst p))))(fd := None)\<rparr>\<rparr> \<Longrightarrow>
      runs K (k 0) (p\<lparr>kst := s'\<rparr>) Q"
  shows "runs K (sys_int (File (Close fd)) k) p Q"
proof -
  let ?s = "snd (k_sys K (File (Close fd)) (kst p))"
  have f: "fst (k_sys K (File (Close fd)) (kst p)) = SOk 0 []"
    "mm_fs (view ?s) = (mm_fs (view (kst p)))\<lparr>fds := (fds (mm_fs (view (kst p))))(fd := None)\<rparr>"
    using conforms_fileD(1,2) [OF map_file [OF K], of "kst p" "Close fd"] assms(2) by (auto split: option.splits)
  have "fs_only (File (Close fd))" by simp
  from map_fs_only [OF K this, of "kst p"] f(2)
  have "view ?s = (view (kst p))\<lparr>mm_fs := (mm_fs (view (kst p)))\<lparr>fds := (fds (mm_fs (view (kst p))))(fd := None)\<rparr>\<rparr>"
    by (intro mm.equality) simp_all
  from assms(3) [OF this] f(1) show ?thesis by (intro runs_sys_int) auto
qed

abbreviation RW :: int where "RW \<equiv> PROT_READ OR PROT_WRITE"

lemma mmap_flags: "\<not> mmap_fixed MAP_PRIVATE" "\<not> mmap_anonymous MAP_PRIVATE" "\<not> mmap_shared MAP_PRIVATE"
  "\<not> mmap_fixed MAP_SHARED" "\<not> mmap_anonymous MAP_SHARED" "mmap_shared MAP_SHARED"
  by (simp_all add: mmap_fixed_def mmap_anonymous_def mmap_shared_def abi_defs)

lemma rd_RW: "conforms_map K view rd ioc \<Longrightarrow> rd RW"
  using map_rd_ok [of K view rd ioc] by (simp add: rd_ok_def abi_defs)

lemma opened_fields [simp]: "mm_devs (opened fd path fl m) = mm_devs m" "mm_cells (opened fd path fl m) = mm_cells m"
  by (simp_all add: opened_def)

lemma room_cells: "mm_cells m' = mm_cells m \<Longrightarrow> room m' b n = room m b n"
  by (simp add: room_def)

end
