(* ===== verification/Ref_Map.thy ===== *)
theory Ref_Map
  imports Map_Spec Ref_Kernel
begin

text \<open>
  One kernel with the behaviour of \<^verbatim>\<open>Map_Spec\<close>, for the witnesses: it gives out the first free
  descriptor and the first free one of a few places in the address space.
\<close>

definition map_base :: "mm \<Rightarrow> nat \<Rightarrow> u64 option" where
  "map_base m n = find (\<lambda>b. room m b n) [0x10000000, 0x20000000, 0x30000000]"

definition map_fd :: "mm \<Rightarrow> int option" where
  "map_fd m = find (\<lambda>fd. fds (mm_fs m) fd = None) [3, 4, 5, 6]"

definition map_open :: "string \<Rightarrow> int \<Rightarrow> mm \<Rightarrow> sysres \<times> mm" where
  "map_open p fl m =
     (if obj_there m p \<or> fl AND O_CREAT \<noteq> 0
      then (case map_fd m of None \<Rightarrow> (SErr 24, m) | Some fd \<Rightarrow> (SOk fd [], opened fd p fl m))
      else (SErr ENOENT, m))"

definition map_stat :: "string \<Rightarrow> mm \<Rightarrow> sysres" where
  "map_stat p m = (case files (mm_fs m) p of None \<Rightarrow> SErr ENOENT | Some c \<Rightarrow> SOk 0 [OInt (int (length c))])"

definition map_read :: "int \<Rightarrow> u64 \<Rightarrow> mm \<Rightarrow> sysres \<times> mm" where
  "map_read fd n m =
     (case fds (mm_fs m) fd of
        None \<Rightarrow> (SErr EBADF, m)
      | Some (p, off, md) \<Rightarrow>
          (let d = take (unat n) (drop (nat off) (case files (mm_fs m) p of None \<Rightarrow> [] | Some c \<Rightarrow> c)) in
           (SOk (int (length d)) [OStr d],
            m\<lparr>mm_fs := (mm_fs m)\<lparr>fds := (fds (mm_fs m))(fd \<mapsto> (p, off + int (length d), md))\<rparr>\<rparr>)))"

definition map_mmap :: "u64 \<Rightarrow> int \<Rightarrow> int \<Rightarrow> int \<Rightarrow> u64 \<Rightarrow> mm \<Rightarrow> sysres \<times> mm" where
  "map_mmap n pr fl fd off m =
     (case map_base m (pg_up (unat n)) of
        None \<Rightarrow> (SErr ENOMEM, m)
      | Some b \<Rightarrow>
          if mmap_anonymous fl
          then (SOk (uint b) [], map_cells b (pg_up (unat n)) (\<lambda>_. Some \<lparr>mprot = pr, msrc = Own 0\<rparr>) m)
          else (case fds (mm_fs m) fd of
                  None \<Rightarrow> (SErr EBADF, m)
                | Some (p, pos, md) \<Rightarrow>
                    if mmap_denied md pr fl then (SErr EACCES, m)
                    else (SOk (uint b) [],
                          map_cells b (pg_up (unat n)) (obj_cells pr (mmap_shared fl) p b (unat off)) m)))"

definition map_remap :: "u64 \<Rightarrow> u64 \<Rightarrow> u64 \<Rightarrow> mm \<Rightarrow> sysres \<times> mm" where
  "map_remap a n pgoff m =
     (case mm_cells m a of
        Some c \<Rightarrow> (case msrc c of
            Of True p off \<Rightarrow> (SOk 0 [], map_cells a (unat n) (obj_cells (mprot c) True p a (unat pgoff * 4096)) m)
          | _ \<Rightarrow> (SErr EINVAL, m))
      | None \<Rightarrow> (SErr EINVAL, m))"

definition on_fs :: "mm \<Rightarrow> sysres \<times> fs \<Rightarrow> sysres \<times> mm" where
  "on_fs m x = (fst x, m\<lparr>mm_fs := snd x\<rparr>)"

fun map_sys :: "ioctls \<Rightarrow> syscall \<Rightarrow> mm \<Rightarrow> sysres \<times> mm" where
  "map_sys ioc (File (Open p fl)) m = map_open p fl m"
| "map_sys ioc (File (Stat p)) m = (map_stat p m, m)"
| "map_sys ioc (File (Fstat fd)) m =
     (case fds (mm_fs m) fd of None \<Rightarrow> (SErr EBADF, m) | Some (p, _, _) \<Rightarrow> (map_stat p m, m))"
| "map_sys ioc (File (Read fd n)) m = map_read fd n m"
| "map_sys ioc (File (Ioctl fd cmd)) m =
     (case fds (mm_fs m) fd of
        None \<Rightarrow> (SErr EBADF, m)
      | Some (p, _, _) \<Rightarrow> (SOk 0 [], m\<lparr>mm_devs := (mm_devs m)(p := map_option (ioc p cmd) (mm_devs m p))\<rparr>))"
| "map_sys ioc (File (Mkstemp t)) m = on_fs m (ref_mkstemp t (mm_fs m))"
| "map_sys ioc (File Sync) m = (SOk 0 [], m)"
| "map_sys ioc (File c) m = on_fs m (fs_step c (mm_fs m))"
| "map_sys ioc (Mem (Mmap a n pr fl fd off)) m = map_mmap n pr fl fd off m"
| "map_sys ioc (Mem (Munmap a n)) m = (SOk 0 [], map_cells a (pg_up (unat n)) (\<lambda>_. None) m)"
| "map_sys ioc (Mem (Mprotect a n pr)) m =
     (SOk 0 [], map_cells a (pg_up (unat n)) (\<lambda>x. map_option (mprot_update (\<lambda>_. pr)) (mm_cells m x)) m)"
| "map_sys ioc (Mem (Remap_file_pages a n pr pgoff fl)) m = map_remap a n pgoff m"
| "map_sys ioc (Mem (Malloc n)) m = (SOk 4096 [], m)"
| "map_sys ioc (Mem c) m = (SOk 0 [], m)"
| "map_sys ioc c m = (SErr ENOSYS, m)"

definition map_kernel :: "(int \<Rightarrow> bool) \<Rightarrow> ioctls \<Rightarrow> mm kernel" where
  "map_kernel rd ioc =
     \<lparr>k_sys = map_sys ioc,
      k_load = (\<lambda>a m. case mm_fault (can_read rd a m) a m of
                  Some sg \<Rightarrow> Inl sg
                | None \<Rightarrow> Inr (the (cell_byte m (the (mm_cells m a))), m)),
      k_store = (\<lambda>a b m. case mm_fault (can_write a m) a m of
                   Some sg \<Rightarrow> Inl sg
                 | None \<Rightarrow> Inr (mm_store a b m)),
      k_sigaction = (\<lambda>sg m. (SOk 0 [], m))\<rparr>"

definition map_process :: "mm \<Rightarrow> mm process" where
  "map_process m = \<lparr>kst = m, errno = 0, globals = (\<lambda>_. 0), gstrings = (\<lambda>_. []), disp = (\<lambda>_. SIG_DFL), out = []\<rparr>"

lemma find_SomeD: "find P xs = Some x \<Longrightarrow> x \<in> set xs \<and> P x"
  by (auto simp: find_Some_iff)

lemma map_open_rel: "open_rel p fl m (fst (map_open p fl m)) (snd (map_open p fl m))"
  by (auto simp: open_rel_def map_open_def mm_refused_def map_fd_def dest!: find_SomeD split: option.split)

lemma map_stat_rel: "stat_rel p m (map_stat p m) m"
  by (auto simp: stat_rel_def map_stat_def split: option.split)

lemma map_baseD: "map_base m n = Some b \<Longrightarrow> room m b n"
  by (metis find_SomeD map_base_def)

lemma map_mmap_rel: "mm_mmap_rel n pr fl fd off m (fst (map_mmap n pr fl fd off m)) (snd (map_mmap n pr fl fd off m))"
proof (cases "map_base m (pg_up (unat n))")
  case None
  then show ?thesis by (simp add: mm_mmap_rel_def map_mmap_def mm_refused_def)
next
  case (Some b)
  with map_baseD [OF Some] show ?thesis
    by (auto simp: mm_mmap_rel_def map_mmap_def mm_refused_def split: option.split intro!: exI [of _ b])
qed

lemma map_remap_rel: "remap_rel a n pgoff m (fst (map_remap a n pgoff m)) (snd (map_remap a n pgoff m))"
proof -
  have "0 < n \<Longrightarrow> inr a (unat n) a" by (simp add: inr_self unat_gt_0)
  then show ?thesis
    unfolding remap_rel_def map_remap_def by fastforce
qed

lemma map_conforms_file: "conforms_file (map_kernel rd ioc) mm_fs"
proof -
  have "fst (map_sys ioc (File c) m) = fst (fs_step c (mm_fs m)) \<and> mm_fs (snd (map_sys ioc (File c) m)) = snd (fs_step c (mm_fs m))"
    if "fs_det (mm_fs m) c" for c m
    using that by (cases c) (simp_all add: on_fs_def)
  moreover have "mkstemp_rel t f (fst (ref_mkstemp t f)) (snd (ref_mkstemp t f))" for t f
    by (auto simp: mkstemp_rel_def ref_mkstemp_def Let_def)
  ultimately show ?thesis
    by (simp add: conforms_file_def preserves_def map_kernel_def on_fs_def)
qed

lemma map_conforms:
  assumes "rd_ok rd"
  shows "conforms_map (map_kernel rd ioc) (\<lambda>m. m) rd ioc"
proof -
  have "fs_only c \<Longrightarrow> mm_cells (snd (map_sys ioc c m)) = mm_cells m \<and> mm_devs (snd (map_sys ioc c m)) = mm_devs m" for c m
    by (cases c rule: fs_only.cases) (simp_all add: on_fs_def)
  moreover have "mm_neutral c \<Longrightarrow> snd (map_sys ioc c m) = m" for c m
    by (cases c rule: mm_neutral.cases) simp_all
  moreover have "open_rel p fl m r m'" if "map_open p fl m = (r, m')" for p fl m r m'
    using map_open_rel [of p fl m] that by simp
  moreover have "mm_mmap_rel n pr fl fd off m r m'" if "map_mmap n pr fl fd off m = (r, m')" for n pr fl fd off m r m'
    using map_mmap_rel [of n pr fl fd off m] that by simp
  moreover have "remap_rel a n pgoff m r m'" if "map_remap a n pgoff m = (r, m')" for a n pgoff m r m'
    using map_remap_rel [of a n pgoff m] that by simp
  ultimately show ?thesis
    using assms map_conforms_file [of rd ioc] map_stat_rel
    unfolding conforms_map_def
    by (auto simp: map_kernel_def heap_rel_def fstat_rel_def mm_refused_def read_rel_def map_read_def ioctl_rel_def
       mm_munmap_rel_def mprotect_rel_def mm_load_law_def mm_store_law_def Let_def split: option.splits)
qed

end
