(* ===== verification/Mmap_Dev.thy ===== *)
theory Mmap_Dev
  imports Drv_Life Ref_Map
begin

text \<open>
  The suite \<^verbatim>\<open>mmap_dev\<close>, which maps the device files the module of \<^verbatim>\<open>Test_Drv\<close> serves, and how
  the two fit together: the contents of the device that the module promises, the mapping the kernel
  makes of it, and what the cases see.
\<close>

subsection \<open>The cases\<close>

record mmap_dev_args =
  da_path :: "string option"
  da_size :: u64

fun mmap_dev_switch :: "optres list \<Rightarrow> mmap_dev_args \<Rightarrow> mmap_dev_args" where
  "mmap_dev_switch [] args = args"
| "mmap_dev_switch ((opt, optarg) # rs) args =
     mmap_dev_switch rs
       (if opt = CHR ''d'' then args\<lparr>da_path := optarg\<rparr>
        else if opt = CHR ''s'' then args\<lparr>da_size := strtoul 10 (case optarg of None \<Rightarrow> [] | Some s \<Rightarrow> s)\<rparr>
        else args)"

definition mmap_dev_setup :: "int \<Rightarrow> string list \<Rightarrow> mmap_dev_args option prog" where
  "mmap_dev_setup tc_num tc_argv =
     (case getopt_all None ''d:s:'' tc_argv of (opts, argv', optind) \<Rightarrow>
        Return (Some (mmap_dev_switch opts \<lparr>da_path = None, da_size = 0\<rparr>)))"

text \<open>\<^verbatim>\<open>pages = (size + PAGE_SIZE - 1) / PAGE_SIZE\<close>, an \<^verbatim>\<open>int\<close>, and the iterations of the loops up to it.\<close>

definition devmap_pages :: "u64 \<Rightarrow> nat" where
  "devmap_pages sz = nat (c_int (uint ((sz + PAGE_SIZE - 1) div PAGE_SIZE)))"

text \<open>The loops: so many iterations from index \<^verbatim>\<open>i\<close> on.\<close>

primrec touch_pages :: "nat \<Rightarrow> nat \<Rightarrow> u64 \<Rightarrow> 'a prog \<Rightarrow> 'a prog" where
  "touch_pages 0 i dat k = k"
| "touch_pages (Suc n) i dat k = Store (dat + PAGE_SIZE * of_nat i) 0x5A (touch_pages n (Suc i) dat k)"

primrec validate_pages :: "nat \<Rightarrow> nat \<Rightarrow> int \<Rightarrow> u64 \<Rightarrow> verdict prog \<Rightarrow> verdict prog" where
  "validate_pages 0 i val dat k = k"
| "validate_pages (Suc n) i val dat k =
     memcmp_buf (0x5A # replicate (unat PAGE_SIZE - 1) (word_of_int val)) (dat + PAGE_SIZE * of_nat i) (\<lambda>cmp.
     tp_assert (cmp = 0) ''compare error.'' (validate_pages n (Suc i) (val + 1) dat k))"

definition devmap_do_devmap_000 :: "string option \<Rightarrow> u64 \<Rightarrow> verdict prog" where
  "devmap_do_devmap_000 path sz =
     (case path of
        None \<Rightarrow> Return (Some ''invalid argument(-d).'')
      | Some path \<Rightarrow>
          tp_assert (0 < sz) ''invalid argument(-s).'' (
          sys_int (File (Open path O_RDWR)) (\<lambda>fd.
          Printf ''open(%s)=%d\<newline>'' [FStr path, FInt fd] (
          tp_assert (fd \<noteq> - 1) ''file open error.'' (
          sys_int (File (Ioctl fd 0)) (\<lambda>status.
          Printf ''ioctl()=%d\<newline>'' [FInt status] (
          tp_assert (status \<noteq> - 1) ''ioctl error.'' (
          sys_ptr (Mem (Mmap 0 sz (PROT_READ OR PROT_WRITE) MAP_PRIVATE fd 0)) (\<lambda>dat.
          Printf ''mmap()=%p\<newline>'' [FPtr dat] (
          tp_assert (dat \<noteq> MAP_FAILED) ''mmap error.'' (
          touch_pages (devmap_pages sz) 0 dat (
          sys_int (Mem (Munmap dat sz)) (\<lambda>status.
          Printf ''munmap()=%d\<newline>'' [FInt status] (
          tp_assert (status \<noteq> - 1) ''munmap error.'' (
          sys_int (File (Close fd)) (\<lambda>_.
          Return None))))))))))))))))"

definition devmap_do_devmap_001 :: "string option \<Rightarrow> u64 \<Rightarrow> verdict prog" where
  "devmap_do_devmap_001 path sz =
     (case path of
        None \<Rightarrow> Return (Some ''invalid argument(-d).'')
      | Some path \<Rightarrow>
          tp_assert (0 < sz) ''invalid argument(-s).'' (
          sys_int (File (Open path O_RDWR)) (\<lambda>fd.
          Printf ''open(%s)=%d\<newline>'' [FStr path, FInt fd] (
          tp_assert (fd \<noteq> - 1) ''file open error.'' (
          sys_int (File (Ioctl fd TEST_MCK_MMAP_DEV2_BUF_RESET)) (\<lambda>status.
          Printf ''ioctl()=%d\<newline>'' [FInt status] (
          tp_assert (status \<noteq> - 1) ''ioctl error.'' (
          sys_ptr (Mem (Mmap 0 sz (PROT_READ OR PROT_WRITE) MAP_PRIVATE fd 0)) (\<lambda>dat.
          Printf ''mmap()=%p\<newline>'' [FPtr dat] (
          tp_assert (dat \<noteq> MAP_FAILED) ''mmap error.'' (
          touch_pages (devmap_pages sz) 0 dat (
          validate_pages (devmap_pages sz) 0 1 dat (
          sys_int (Mem (Munmap dat sz)) (\<lambda>status.
          Printf ''munmap()=%d\<newline>'' [FInt status] (
          tp_assert (status \<noteq> - 1) ''munmap error.'' (
          sys_int (File (Close fd)) (\<lambda>_.
          Return None)))))))))))))))))"

definition devmap_do_devmap_002 :: "string option \<Rightarrow> u64 \<Rightarrow> verdict prog" where
  "devmap_do_devmap_002 path sz =
     (case path of
        None \<Rightarrow> Return (Some ''invalid argument(-d).'')
      | Some path \<Rightarrow>
          tp_assert (0 < sz) ''invalid argument(-s).'' (
          sys_int (File (Open path O_RDWR)) (\<lambda>fd.
          Printf ''open(%s)=%d\<newline>'' [FStr path, FInt fd] (
          tp_assert (fd \<noteq> - 1) ''file open error.'' (
          sys_int (File (Ioctl fd TEST_MCK_MMAP_DEV2_BUF_RESET)) (\<lambda>status.
          Printf ''ioctl()=%d\<newline>'' [FInt status] (
          tp_assert (status \<noteq> - 1) ''ioctl error.'' (
          sys_ptr (Mem (Mmap 0 sz (PROT_READ OR PROT_WRITE) MAP_SHARED fd 0)) (\<lambda>dat.
          Printf ''mmap()=%p\<newline>'' [FPtr dat] (
          tp_assert (dat \<noteq> MAP_FAILED) ''mmap error.'' (
          touch_pages (devmap_pages sz) 0 dat (
          sys_ptr (Mem (Mmap 0 sz (PROT_READ OR PROT_WRITE) MAP_SHARED fd 0)) (\<lambda>peek_data.
          Printf ''peek mmap()=%p\<newline>'' [FPtr peek_data] (
          tp_assert (peek_data \<noteq> MAP_FAILED) ''peek mmap error.'' (
          validate_pages (devmap_pages sz) 0 1 peek_data (
          sys_int (Mem (Munmap dat sz)) (\<lambda>status.
          Printf ''munmap()=%d\<newline>'' [FInt status] (
          tp_assert (status \<noteq> - 1) ''munmap error.'' (
          sys_int (Mem (Munmap peek_data sz)) (\<lambda>status.
          Printf ''munmap()=%d\<newline>'' [FInt status] (
          tp_assert (status \<noteq> - 1) ''peek munmap error.'' (
          sys_int (File (Close fd)) (\<lambda>_.
          Return None)))))))))))))))))))))))"

definition mmap_dev_run :: "(string option \<Rightarrow> u64 \<Rightarrow> verdict prog) \<Rightarrow> int \<Rightarrow> mmap_dev_args option \<Rightarrow> verdict prog" where
  "mmap_dev_run devmap tc_num tc_arg =
     (case tc_arg of
        None \<Rightarrow> Return (Some ''internal error'')
      | Some args \<Rightarrow> devmap (da_path args) (da_size args))"

definition mmap_dev_case :: "int \<times> (string option \<Rightarrow> u64 \<Rightarrow> verdict prog) \<Rightarrow> mmap_dev_args option test_case" where
  "mmap_dev_case r =
     \<lparr>test_suite = ''mmap_dev'', num = fst r, tc_setup = mmap_dev_setup,
      tc_run = mmap_dev_run (snd r), tc_teardown = TEARDOWN_EMPTY\<rparr>"

definition mmap_dev_runs :: "(int \<times> (string option \<Rightarrow> u64 \<Rightarrow> verdict prog)) list" where
  "mmap_dev_runs = [(0, devmap_do_devmap_000), (1, devmap_do_devmap_001), (2, devmap_do_devmap_002)]"

definition mmap_dev_000 :: "mmap_dev_args option test_case" where
  "mmap_dev_000 = mmap_dev_case (0, devmap_do_devmap_000)"

definition mmap_dev_001 :: "mmap_dev_args option test_case" where
  "mmap_dev_001 = mmap_dev_case (1, devmap_do_devmap_001)"

definition mmap_dev_002 :: "mmap_dev_args option test_case" where
  "mmap_dev_002 = mmap_dev_case (2, devmap_do_devmap_002)"

definition mmap_dev_cases :: "mmap_dev_args option test_case list" where
  "mmap_dev_cases = [mmap_dev_000, mmap_dev_001, mmap_dev_002]"

subsection \<open>The loops over the pages\<close>

lemma page_start:
  assumes "fits b n" "4096 * i < n"
  shows "unat (b + PAGE_SIZE * of_nat i) = unat b + 4096 * i" "inr b n (b + PAGE_SIZE * of_nat i)"
proof -
  have "PAGE_SIZE * of_nat i = (of_nat (4096 * i) :: u64)" by (simp add: abi_defs)
  then show u: "unat (b + PAGE_SIZE * of_nat i) = unat b + 4096 * i"
    using fits_offset [OF assms(1), of "4096 * i"] assms(2) by simp
  show "inr b n (b + PAGE_SIZE * of_nat i)" using assms(2) unfolding inr_def u by simp
qed

definition pg_addr :: "u64 \<Rightarrow> nat \<Rightarrow> u64" where
  "pg_addr b i = b + PAGE_SIZE * of_nat i"

lemma pg_addr_inr: "fits b n \<Longrightarrow> 4096 * i < n \<Longrightarrow> inr b n (pg_addr b i)"
  and pg_addr_unat: "fits b n \<Longrightarrow> 4096 * i < n \<Longrightarrow> unat (pg_addr b i) = unat b + 4096 * i"
  by (simp_all add: pg_addr_def page_start)

lemma upt_Suc_insert: "{i..<i + Suc l} = insert i {Suc i..<Suc i + l}"
  by auto

text \<open>A private range as it was, but for the first bytes of its first \<^verbatim>\<open>i\<close> pages.\<close>

definition priv_inv :: "mm \<Rightarrow> u64 \<Rightarrow> nat \<Rightarrow> nat \<Rightarrow> mm \<Rightarrow> bool" where
  "priv_inv m0 b n i m \<longleftrightarrow>
     mm_fs m = mm_fs m0 \<and> mm_devs m = mm_devs m0 \<and>
     (\<forall>x. \<not> inr b n x \<longrightarrow> mm_cells m x = mm_cells m0 x) \<and>
     (\<forall>x. inr b n x \<longrightarrow> there_at m x \<and> shared_at m x = None \<and> prot_at m x = prot_at m0 x \<and>
        vis m x = (if \<exists>j<i. x = pg_addr b j then Some 0x5A else vis m0 x))"

lemma priv_inv_store:
  assumes m: "priv_inv m0 b n i m" and b: "page_aligned b" "n mod 4096 = 0" "fits b n" "4096 * i < n"
  shows "priv_inv m0 b n (Suc i) (mm_store (pg_addr b i) 0x5A m)"
proof -
  have a: "inr b n (pg_addr b i)" using b by (simp add: pg_addr_inr)
  then have s: "shared_at m (pg_addr b i) = None" "there_at m (pg_addr b i)" using m by (auto simp: priv_inv_def)
  then obtain c where c: "mm_cells m (pg_addr b i) = Some c" by (auto simp: there_at_def split: option.splits)
  note st = mm_store_private [OF s(1) c]
  have "\<not> same_page x (pg_addr b i)" if "\<not> inr b n x" for x using inr_same_page [OF b(1-3) a] that by blast
  then show ?thesis
    using m st mm_store_fields(1-3) [OF s(1)] unfolding priv_inv_def less_Suc_eq by auto
qed

lemma runs_touch_private:
  assumes K: "conforms_map K view rd ioc" and b: "page_aligned b" "n mod 4096 = 0" "fits b n" "4096 * (i + l) \<le> n"
    and w: "\<And>x. inr b n x \<Longrightarrow> prot_at m0 x = Some (PROT_READ OR PROT_WRITE)" 
    and m: "priv_inv m0 b n i (view (kst p))"
    and ok: "\<And>s'. priv_inv m0 b n (i + l) (view s') \<Longrightarrow> \<forall>j\<in>{i..<i + l}. vis m0 (pg_addr b j) \<noteq> None \<Longrightarrow> runs K k (p\<lparr>kst := s'\<rparr>) Q"
    and bus: "\<And>s'. \<exists>j\<in>{i..<i + l}. vis m0 (pg_addr b j) = None \<Longrightarrow> Q (fault SIGBUS p) (p\<lparr>kst := s'\<rparr>)"
  shows "runs K (touch_pages l i b k) p Q"
  using b(4) m ok bus
proof (induction l arbitrary: i p)
  case 0
  then show ?case using 0(3) [of "kst p"] by simp
next
  case (Suc l)
  have i: "4096 * i < n" using Suc.prems(1) by simp
  have a: "inr b n (pg_addr b i)" using pg_addr_inr b i by simp
  have ne: "\<not> (\<exists>j<i. pg_addr b i = pg_addr b j)"
  proof
    assume "\<exists>j<i. pg_addr b i = pg_addr b j"
    then obtain j where j: "j < i" "pg_addr b i = pg_addr b j" by blast
    then show False using pg_addr_unat [OF b(3) i] pg_addr_unat [OF b(3), of j] i by simp
  qed
  with a Suc.prems(2) have v: "vis (view (kst p)) (pg_addr b i) = vis m0 (pg_addr b i)"
    "there_at (view (kst p)) (pg_addr b i)" "shared_at (view (kst p)) (pg_addr b i) = None"
    "prot_at (view (kst p)) (pg_addr b i) = Some (PROT_READ OR PROT_WRITE)"
    using w by (auto simp: priv_inv_def)
  have rw: "(PROT_READ OR PROT_WRITE) AND PROT_WRITE \<noteq> 0" by (simp add: abi_defs)
  show ?case
  proof (cases "vis m0 (pg_addr b i)")
    case None
    then show ?thesis
      using v(1) Suc.prems(4) [of "kst p"] unfolding upt_Suc_insert touch_pages.simps pg_addr_def [symmetric]
      by (intro runs_store_bus [OF K v(2) _ v(4) rw]) simp_all
  next
    case (Some c)
    show ?thesis unfolding touch_pages.simps pg_addr_def [symmetric]
    proof (rule runs_store_private [OF K v(2) _ v(4) rw v(3)])
      fix s' assume s': "view s' = mm_store (pg_addr b i) 0x5A (view (kst p))"
      show "runs K (touch_pages l (Suc i) b k) (p\<lparr>kst := s'\<rparr>) Q"
      proof (rule Suc.IH)
        show "priv_inv m0 b n (Suc i) (view (kst (p\<lparr>kst := s'\<rparr>)))"
          using priv_inv_store [OF Suc.prems(2) b(1-3) i] s' by simp
      next
        fix s'' assume "priv_inv m0 b n (Suc i + l) (view s'')" "\<forall>j\<in>{Suc i..<Suc i + l}. vis m0 (pg_addr b j) \<noteq> None"
        then show "runs K k (p\<lparr>kst := s', kst := s''\<rparr>) Q"
          using Suc.prems(3) [of s''] Some unfolding upt_Suc_insert by simp
      qed (use Suc.prems(1,4) in \<open>simp_all add: upt_Suc_insert del: add_Suc_right\<close>)
    qed (use v Some in simp)
  qed
qed

text \<open>A device written through a shared mapping of all its pages.\<close>

definition with_dev :: "string \<Rightarrow> dev_contents \<Rightarrow> mm \<Rightarrow> mm" where
  "with_dev path c m = m\<lparr>mm_devs := (mm_devs m)(path \<mapsto> c)\<rparr>"

lemma with_dev_simps [simp]:
  "mm_fs (with_dev path c m) = mm_fs m" "mm_cells (with_dev path c m) = mm_cells m"
  "mm_devs (with_dev path c m) = (mm_devs m)(path \<mapsto> c)" "with_dev path c (with_dev path c' m) = with_dev path c m"
  by (simp_all add: with_dev_def)

definition touched :: "nat \<Rightarrow> dev_contents \<Rightarrow> dev_contents" where
  "touched i d off = (if off mod 4096 = 0 \<and> off div 4096 < i then Some 0x5A else d off)"

lemma touched_0 [simp]: "touched 0 d = d"
  by (simp add: touched_def fun_eq_iff)

lemma touched_Suc: "(touched i d)(4096 * i \<mapsto> 0x5A) = touched (Suc i) d"
  by (auto simp: touched_def fun_eq_iff less_Suc_eq)

lemma runs_touch_shared:
  assumes K: "conforms_map K view rd ioc" and b: "fits b n" "4096 * (i + l) \<le> n"
    and w: "\<And>j. j < i + l \<Longrightarrow> mm_cells m0 (pg_addr b j) = Some \<lparr>mprot = PROT_READ OR PROT_WRITE, msrc = Of True path (4096 * j)\<rparr>"
    and m: "view (kst p) = with_dev path (touched i d) m0"
    and ok: "\<And>s'. view s' = with_dev path (touched (i + l) d) m0 \<Longrightarrow>
      \<forall>j\<in>{i..<i + l}. d (4096 * j) \<noteq> None \<Longrightarrow> runs K k (p\<lparr>kst := s'\<rparr>) Q"
    and bus: "\<And>s'. \<exists>j\<in>{i..<i + l}. d (4096 * j) = None \<Longrightarrow> Q (fault SIGBUS p) (p\<lparr>kst := s'\<rparr>)"
  shows "runs K (touch_pages l i b k) p Q"
  using b(2) w m ok bus
proof (induction l arbitrary: i p)
  case 0
  then show ?case using 0(4) [of "kst p"] by simp
next
  case (Suc l)
  have rw: "(PROT_READ OR PROT_WRITE) AND PROT_WRITE \<noteq> 0" by (simp add: abi_defs)
  have c: "mm_cells (view (kst p)) (pg_addr b i) = Some \<lparr>mprot = PROT_READ OR PROT_WRITE, msrc = Of True path (4096 * i)\<rparr>"
    using Suc.prems(2) [of i] Suc.prems(3) by simp
  then have v: "shared_at (view (kst p)) (pg_addr b i) = Some (path, 4096 * i)"
    "prot_at (view (kst p)) (pg_addr b i) = Some (PROT_READ OR PROT_WRITE)"
    by (simp_all add: shared_at_def prot_at_def)
  have dv: "mm_devs (view (kst p)) path = Some (touched i d)" "touched i d (4096 * i) = d (4096 * i)"
    using Suc.prems(3) by simp (simp add: touched_def)
  show ?case
  proof (cases "d (4096 * i)")
    case None
    then have "vis (view (kst p)) (pg_addr b i) = None" "there_at (view (kst p)) (pg_addr b i)"
      using c dv by (simp_all add: vis_def there_at_def cell_byte_def cell_there_def obj_byte_def obj_there_def)
    then show ?thesis
      using None Suc.prems(5) [of "kst p"] unfolding upt_Suc_insert touch_pages.simps pg_addr_def [symmetric]
      by (intro runs_store_bus [OF K _ _ v(2) rw]) simp_all
  next
    case (Some c)
    show ?thesis unfolding touch_pages.simps pg_addr_def [symmetric]
    proof (rule runs_store_shared_dev [OF K v(1) dv(1) _ v(2) rw])
      fix s' assume s': "view s' = (view (kst p))\<lparr>mm_devs := (mm_devs (view (kst p)))(path \<mapsto> (touched i d)(4096 * i \<mapsto> 0x5A))\<rparr>"
      show "runs K (touch_pages l (Suc i) b k) (p\<lparr>kst := s'\<rparr>) Q"
      proof (rule Suc.IH)
        show "view (kst (p\<lparr>kst := s'\<rparr>)) = with_dev path (touched (Suc i) d) m0"
          using s' unfolding Suc.prems(3) with_dev_def [symmetric] touched_Suc by simp
      next
        fix s'' assume "view s'' = with_dev path (touched (Suc i + l) d) m0"
          "\<forall>j\<in>{Suc i..<Suc i + l}. d (4096 * j) \<noteq> None"
        then show "runs K k (p\<lparr>kst := s', kst := s''\<rparr>) Q"
          using Suc.prems(4) [of s''] Some unfolding upt_Suc_insert by simp
      qed (use Suc.prems(1,2,5) in \<open>simp_all add: upt_Suc_insert del: add_Suc_right\<close>)
    qed (use dv Some in simp)
  qed
qed

definition dev_page :: "nat \<Rightarrow> u8 list" where
  "dev_page j = 0x5A # replicate 4095 (of_nat (Suc j))"

lemma runs_validate:
  assumes K: "conforms_map K view rd ioc"
    and "\<And>j. i \<le> j \<Longrightarrow> j < i + l \<Longrightarrow> shows_at rd (view (kst p)) (pg_addr b j) (dev_page j)"
    and "\<And>s'. view s' = view (kst p) \<Longrightarrow> runs K k (p\<lparr>kst := s'\<rparr>) Q"
  shows "runs K (validate_pages l i (int i + 1) b k) p Q"
  using assms(2,3)
proof (induction l arbitrary: i p)
  case 0
  then show ?case using 0(2) [of "kst p"] by simp
next
  case (Suc l)
  have "unat PAGE_SIZE - 1 = 4095" "word_of_int (int i + 1) = (of_nat (Suc i) :: u8)" "int i + 1 + 1 = int (Suc i) + 1"
    by (simp_all add: abi_defs)
  then have e: "0x5A # replicate (unat PAGE_SIZE - 1) (word_of_int (int i + 1)) = dev_page i" "int i + 1 + 1 = int (Suc i) + 1"
    unfolding dev_page_def by (simp_all only:)
  show ?case unfolding validate_pages.simps pg_addr_def [symmetric] e
  proof (rule runs_memcmp_eq [OF K Suc.prems(1)])
    fix s' assume s': "view s' = view (kst p)"
    have "runs K (validate_pages l (Suc i) (int (Suc i) + 1) b k) (p\<lparr>kst := s'\<rparr>) Q"
      by (rule Suc.IH) (use s' Suc.prems in simp_all)
    then show "runs K (tp_assert ((0::int) = 0) ''compare error.'' (validate_pages l (Suc i) (int (Suc i) + 1) b k)) (p\<lparr>kst := s'\<rparr>) Q"
      by (intro runs_tp_assert) simp_all
  qed simp_all
qed

subsection \<open>The calls around the loops\<close>

lemma devmap_pages_val:
  assumes "unat sz \<le> 2 ^ 43 - 4096"
  shows "devmap_pages sz = (unat sz + 4095) div 4096" "4096 * devmap_pages sz = pg_up (unat sz)"
proof -
  have "unat (sz + PAGE_SIZE - 1) = unat sz + 4095"
    using assms by (simp add: abi_defs unat_word_ariths)
  then have "uint ((sz + PAGE_SIZE - 1) div PAGE_SIZE) = int ((unat sz + 4095) div 4096)"
    by (simp add: uint_nat unat_div abi_defs del: of_nat_div)
  moreover have "(unat sz + 4095) div 4096 < 2 ^ 31" using assms by simp
  ultimately show "devmap_pages sz = (unat sz + 4095) div 4096"
    by (simp add: devmap_pages_def del: of_nat_div)
  then show "4096 * devmap_pages sz = pg_up (unat sz)" by (simp add: pg_up_def)
qed

text \<open>A fresh mapping of the device, and the bytes it shows.\<close>

definition dev_map :: "bool \<Rightarrow> string \<Rightarrow> u64 \<Rightarrow> nat \<Rightarrow> mm \<Rightarrow> mm" where
  "dev_map sh path b n m = map_cells b n (obj_cells RW sh path b 0) m"

lemma dev_map_cell: "inr b n x \<Longrightarrow> mm_cells (dev_map sh path b n m) x = Some \<lparr>mprot = RW, msrc = Of sh path (unat x - unat b)\<rparr>"
  by (simp add: dev_map_def map_cells_def map_range_def obj_cells_def)

lemma dev_map_fields [simp]: "mm_fs (dev_map sh path b n m) = mm_fs m" "mm_devs (dev_map sh path b n m) = mm_devs m"
  by (simp_all add: dev_map_def map_cells_def)

lemma dev_map_vis:
  assumes "mm_devs m path = Some c" "inr b n x"
  shows "vis (dev_map sh path b n m) x = c (unat x - unat b)" "there_at (dev_map sh path b n m) x"
    "prot_at (dev_map sh path b n m) x = Some RW" "shared_at (dev_map False path b n m) x = None"
  using assms by (simp_all add: vis_def there_at_def prot_at_def shared_at_def dev_map_cell cell_byte_def obj_byte_def cell_there_def obj_there_def)

lemma dev_map_priv_inv:
  assumes "mm_devs m path = Some c"
  shows "priv_inv (dev_map False path b n m) b n 0 (dev_map False path b n m)"
  using dev_map_vis [OF assms] by (simp add: priv_inv_def)

lemma unmap_dev_map:
  assumes "unmapped (mm_cells m) b n" "mm_fs m' = mm_fs m" "mm_devs m' = mm_devs m" "\<And>x. \<not> inr b n x \<Longrightarrow> mm_cells m' x = mm_cells m x"
  shows "map_cells b n (\<lambda>_. None) m' = m"
  using assms by (intro mm.equality) (auto simp: map_cells_def map_range_def unmapped_def fun_eq_iff)

text \<open>From the start of a case to the mapping.\<close>

lemma runs_devmap_start:
  assumes K: "conforms_map K view rd ioc" and d: "mm_devs (view (kst p)) path = Some d" and sz: "0 < sz"
    and fl: "\<not> mmap_fixed fl" "\<not> mmap_anonymous fl"
    and e: "\<And>p'. Q (Returned (Some ''file open error.'')) p'" "\<And>p'. Q (Returned (Some ''mmap error.'')) p'"
    and k: "\<And>p' fd b. disp p' = disp p \<Longrightarrow> fds (mm_fs (view (kst p))) fd = None \<Longrightarrow> room (view (kst p)) b (pg_up (unat sz)) \<Longrightarrow>
      view (kst p') = dev_map (mmap_shared fl) path b (pg_up (unat sz)) (with_dev path (ioc path cmd d) (opened fd path O_RDWR (view (kst p)))) \<Longrightarrow>
      runs K (k fd b) p' Q"
  shows "runs K (tp_assert (0 < sz) msg (
          sys_int (File (Open path O_RDWR)) (\<lambda>fd.
          Printf f1 [FStr path, FInt fd] (
          tp_assert (fd \<noteq> - 1) ''file open error.'' (
          sys_int (File (Ioctl fd cmd)) (\<lambda>status.
          Printf f2 [FInt status] (
          tp_assert (status \<noteq> - 1) ''ioctl error.'' (
          sys_ptr (Mem (Mmap 0 sz RW fl fd 0)) (\<lambda>dat.
          Printf f3 [FPtr dat] (
          tp_assert (dat \<noteq> MAP_FAILED) ''mmap error.'' (k fd dat))))))))))) p Q"
proof (rule runs_tp_assert)
  have op: "fds (mm_fs (opened fd path O_RDWR m)) fd = Some (path, 0, O_RDWR AND 3)" "mm_devs (opened fd path O_RDWR m) = mm_devs m"
    "mm_cells (opened fd path O_RDWR m) = mm_cells m" for fd m
    by (simp_all add: opened_def)
  have room: "room m' b n \<longleftrightarrow> room m b n" if "mm_cells m' = mm_cells m" for m m' :: mm and b n
    using that by (simp add: room_def)
  show "runs K (sys_int (File (Open path O_RDWR)) (\<lambda>fd.
          Printf f1 [FStr path, FInt fd] (
          tp_assert (fd \<noteq> - 1) ''file open error.'' (
          sys_int (File (Ioctl fd cmd)) (\<lambda>status.
          Printf f2 [FInt status] (
          tp_assert (status \<noteq> - 1) ''ioctl error.'' (
          sys_ptr (Mem (Mmap 0 sz RW fl fd 0)) (\<lambda>dat.
          Printf f3 [FPtr dat] (
          tp_assert (dat \<noteq> MAP_FAILED) ''mmap error.'' (k fd dat)))))))))) p Q"
  proof (rule runs_open [OF K], goal_cases)
    case (1 er s')
    show ?case by (intro runs_Fprintf runs_tp_assert) (simp_all only: e simp_thms)
  next
    case (2 fd s')
    show ?case
    proof (intro runs_Fprintf runs_tp_assert, goal_cases)
      case 1
      show ?case
      proof (rule runs_ioctl [OF K, where path = path and d = d and off = 0 and md = "O_RDWR AND 3"], goal_cases)
        case (3 s'')
        then have s'': "view s'' = with_dev path (ioc path cmd d) (opened fd path O_RDWR (view (kst p)))"
          using 2 by (simp add: with_dev_def op)
        show ?case
        proof (intro runs_Fprintf runs_tp_assert, goal_cases)
          case 1
          show ?case
          proof (rule runs_mmap_obj [OF K fl sz, where path = path and pos = 0 and md = "O_RDWR AND 3"], goal_cases)
            case (3 er s3)
            show ?case by (intro runs_Fprintf runs_tp_assert) (simp_all only: e simp_thms)
          next
            case (4 b s3)
            show ?case
            proof (intro runs_Fprintf runs_tp_assert k, goal_cases)
              case 3
              from 4(2) show ?case by (simp add: room_def s'' op)
            next
              case 4
              show ?case using \<open>view s3 = _\<close> s'' by (simp add: dev_map_def)
            next
              case 5
              with \<open>room _ b _\<close> show ?case using page_aligned_not_failed by (auto simp: room_def)
            qed (use 2 in simp_all)
          qed (use s'' in \<open>simp_all add: op page_aligned_def\<close>)
        qed simp
      qed (use 2 op d in simp_all)
    qed (use 2 in simp)
  qed
qed (use sz in simp)

text \<open>The end of a case.\<close>

lemma close_opened:
  assumes "fds (mm_fs m) fd = None" "mm_devs m path \<noteq> None"
  shows "(with_dev path c (opened fd path fl m))\<lparr>mm_fs := (mm_fs (with_dev path c (opened fd path fl m)))
     \<lparr>fds := (fds (mm_fs (with_dev path c (opened fd path fl m))))(fd := None)\<rparr>\<rparr> = with_dev path c m"
  using assms by (simp add: with_dev_def opened_def obj_there_def fun_upd_idem)

lemma runs_devmap_close:
  assumes K: "conforms_map K view rd ioc" and m: "fds (mm_fs m) fd = None" "mm_devs m path \<noteq> None"
    and v: "view (kst p) = with_dev path c (opened fd path fl m)"
    and ok: "\<And>p'. view (kst p') = with_dev path c m \<Longrightarrow> Q (Returned None) p'"
  shows "runs K (sys_int (File (Close fd)) (\<lambda>_. Return None)) p Q"
proof (rule runs_close [OF K], goal_cases)
  case 1
  show ?case by (simp add: v opened_def)
next
  case (2 s')
  then have "view s' = with_dev path c m" unfolding v close_opened [OF m] .
  then show ?case by (intro runs_Return ok) simp
qed

lemma runs_unmap:
  assumes K: "conforms_map K view rd ioc" and b: "page_aligned b" "0 < sz" "fits b (pg_up (unat sz))"
    and e: "\<And>p'. Q (Returned (Some msg)) p'"
    and ok: "\<And>p'. view (kst p') = map_cells b (pg_up (unat sz)) (\<lambda>_. None) (view (kst p)) \<Longrightarrow> runs K k p' Q"
  shows "runs K (sys_int (Mem (Munmap b sz)) (\<lambda>status. Printf f [FInt status] (tp_assert (status \<noteq> - 1) msg k))) p Q"
  by (rule runs_munmap [OF K b]; intro runs_Fprintf runs_tp_assert) (simp_all add: e ok)

subsection \<open>What the cases answer\<close>

text \<open>The outcomes of a case that finds the contents \<^verbatim>\<open>c\<close> in the device and leaves \<^verbatim>\<open>c'\<close>.\<close>

definition devmap_outcome :: "mm \<Rightarrow> string \<Rightarrow> u64 \<Rightarrow> dev_contents \<Rightarrow> dev_contents \<Rightarrow> verdict outcome \<Rightarrow> mm \<Rightarrow> bool" where
  "devmap_outcome m path sz c c' r m' \<longleftrightarrow>
     (case r of
        Returned None \<Rightarrow> (\<forall>i<(unat sz + 4095) div 4096. c (4096 * i) \<noteq> None) \<and> m' = with_dev path c' m
      | Returned (Some msg) \<Rightarrow> msg \<in> {''file open error.'', ''mmap error.'', ''munmap error.'', ''peek mmap error.'', ''peek munmap error.''}
      | Killed sg \<Rightarrow> sg = SIGBUS \<and> (\<exists>i<(unat sz + 4095) div 4096. c (4096 * i) = None)
      | _ \<Rightarrow> False)"

definition dev2_pattern :: dev_contents where
  "dev2_pattern n = (if n < 3 * 4096 then Some (of_nat (n div 4096 + 1)) else None)"

lemma pg_addr_off:
  assumes "fits b n" "n mod 4096 = 0" "4096 * j < n" "k < 4096"
  shows "unat (pg_addr b j + of_nat k) = unat b + (4096 * j + k)" "inr b n (pg_addr b j + of_nat k)"
proof -
  obtain l where "n = 4096 * l" using assms(2) by auto
  then have l: "4096 * j + k < n" using assms(3,4) by simp
  have "pg_addr b j + of_nat k = b + of_nat (4096 * j + k)" by (simp add: pg_addr_def abi_defs)
  then show u: "unat (pg_addr b j + of_nat k) = unat b + (4096 * j + k)"
    using fits_offset [OF assms(1), of "4096 * j + k"] l by (simp only: less_imp_le)
  show "inr b n (pg_addr b j + of_nat k)" using l by (simp add: inr_def u)
qed

lemma dev_map_page:
  assumes "mm_devs m path = Some c" "fits b n" "n mod 4096 = 0" "4096 * j < n"
  shows "k < 4096 \<Longrightarrow> vis (dev_map sh path b n m) (pg_addr b j + of_nat k) = c (4096 * j + k)"
    "vis (dev_map sh path b n m) (pg_addr b j) = c (4096 * j)"
  using dev_map_vis(1) [OF assms(1) pg_addr_off(2) [OF assms(2-4)]] pg_addr_off(1) [OF assms(2-4)]
    dev_map_vis(1) [OF assms(1) pg_addr_inr [OF assms(2,4)]] pg_addr_unat [OF assms(2,4)]
  by simp_all

lemma runs_devmap_private:
  assumes K: "conforms_map K view rd ioc" and d: "mm_devs m path = Some c"
    and b: "room m b (pg_up (unat sz))" and sz: "unat sz \<le> 2 ^ 43 - 4096"
    and p: "view (kst p) = dev_map False path b (pg_up (unat sz)) m" "disp p SIGBUS = SIG_DFL"
    and bus: "\<And>i p'. i < (unat sz + 4095) div 4096 \<Longrightarrow> c (4096 * i) = None \<Longrightarrow> Q (Killed SIGBUS) p'"
    and k: "\<And>p'. \<forall>i<(unat sz + 4095) div 4096. c (4096 * i) \<noteq> None \<Longrightarrow>
      priv_inv (dev_map False path b (pg_up (unat sz)) m) b (pg_up (unat sz)) ((unat sz + 4095) div 4096) (view (kst p')) \<Longrightarrow>
      runs K k p' Q"
  shows "runs K (touch_pages (devmap_pages sz) 0 b k) p Q"
  unfolding devmap_pages_val(1) [OF sz]
proof (rule runs_touch_private [OF K roomD(1) [OF b] pg_up_dvd roomD(4) [OF b],
    where ?m0.0 = "dev_map False path b (pg_up (unat sz)) m"], goal_cases)
  case 1
  then show ?case by (simp add: pg_up_def)
next
  case (2 x)
  then show ?case using dev_map_vis [OF d] by simp
next
  case 3
  show ?case unfolding p by (rule dev_map_priv_inv [OF d])
next
  case (4 s')
  have "c (4096 * j) \<noteq> None" if "j < (unat sz + 4095) div 4096" for j
  proof -
    have "vis (dev_map False path b (pg_up (unat sz)) m) (pg_addr b j) \<noteq> None" using 4(2) that by simp
    then show ?thesis
      using that dev_map_page(2) [OF d roomD(4) [OF b] pg_up_dvd, of j False] by (simp add: pg_up_def)
  qed
  then show ?case using 4(1) by (intro k) simp_all
next
  case (5 s')
  then obtain j where j: "j < (unat sz + 4095) div 4096" "vis (dev_map False path b (pg_up (unat sz)) m) (pg_addr b j) = None" by auto
  then have "c (4096 * j) = None"
    using dev_map_page(2) [OF d roomD(4) [OF b] pg_up_dvd, of j False] by (simp add: pg_up_def)
  from bus [OF j(1) this] show ?case by (simp add: fault_def p(2))
qed

lemma runs_devmap_shared:
  assumes K: "conforms_map K view rd ioc" and d: "mm_devs m path = Some c"
    and b: "room m b (pg_up (unat sz))" and sz: "unat sz \<le> 2 ^ 43 - 4096"
    and p: "view (kst p) = dev_map True path b (pg_up (unat sz)) m" "disp p SIGBUS = SIG_DFL"
    and bus: "\<And>i p'. i < (unat sz + 4095) div 4096 \<Longrightarrow> c (4096 * i) = None \<Longrightarrow> Q (Killed SIGBUS) p'"
    and k: "\<And>p'. \<forall>i<(unat sz + 4095) div 4096. c (4096 * i) \<noteq> None \<Longrightarrow>
      view (kst p') = with_dev path (touched ((unat sz + 4095) div 4096) c) (dev_map True path b (pg_up (unat sz)) m) \<Longrightarrow>
      runs K k p' Q"
  shows "runs K (touch_pages (devmap_pages sz) 0 b k) p Q"
  unfolding devmap_pages_val(1) [OF sz]
proof (rule runs_touch_shared [OF K roomD(4) [OF b], where ?m0.0 = "dev_map True path b (pg_up (unat sz)) m" and path = path and d = c], goal_cases)
  case 1
  then show ?case by (simp add: pg_up_def)
next
  case (2 j)
  then have j: "4096 * j < pg_up (unat sz)" by (simp add: pg_up_def)
  show ?case using dev_map_cell [OF pg_addr_inr [OF roomD(4) [OF b] j]] pg_addr_unat [OF roomD(4) [OF b] j] by simp
next
  case 3
  show ?case unfolding p(1) by (rule mm.equality) (simp_all add: d fun_upd_idem)
next
  case (4 s')
  then show ?case by (intro k) simp_all
next
  case (5 s')
  then obtain j where "j < (unat sz + 4095) div 4096" "c (4096 * j) = None" by auto
  from bus [OF this] show ?case by (simp add: fault_def p(2))
qed

text \<open>After the writes, the pages show what the cases look for.\<close>

lemma touched_pattern_page:
  assumes "k < 4096" "j < l" "j < 3"
  shows "touched l dev2_pattern (4096 * j + k) = Some (dev_page j ! k)"
proof (cases k)
  case 0
  then show ?thesis using assms by (simp add: touched_def dev_page_def)
next
  case (Suc n)
  then have "(4096 * j + k) mod 4096 = k" "(4096 * j + k) div 4096 = j" using assms(1) by simp_all
  with Suc assms show ?thesis by (simp add: touched_def dev2_pattern_def dev_page_def)
qed

lemma shows_page:
  assumes "fits b n" "n mod 4096 = 0" "4096 * j < n" "j < 3" "j < l" "rd RW"
    and "\<And>x. inr b n x \<Longrightarrow> there_at m x \<and> prot_at m x = Some RW \<and> vis m x = touched l dev2_pattern (unat x - unat b)"
  shows "shows_at rd m (pg_addr b j) (dev_page j)"
proof -
  have "length (dev_page j) = 4096" by (simp add: dev_page_def)
  then show ?thesis
    using assms(7) [OF pg_addr_off(2) [OF assms(1-3)]] touched_pattern_page [OF _ assms(5,4)] assms(6)
    by (simp add: shows_at_def pg_addr_off(1) [OF assms(1-3)])
qed

lemma priv_inv_touched:
  assumes i: "priv_inv (dev_map False path b n m) b n l m'" and m: "mm_devs m path = Some c" and b: "fits b n" "4096 * l \<le> n" 
    and x: "inr b n x"
  shows "there_at m' x" "prot_at m' x = Some RW" "vis m' x = touched l c (unat x - unat b)"
proof -
  have "(\<exists>j<l. x = pg_addr b j) \<longleftrightarrow> (unat x - unat b) mod 4096 = 0 \<and> (unat x - unat b) div 4096 < l"
  proof
    assume "\<exists>j<l. x = pg_addr b j"
    then obtain j where "j < l" "x = pg_addr b j" by blast
    then show "(unat x - unat b) mod 4096 = 0 \<and> (unat x - unat b) div 4096 < l"
      using pg_addr_unat [OF b(1), of j] b(2) by simp
  next
    let ?j = "(unat x - unat b) div 4096"
    assume h: "(unat x - unat b) mod 4096 = 0 \<and> ?j < l"
    then have "4096 * ?j = unat x - unat b" by (simp only: mod_0_imp_dvd dvd_mult_div_cancel)
    then have "unat (pg_addr b ?j) = unat x"
      using pg_addr_unat [OF b(1), of ?j] b(2) h x by (simp add: inr_def)
    with h show "\<exists>j<l. x = pg_addr b j" by (metis word_unat_eq_iff)
  qed
  moreover have "there_at m' x \<and> prot_at m' x = prot_at (dev_map False path b n m) x \<and>
      vis m' x = (if \<exists>j<l. x = pg_addr b j then Some 0x5A else vis (dev_map False path b n m) x)"
    using i x unfolding priv_inv_def by blast
  ultimately show "there_at m' x" "prot_at m' x = Some RW" "vis m' x = touched l c (unat x - unat b)"
    using dev_map_vis(1,3) [OF m x, of False] by (simp_all only: touched_def)
qed

lemma unmap_priv:
  assumes "priv_inv (dev_map False path b n m) b n l m'" "unmapped (mm_cells m) b n"
  shows "map_cells b n (\<lambda>_. None) m' = m"
  by (rule unmap_dev_map [OF assms(2)])
    (use assms(1) in \<open>auto simp: priv_inv_def dev_map_def map_cells_def map_range_def\<close>)

lemma pages_le: "4096 * ((unat sz + 4095) div 4096) \<le> pg_up (unat sz)" "j < (unat sz + 4095) div 4096 \<Longrightarrow> 4096 * j < pg_up (unat sz)"
  by (simp_all add: pg_up_def)

lemma devmap_000:
  assumes K: "conforms_map K view rd ioc" and d: "mm_devs (view (kst p)) path = Some d"
    and sz: "0 < sz" "unat sz \<le> 2 ^ 43 - 4096" and p: "disp p SIGBUS = SIG_DFL"
  shows "runs K (devmap_do_devmap_000 (Some path) sz) p
    (\<lambda>r p'. devmap_outcome (view (kst p)) path sz (ioc path 0 d) (ioc path 0 d) r (view (kst p')))"
  unfolding devmap_do_devmap_000_def option.case
proof (rule runs_devmap_start [OF K d sz(1) mmap_flags(1,2)], goal_cases)
  case (3 p1 fd b)
  let ?m = "with_dev path (ioc path 0 d) (opened fd path O_RDWR (view (kst p)))"
  have b: "room ?m b (pg_up (unat sz))" using 3(3) room_cells [of ?m "view (kst p)"] by simp
  have dv: "mm_devs ?m path = Some (ioc path 0 d)" by simp
  show ?case
  proof (rule runs_devmap_private [OF K dv b sz(2)], goal_cases)
    case (3 p2)
    then show ?case unfolding devmap_outcome_def by auto
  next
    case (4 p2)
    note inv = 4(2)
    show ?case
    proof (rule runs_unmap [OF K roomD(1) [OF b] sz(1) roomD(4) [OF b]], goal_cases)
      case (2 p3)
      then have v: "view (kst p3) = ?m" using unmap_priv [OF inv roomD(5) [OF b]] by simp
      show ?case by (rule runs_devmap_close [OF K \<open>fds _ fd = None\<close> _ v]) (simp_all add: d 4(1) devmap_outcome_def)
    qed (simp add: devmap_outcome_def)
  qed (use 3 p in \<open>simp_all add: mmap_flags\<close>)
qed (simp_all add: devmap_outcome_def)

lemma devmap_001:
  assumes K: "conforms_map K view rd ioc" and d: "mm_devs (view (kst p)) path = Some d"
    and ioc: "ioc path TEST_MCK_MMAP_DEV2_BUF_RESET d = dev2_pattern"
    and sz: "0 < sz" "unat sz \<le> 2 ^ 43 - 4096" and p: "disp p SIGBUS = SIG_DFL"
  shows "runs K (devmap_do_devmap_001 (Some path) sz) p
    (\<lambda>r p'. devmap_outcome (view (kst p)) path sz dev2_pattern dev2_pattern r (view (kst p')))"
  unfolding devmap_do_devmap_001_def option.case
proof (rule runs_devmap_start [OF K d sz(1) mmap_flags(1,2)], goal_cases)
  case (3 p1 fd b)
  let ?m = "with_dev path dev2_pattern (opened fd path O_RDWR (view (kst p)))"
  let ?n = "pg_up (unat sz)" and ?l = "(unat sz + 4095) div 4096"
  have b: "room ?m b ?n" using 3(3) room_cells [of ?m "view (kst p)"] by simp
  have dv: "mm_devs ?m path = Some dev2_pattern" by simp
  show ?case
  proof (rule runs_devmap_private [OF K dv b sz(2)], goal_cases)
    case (3 p2)
    then show ?case unfolding devmap_outcome_def by auto
  next
    case (4 p2)
    note inv = 4(2)
    have three: "j < 3" if "j < ?l" for j using 4(1) that by (auto simp: dev2_pattern_def split: if_splits)
    show ?case unfolding devmap_pages_val(1) [OF sz(2)]
    proof (rule runs_validate [OF K, of 0, simplified], goal_cases)
      case (1 j)
      show ?case
        by (rule shows_page [where rd = rd, OF roomD(4) [OF b] pg_up_dvd [of "unat sz"] pages_le(2) [OF 1] three [OF 1] 1 rd_RW [OF K]])
          (use priv_inv_touched [OF inv dv roomD(4) [OF b] pages_le(1)] in simp)
    next
      case (2 s')
      show ?case
      proof (rule runs_unmap [OF K roomD(1) [OF b] sz(1) roomD(4) [OF b]], goal_cases)
        case (2 p3)
        then have v: "view (kst p3) = ?m" using \<open>view s' = _\<close> unmap_priv [OF inv roomD(5) [OF b]] by simp
        show ?case by (rule runs_devmap_close [OF K \<open>fds _ fd = None\<close> _ v]) (simp_all add: d 4(1) devmap_outcome_def)
      qed (simp add: devmap_outcome_def)
    qed
  qed (use 3 p ioc in \<open>simp_all add: mmap_flags\<close>)
qed (simp_all add: devmap_outcome_def)

text \<open>Two mappings of the device, removed in the order they were made.\<close>

lemma unmap_first:
  assumes "unmapped (mm_cells (dev_map s path b n m)) b' n" "unmapped (mm_cells m) b n"
  shows "map_cells b n (\<lambda>_. None) (dev_map s' path b' n (dev_map s path b n m)) = dev_map s' path b' n m"
  using assms by (auto simp: unmapped_def dev_map_def map_cells_def map_range_def obj_cells_def fun_eq_iff split: if_splits)

lemma unmap_second:
  assumes "unmapped (mm_cells (dev_map s path b n m)) b' n"
  shows "map_cells b' n (\<lambda>_. None) (dev_map s' path b' n m) = m"
  using assms by (intro mm.equality)
    (auto simp: unmapped_def dev_map_def map_cells_def map_range_def obj_cells_def fun_eq_iff split: if_splits)

lemma devmap_002:
  assumes K: "conforms_map K view rd ioc" and d: "mm_devs (view (kst p)) path = Some d"
    and ioc: "ioc path TEST_MCK_MMAP_DEV2_BUF_RESET d = dev2_pattern"
    and sz: "0 < sz" "unat sz \<le> 2 ^ 43 - 4096" and p: "disp p SIGBUS = SIG_DFL"
  shows "runs K (devmap_do_devmap_002 (Some path) sz) p
    (\<lambda>r p'. devmap_outcome (view (kst p)) path sz dev2_pattern (touched ((unat sz + 4095) div 4096) dev2_pattern) r (view (kst p')))"
  unfolding devmap_do_devmap_002_def option.case
proof (rule runs_devmap_start [OF K d sz(1) mmap_flags(4,5)], goal_cases)
  case (3 p1 fd b)
  note fd = 3(2)
  let ?n = "pg_up (unat sz)" and ?l = "(unat sz + 4095) div 4096"
  let ?o = "opened fd path O_RDWR (view (kst p))"
  let ?m = "with_dev path dev2_pattern ?o" and ?m2 = "with_dev path (touched ?l dev2_pattern) ?o"
  have b: "room ?m b ?n" using 3(3) room_cells [of ?m "view (kst p)"] by simp
  have dv: "mm_devs ?m path = Some dev2_pattern" "mm_devs (dev_map True path b ?n ?m2) path = Some (touched ?l dev2_pattern)" by simp_all
  show ?case
  proof (rule runs_devmap_shared [OF K dv(1) b sz(2)], goal_cases)
    case (3 p2)
    then show ?case unfolding devmap_outcome_def by auto
  next
    case (4 p2)
    then have v2: "view (kst p2) = dev_map True path b ?n ?m2" by (simp add: dev_map_def map_cells_def with_dev_def)
    have three: "j < 3" if "j < ?l" for j using 4(1) that by (auto simp: dev2_pattern_def split: if_splits)
    show ?case
    proof (rule runs_mmap_obj [OF K mmap_flags(4,5) sz(1), where path = path and pos = 0 and md = "O_RDWR AND 3"], goal_cases)
      case (3 er s')
      show ?case by (intro runs_Fprintf runs_tp_assert) (simp_all add: devmap_outcome_def)
    next
      case (4 b' s')
      then have b': "room (dev_map True path b ?n ?m2) b' ?n" and s': "view s' = dev_map True path b' ?n (dev_map True path b ?n ?m2)"
        by (simp_all add: v2 mmap_flags dev_map_def)
      show ?case unfolding devmap_pages_val(1) [OF sz(2)]
      proof (intro runs_Fprintf runs_tp_assert runs_validate [OF K, of 0, simplified], goal_cases)
        case (1 j)
        show ?case
          by (rule shows_page [where rd = rd, OF roomD(4) [OF b'] pg_up_dvd [of "unat sz"] pages_le(2) [OF 1(2)] three [OF 1(2)] 1(2) rd_RW [OF K]])
            (use s' dev_map_vis(1-3) [OF dv(2), of b' ?n _ True] in simp)
      next
        case (2 s'')
        then have s'': "view s'' = dev_map True path b' ?n (dev_map True path b ?n ?m2)" using s' by simp
        have u: "map_cells b ?n (\<lambda>_. None) (view s'') = dev_map True path b' ?n ?m2"
          "map_cells b' ?n (\<lambda>_. None) (dev_map True path b' ?n ?m2) = ?m2"
          using unmap_first [OF roomD(5) [OF b'], of True] roomD(5) [OF b] unmap_second [OF roomD(5) [OF b'], of True] s'' by simp_all
        show ?case
        proof (intro runs_unmap [OF K roomD(1) [OF b] sz(1) roomD(4) [OF b]] runs_unmap [OF K roomD(1) [OF b'] sz(1) roomD(4) [OF b']], goal_cases)
          case (2 p3 p4)
          then show ?case by (simp add: devmap_outcome_def)
        next
          case (3 p3 p4)
          then have v: "view (kst p4) = ?m2" using u by simp
          show ?case by (rule runs_devmap_close [OF K fd _ v]) (use three in \<open>simp_all add: d devmap_outcome_def dev2_pattern_def\<close>)
        qed (simp add: devmap_outcome_def)
      next
        case 3
        then show ?case using roomD(3) [OF b'] by simp
      qed
    qed (simp_all add: v2 page_aligned_def opened_def)
  qed (use 3 p ioc in \<open>simp_all add: mmap_flags\<close>)
qed (simp_all add: devmap_outcome_def)

subsection \<open>The device the module serves\<close>

text \<open>
  The contents a mapping of \<^verbatim>\<open>mmap_dev2\<close> shows, by offset, as the fault handler serves them; and what
  the commands of \<^verbatim>\<open>ioctl\<close> do to contents.
\<close>

definition dev2_contents :: "drv \<Rightarrow> dev_contents" where
  "dev2_contents d n = (if n < 2 ^ 64 then dev2.contents d n else None)"

definition dev2_ioctl :: "int \<Rightarrow> dev_contents \<Rightarrow> dev_contents" where
  "dev2_ioctl cmd c = (if cmd = TEST_MCK_MMAP_DEV2_BUF_RESET then dev2_pattern else c)"

lemma dev2_contents_kmem:
  assumes "private_data (devlist d ! 1) \<noteq> 0"
  shows "dev2_contents d n = (if n < 12288 then Some (kmem d (private_data (devlist d ! 1) + of_nat n)) else None)"
proof (cases "n < 2 ^ 64")
  case True
  have "n div 4096 < 2 ^ 52" using True by (simp add: less_mult_imp_div_less)
  then have u: "unat (of_nat (n div 4096) :: u64) mod 2 ^ 52 = n div 4096"
    by (simp add: unsigned_of_nat take_bit_nat_eq_self)
  have e: "of_nat (4096 * (n div 4096)) + of_nat (n mod 4096) = (of_nat n :: u64)"
    unfolding of_nat_add [symmetric] by simp
  have "(n div 4096 < 3) = (n < 12288)" by auto
  with u e assms show ?thesis
    by (simp add: dev2_contents_def dev2.contents_def fault_page_iff add.assoc del: of_nat_mult One_nat_def)
next
  case False
  then show ?thesis by (simp add: dev2_contents_def)
qed

lemma dev2_contents_write:
  assumes "private_data (devlist d ! 1) \<noteq> 0" "n < 12288"
  shows "dev2_contents (d\<lparr>kmem := (kmem d)(private_data (devlist d ! 1) + of_nat n := v)\<rparr>) = (dev2_contents d)(n \<mapsto> v)"
proof
  fix k
  have small: "unat (of_nat j :: u64) = j" if "j < 12288" for j
    using that by (simp add: unsigned_of_nat take_bit_nat_eq_self)
  have "(of_nat k = (of_nat n :: u64)) = (k = n)" if "k < 12288"
    using small [OF that] small [OF assms(2)] by (metis (mono_tags))
  then show "dev2_contents (d\<lparr>kmem := (kmem d)(private_data (devlist d ! 1) + of_nat n := v)\<rparr>) k = ((dev2_contents d)(n \<mapsto> v)) k"
    using assms by (simp add: dev2_contents_kmem del: One_nat_def)
qed

lemma dev2_contents_reset:
  assumes "private_data (devlist d ! 1) \<noteq> 0"
  shows "dev2_contents (d\<lparr>kmem := test_mck_mmap_dev2_buffer_reset (devlist d ! 1) (kmem d)\<rparr>) = dev2_pattern"
  using dev2.contents_reset [of d] assms by (auto simp: dev2_contents_def dev2_pattern_def fun_eq_iff)

text \<open>
  C8. The module implements the device the memory model maps: an \<^verbatim>\<open>ioctl\<close> on \<^verbatim>\<open>mmap_dev2\<close> changes the
  contents by offset as the abstract command does (only the reset changes them, to the pattern), and
  for every offset that has contents the fault handler serves a page such that writing the byte at
  the offset in that page writes exactly that byte of the contents.
\<close>

theorem mmap_dev2_refines:
  assumes "private_data (devlist d ! 1) \<noteq> 0"
  shows "(\<exists>d' p'. exec K (test_mck_mmap_dev2_ioctl 1 cmd arg d) p = (Returned (0, d'), p') \<and>
            dev2_contents d' = dev2_ioctl cmd (dev2_contents d)) \<and>
         (dev2_contents d n \<noteq> None \<longrightarrow>
           (\<exists>pg p'. exec K (test_mck_mmap_dev2_vma_fault d (devlist d ! 1) (of_nat (n div 4096))) p = (Returned (0, Some pg), p') \<and>
              dev2_contents (d\<lparr>kmem := (kmem d)(pg + of_nat (n mod 4096) := v)\<rparr>) = (dev2_contents d)(n \<mapsto> v)))"
proof
  show "\<exists>d' p'. exec K (test_mck_mmap_dev2_ioctl 1 cmd arg d) p = (Returned (0, d'), p') \<and>
            dev2_contents d' = dev2_ioctl cmd (dev2_contents d)"
    using dev2_contents_reset [OF assms] by (simp add: test_mck_mmap_dev2_ioctl_def exec_simps dev2_ioctl_def)
  show "dev2_contents d n \<noteq> None \<longrightarrow>
           (\<exists>pg p'. exec K (test_mck_mmap_dev2_vma_fault d (devlist d ! 1) (of_nat (n div 4096))) p = (Returned (0, Some pg), p') \<and>
              dev2_contents (d\<lparr>kmem := (kmem d)(pg + of_nat (n mod 4096) := v)\<rparr>) = (dev2_contents d)(n \<mapsto> v))"
  proof
    assume "dev2_contents d n \<noteq> None"
    then have n: "n < 12288" using dev2_contents_kmem [OF assms] by (simp split: if_splits)
    let ?b = "private_data (devlist d ! 1)" and ?pg = "private_data (devlist d ! 1) + of_nat (4096 * (n div 4096))"
    have "unat (of_nat (n div 4096) :: u64) = n div 4096" using n by (simp add: unsigned_of_nat take_bit_nat_eq_self)
    then have "fault_page ?b (of_nat (n div 4096)) = Some ?pg" using n assms unfolding fault_page_iff by auto
    then obtain p' where p': "exec K (test_mck_mmap_dev2_vma_fault d (devlist d ! 1) (of_nat (n div 4096))) p = (Returned (0, Some ?pg), p')"
      using exec_fault [of K d "devlist d ! 1" "of_nat (n div 4096)" p] assms by auto
    have "?pg + of_nat (n mod 4096) = ?b + of_nat n"
      unfolding add.assoc of_nat_add [symmetric] by simp
    with p' dev2_contents_write [OF assms n, of v]
    show "\<exists>pg p'. exec K (test_mck_mmap_dev2_vma_fault d (devlist d ! 1) (of_nat (n div 4096))) p = (Returned (0, Some pg), p') \<and>
              dev2_contents (d\<lparr>kmem := (kmem d)(pg + of_nat (n mod 4096) := v)\<rparr>) = (dev2_contents d)(n \<mapsto> v)"
      by (intro exI [of _ ?pg] exI [of _ p']) (simp only: simp_thms)
  qed
qed

theorem mmap_dev2_refines_witness:
  "let d = upd_dev 1 (private_data_update (\<lambda>_. 0x100000)) (drv_loaded None (\<lambda>_. 7)) in
   \<exists>pg p'. exec ref_kernel (test_mck_mmap_dev2_vma_fault d (devlist d ! 1) 1) init_process = (Returned (0, Some pg), p') \<and>
      dev2_contents (d\<lparr>kmem := (kmem d)(pg + 904 := 9)\<rparr>) 5000 = Some 9"
proof -
  define d where "d = upd_dev 1 (private_data_update (\<lambda>_. 0x100000)) (drv_loaded None (\<lambda>_. 7))"
  have d: "private_data (devlist d ! 1) \<noteq> 0" by (simp add: d_def upd_dev_def drv_loaded_def)
  moreover have "dev2_contents d 5000 \<noteq> None" using dev2_contents_kmem [OF d] by simp
  ultimately show ?thesis
    using mmap_dev2_refines [of d ref_kernel 0 0 init_process 5000 9]
    unfolding d_def [symmetric] Let_def by (auto simp del: One_nat_def)
qed



end
