(* ===== verification/Mem_Suites.thy ===== *)
theory Mem_Suites
  imports Mmap_Dev
begin

text \<open>
  The suites \<^verbatim>\<open>mprotect\<close> and \<^verbatim>\<open>remap_file_pages\<close>, on the memory model of \<^verbatim>\<open>Map_Spec\<close>.
\<close>

subsection \<open>mprotect\<close>

text \<open>The eight cases differ in the protection before and after. The result of \<^verbatim>\<open>munmap\<close> is not looked at.\<close>

definition mprotect_body :: "int \<Rightarrow> int \<Rightarrow> verdict prog" where
  "mprotect_body old_prot new_prot =
     (let sz = PAGE_SIZE * 3; flags = MAP_PRIVATE OR MAP_ANONYMOUS OR MAP_POPULATE in
      sys_ptr (Mem (Mmap 0 sz old_prot flags (- 1) 0)) (\<lambda>p.
      Printf ''mapped=%p\<newline>'' [FPtr p] (
      tp_assert (p \<noteq> - 1) ''out of memory.(mmap)'' (
      sys_int (Mem (Mprotect (p + PAGE_SIZE) PAGE_SIZE new_prot)) (\<lambda>ret.
      tp_assert (ret = 0) ''mprotect error.'' (
      sys_int (Mem (Munmap p sz)) (\<lambda>_.
      Return None)))))))"

definition mprotect_case :: "int \<times> int \<times> int \<Rightarrow> unit option test_case" where
  "mprotect_case t = (case t of (n, old_prot, new_prot) \<Rightarrow>
     \<lparr>test_suite = ''mprotect'', num = n, tc_setup = SETUP_EMPTY,
      tc_run = (\<lambda>_ _. mprotect_body old_prot new_prot), tc_teardown = TEARDOWN_EMPTY\<rparr>)"

definition mprotect_000 :: "unit option test_case" where
  "mprotect_000 = mprotect_case (0, PROT_READ, PROT_WRITE OR PROT_READ)"
definition mprotect_001 :: "unit option test_case" where
  "mprotect_001 = mprotect_case (1, PROT_READ, PROT_WRITE OR PROT_READ OR PROT_EXEC)"
definition mprotect_002 :: "unit option test_case" where
  "mprotect_002 = mprotect_case (2, PROT_READ OR PROT_EXEC, PROT_WRITE OR PROT_READ)"
definition mprotect_003 :: "unit option test_case" where
  "mprotect_003 = mprotect_case (3, PROT_READ OR PROT_EXEC, PROT_WRITE OR PROT_READ OR PROT_EXEC)"
definition mprotect_004 :: "unit option test_case" where
  "mprotect_004 = mprotect_case (4, PROT_READ, PROT_READ OR PROT_EXEC)"
definition mprotect_005 :: "unit option test_case" where
  "mprotect_005 = mprotect_case (5, PROT_READ, PROT_WRITE OR PROT_READ OR PROT_EXEC)"
definition mprotect_006 :: "unit option test_case" where
  "mprotect_006 = mprotect_case (6, PROT_WRITE OR PROT_READ, PROT_READ OR PROT_EXEC)"
definition mprotect_007 :: "unit option test_case" where
  "mprotect_007 = mprotect_case (7, PROT_WRITE OR PROT_READ, PROT_WRITE OR PROT_READ OR PROT_EXEC)"

definition mprotect_cases :: "unit option test_case list" where
  "mprotect_cases = [mprotect_000, mprotect_001, mprotect_002, mprotect_003, mprotect_004, mprotect_005, mprotect_006, mprotect_007]"

subsection \<open>remap_file_pages\<close>

record remap_file_pages_args =
  rf_dir :: string
  rf_size :: u64

fun remap_file_pages_switch :: "optres list \<Rightarrow> remap_file_pages_args \<Rightarrow> remap_file_pages_args" where
  "remap_file_pages_switch [] args = args"
| "remap_file_pages_switch ((opt, optarg) # rs) args =
     remap_file_pages_switch rs
       (if opt = CHR ''d'' then args\<lparr>rf_dir := (case optarg of None \<Rightarrow> [] | Some s \<Rightarrow> s)\<rparr>
        else if opt = CHR ''s'' then args\<lparr>rf_size := strtoul 10 (case optarg of None \<Rightarrow> [] | Some s \<Rightarrow> s)\<rparr>
        else args)"

definition remap_file_pages_setup :: "int \<Rightarrow> string list \<Rightarrow> remap_file_pages_args option prog" where
  "remap_file_pages_setup tc_num tc_argv =
     (case getopt_all None ''d:s:'' tc_argv of (opts, argv', optind) \<Rightarrow>
        Return (Some (remap_file_pages_switch opts \<lparr>rf_dir = ''.'', rf_size = 0\<rparr>)))"

definition remap_file_pages_pgoff_to_addr :: "u64 \<Rightarrow> int \<Rightarrow> u64" where
  "remap_file_pages_pgoff_to_addr start page = start + PAGE_SIZE * word_of_int page"

definition remap_file_pages_hash :: "int \<Rightarrow> u8" where
  "remap_file_pages_hash page = word_of_int (page mod 256)"

text \<open>
  The pages of the test file, each marked by its number in the first byte. The counter is an
  \<^verbatim>\<open>int\<close>; from \<^verbatim>\<open>2^31\<close> pages on it overflows.
\<close>

primrec write_pages :: "nat \<Rightarrow> int \<Rightarrow> int \<Rightarrow> 'a prog \<Rightarrow> 'a prog" where
  "write_pages 0 page fd k = k"
| "write_pages (Suc n) page fd k =
     sys_int (File (Write fd (char_byte (remap_file_pages_hash page) # replicate (unat PAGE_SIZE - 1) (CHR 0x00)))) (\<lambda>_.
     write_pages n (page + 1) fd k)"

definition remap_file_pages_create_file :: "string \<Rightarrow> u64 \<Rightarrow> (string \<times> verdict) prog" where
  "remap_file_pages_create_file path sz =
     sys_out (File (Mkstemp path)) [OStr path] (\<lambda>fd os.
     (let path = (case os of [OStr name] \<Rightarrow> name | _ \<Rightarrow> path) in
      if fd = - 1 then Return (path, Some ''open error.'')
      else if 2 ^ 31 \<le> unat (sz div PAGE_SIZE) then Undef
      else write_pages (unat (sz div PAGE_SIZE)) 0 fd (
        sys_int (File (Close fd)) (\<lambda>_.
        sys_int (File Sync) (\<lambda>_.
        Return (path, None))))))"

text \<open>The loops that count one page number up and the other down to 0, \<^verbatim>\<open>n\<close> rounds to go.\<close>

primrec remap_pages :: "nat \<Rightarrow> int \<Rightarrow> u64 \<Rightarrow> verdict prog \<Rightarrow> verdict prog" where
  "remap_pages 0 file_page addr k = k"
| "remap_pages (Suc n) file_page addr k =
     sys_int (Mem (Remap_file_pages (remap_file_pages_pgoff_to_addr addr (int n)) PAGE_SIZE 0 (word_of_int file_page) 0)) (\<lambda>status.
     tp_assert (status = 0) ''remap error'' (remap_pages n (file_page + 1) addr k))"

primrec compare_pages :: "nat \<Rightarrow> int \<Rightarrow> u64 \<Rightarrow> verdict prog" where
  "compare_pages 0 remap_page remap_data = Return None"
| "compare_pages (Suc n) remap_page remap_data =
     Load (remap_file_pages_pgoff_to_addr remap_data remap_page) (\<lambda>b.
     tp_assert (b = remap_file_pages_hash (int n)) ''compare failed.'' (compare_pages n (remap_page + 1) remap_data))"

definition last_page :: "u64 \<Rightarrow> int" where
  "last_page sz = c_int (uint (sz div PAGE_SIZE - 1))"

definition remap_file_pages_compare :: "u64 \<Rightarrow> u64 \<Rightarrow> verdict prog" where
  "remap_file_pages_compare remap_data sz = compare_pages (nat (last_page sz + 1)) 0 remap_data"

text \<open>The file-scope variables \<^verbatim>\<open>path\<close>, of 256 bytes, and \<^verbatim>\<open>fd\<close>, which is \<^verbatim>\<open>-1\<close> at the start.\<close>

definition remap_file_pages_run :: "int \<Rightarrow> remap_file_pages_args option \<Rightarrow> verdict prog" where
  "remap_file_pages_run tc_num tc_arg =
     (case tc_arg of
        None \<Rightarrow> Undef
      | Some args \<Rightarrow>
          call (remap_file_pages_create_file (take 255 (rf_dir args @ ''/remap_file_pages_tp-XXXXXX'')) (rf_size args)) (\<lambda>(path, err).
          SetGlobStr ''path'' path (
          Printf ''test file path=%s\<newline>'' [FStr path] (
          case err of
            Some e \<Rightarrow> Return (Some e)
          | None \<Rightarrow>
              sys_int (File (Open path O_RDWR)) (\<lambda>fd.
              SetGlob ''fd'' (word_of_int fd) (
              tp_assert (fd \<noteq> - 1) ''file open error.'' (
              sys_ptr (Mem (Mmap 0 (rf_size args) (PROT_READ OR PROT_WRITE) MAP_SHARED fd 0)) (\<lambda>addr.
              tp_assert (addr \<noteq> - 1) ''mmap error.'' (
              Printf ''mmap[%p-%p)\<newline>'' [FPtr addr, FPtr (addr + rf_size args)] (
              remap_pages (nat (last_page (rf_size args) + 1)) 0 addr (
              remap_file_pages_compare addr (rf_size args))))))))))))"

definition remap_file_pages_teardown :: "int \<Rightarrow> remap_file_pages_args option \<Rightarrow> unit prog" where
  "remap_file_pages_teardown tc_num tc_arg =
     Glob ''fd'' (\<lambda>fd.
     if fd \<noteq> - 1 then
       sys_int (File (Close (sint fd))) (\<lambda>_.
       GlobStr ''path'' (\<lambda>path.
       Printf ''delete test file=%s\<newline>'' [FStr path] (
       sys_int (File (Unlink path)) (\<lambda>_. Return ()))))
     else Return ())"

definition remap_file_pages_000 :: "remap_file_pages_args option test_case" where
  "remap_file_pages_000 =
     \<lparr>test_suite = ''remap_file_pages'', num = 0, tc_setup = remap_file_pages_setup,
      tc_run = remap_file_pages_run, tc_teardown = remap_file_pages_teardown\<rparr>"

subsection \<open>Calls on the test file\<close>

lemma runs_fs:
  assumes K: "conforms_map K view rd ioc" and c: "fs_only (File c)" "fs_det (mm_fs (view (kst p))) c"
    "fs_step c (mm_fs (view (kst p))) = (SOk v os, f)"
    and k: "\<And>s'. view s' = (view (kst p))\<lparr>mm_fs := f\<rparr> \<Longrightarrow> runs K (k v) (p\<lparr>kst := s'\<rparr>) Q"
  shows "runs K (sys_int (File c) k) p Q"
proof -
  let ?s = "snd (k_sys K (File c) (kst p))"
  have f: "fst (k_sys K (File c) (kst p)) = SOk v os" "mm_fs (view ?s) = f"
    using conforms_fileD(1,2) [OF map_file [OF K] c(2)] c(3) by simp_all
  then have "view ?s = (view (kst p))\<lparr>mm_fs := f\<rparr>"
    using map_fs_only [OF K c(1), of "kst p"] by (intro mm.equality) simp_all
  from k [OF this] f(1) show ?thesis by (intro runs_sys_int) auto
qed

lemma runs_mkstemp:
  assumes K: "conforms_map K view rd ioc"
    and e: "\<And>e s'. view s' = view (kst p) \<Longrightarrow> runs K (k (- 1) old) (p\<lparr>kst := s', errno := e\<rparr>) Q"
    and ok: "\<And>fd name s'. 0 \<le> fd \<Longrightarrow> fds (mm_fs (view (kst p))) fd = None \<Longrightarrow> files (mm_fs (view (kst p))) name = None \<Longrightarrow>
      view s' = (view (kst p))\<lparr>mm_fs := (mm_fs (view (kst p)))\<lparr>files := (files (mm_fs (view (kst p))))(name \<mapsto> []),
        fds := (fds (mm_fs (view (kst p))))(fd \<mapsto> (name, 0, O_RDWR))\<rparr>\<rparr> \<Longrightarrow>
      runs K (k fd (if length old = 1 then [OStr name] else old)) (p\<lparr>kst := s'\<rparr>) Q"
  shows "runs K (sys_out (File (Mkstemp tm)) old k) p Q"
proof -
  let ?r = "fst (k_sys K (File (Mkstemp tm)) (kst p))" and ?s = "snd (k_sys K (File (Mkstemp tm)) (kst p))"
  let ?f = "mm_fs (view (kst p))"
  have s: "view ?s = (view (kst p))\<lparr>mm_fs := mm_fs (view ?s)\<rparr>"
    using map_fs_only [OF K, of "File (Mkstemp tm)" "kst p"] by (intro mm.equality) simp_all
  have "mkstemp_rel tm ?f ?r (mm_fs (view ?s))" using conforms_fileD(5) [OF map_file [OF K]] .
  then consider e where "?r = SErr e" "mm_fs (view ?s) = ?f"
    | fd name where "?r = SOk fd [OStr name]" "0 \<le> fd" "fds ?f fd = None" "files ?f name = None"
        "mm_fs (view ?s) = ?f\<lparr>files := (files ?f)(name \<mapsto> []), fds := (fds ?f)(fd \<mapsto> (name, 0, O_RDWR))\<rparr>"
    unfolding mkstemp_rel_def by blast
  then show ?thesis
  proof cases
    case 1
    then have "view ?s = view (kst p)" using s by simp
    from e [OF this] 1(1) show ?thesis by (intro runs_sys_out) auto
  next
    case 2
    from ok [OF 2(2-4)] s 2(1,5) show ?thesis by (intro runs_sys_out) auto
  qed
qed

subsection \<open>The test file\<close>

definition test_page :: "nat \<Rightarrow> string" where
  "test_page i = char_byte (remap_file_pages_hash (int i)) # replicate 4095 (CHR 0x00)"

definition test_file :: "nat \<Rightarrow> string" where
  "test_file n = concat (map test_page [0..<n])"

lemma test_file_simps [simp]: "test_file 0 = []" "test_file (Suc n) = test_file n @ test_page n" "length (test_page n) = 4096"
  by (simp_all add: test_file_def test_page_def)

lemma length_test_file [simp]: "length (test_file n) = 4096 * n"
  by (induction n) simp_all

lemma test_file_mark: "k < n \<Longrightarrow> byte_of (test_file n ! (4096 * k)) = remap_file_pages_hash (int k)"
proof (induction n)
  case (Suc n)
  then show ?case by (cases "k = n") (simp_all add: nth_append test_page_def)
qed simp

lemma runs_write_pages:
  assumes K: "conforms_map K view rd ioc"
    and m: "view (kst p) = m\<lparr>mm_fs := (mm_fs m)\<lparr>files := (files (mm_fs m))(path \<mapsto> test_file i),
      fds := (fds (mm_fs m))(fd \<mapsto> (path, int (4096 * i), O_RDWR))\<rparr>\<rparr>"
    and k: "\<And>p'. disp p' = disp p \<Longrightarrow> globals p' = globals p \<Longrightarrow>
      view (kst p') = m\<lparr>mm_fs := (mm_fs m)\<lparr>files := (files (mm_fs m))(path \<mapsto> test_file (i + n)),
        fds := (fds (mm_fs m))(fd \<mapsto> (path, int (4096 * (i + n)), O_RDWR))\<rparr>\<rparr> \<Longrightarrow> runs K k p' Q"
  shows "runs K (write_pages n (int i) fd k) p Q"
  using m k
proof (induction n arbitrary: i p)
  case 0
  from 0(2) [of p] 0(1) show ?case by simp
next
  case (Suc n)
  have w: "write_at (test_file i) (4096 * i) (test_page i) = test_file (Suc i)" by (simp add: write_at_def)
  show ?case
    unfolding write_pages.simps
  proof (rule runs_fs [OF K, where v = 4096 and os = "[]" and
        f = "(mm_fs m)\<lparr>files := (files (mm_fs m))(path \<mapsto> test_file (Suc i)),
          fds := (fds (mm_fs m))(fd \<mapsto> (path, int (4096 * Suc i), O_RDWR))\<rparr>"], goal_cases)
    case 3
    show ?case
      using w unfolding Suc.prems(1) by (auto intro!: fs.equality simp: PAGE_SIZE_def test_page_def nat_mult_distrib)
  next
    case (4 s')
    have "view (kst (p\<lparr>kst := s'\<rparr>)) = m\<lparr>mm_fs := (mm_fs m)\<lparr>files := (files (mm_fs m))(path \<mapsto> test_file (Suc i)),
        fds := (fds (mm_fs m))(fd \<mapsto> (path, int (4096 * Suc i), O_RDWR))\<rparr>\<rparr>"
      using 4 Suc.prems(1) by simp
    from Suc.IH [OF this] Suc.prems(2) show ?case by (simp add: add.commute)
  qed (simp_all add: Suc.prems(1) fd_regular_def)
qed

definition with_test_file :: "string \<Rightarrow> nat \<Rightarrow> mm \<Rightarrow> mm" where
  "with_test_file path n m = m\<lparr>mm_fs := (mm_fs m)\<lparr>files := (files (mm_fs m))(path \<mapsto> test_file n)\<rparr>\<rparr>"

lemma sz_pages: "unat (sz div PAGE_SIZE) = unat sz div 4096"
  by (simp add: PAGE_SIZE_def unat_div)

lemma runs_create_file:
  assumes K: "conforms_map K view rd ioc" and sz: "unat sz div 4096 < 2 ^ 31"
  shows "runs K (remap_file_pages_create_file tm sz) p (\<lambda>r p'. \<exists>v. r = Returned v \<and> globals p' = globals p \<and>
    (v = (tm, Some ''open error.'') \<and> view (kst p') = view (kst p) \<or>
     (\<exists>name. v = (name, None) \<and> files (mm_fs (view (kst p))) name = None \<and>
        view (kst p') = with_test_file name (unat sz div 4096) (view (kst p)))))"
  unfolding remap_file_pages_create_file_def
proof (rule runs_mkstemp [OF K], goal_cases)
  case (1 e s')
  then show ?case by (simp add: runs_Return)
next
  case (2 fd name s')
  let ?n = "unat sz div 4096"
  have "runs K (write_pages ?n (int 0) fd (sys_int (File (Close fd)) (\<lambda>_. sys_int (File Sync) (\<lambda>_. Return (name, None))))) (p\<lparr>kst := s'\<rparr>)
    (\<lambda>r p'. \<exists>v. r = Returned v \<and> globals p' = globals p \<and>
    (v = (tm, Some ''open error.'') \<and> view (kst p') = view (kst p) \<or>
     (\<exists>name. v = (name, None) \<and> files (mm_fs (view (kst p))) name = None \<and>
        view (kst p') = with_test_file name ?n (view (kst p)))))"
  proof (rule runs_write_pages [OF K, where m = "view (kst p)" and path = name], goal_cases)
    case (2 p')
    show ?case
    proof (rule runs_close [OF K], goal_cases)
      case (2 s2)
      then have s2: "view s2 = with_test_file name ?n (view (kst p))"
        using \<open>view (kst p') = _\<close> \<open>fds _ fd = None\<close> by (simp add: with_test_file_def fun_upd_idem)
      show ?case
        by (rule runs_neutral [OF K]) (use s2 2 \<open>globals p' = _\<close> \<open>files _ name = None\<close> in \<open>auto intro!: runs_Return\<close>)
    qed (use 2 in simp)
  qed (use 2 in simp)
  then show ?case using 2(1) sz by (simp add: sz_pages)
qed

subsection \<open>Turning the pages round\<close>

lemma pgoff_pg_addr [simp]: "remap_file_pages_pgoff_to_addr b (int j) = pg_addr b j"
  by (simp add: remap_file_pages_pgoff_to_addr_def pg_addr_def)

text \<open>The last \<^verbatim>\<open>i\<close> of \<^verbatim>\<open>l\<close> pages show the first \<^verbatim>\<open>i\<close> pages of the file, in reverse order.\<close>

definition turned :: "mm \<Rightarrow> string \<Rightarrow> u64 \<Rightarrow> nat \<Rightarrow> nat \<Rightarrow> nat \<Rightarrow> mm \<Rightarrow> bool" where
  "turned m0 path b n l i m \<longleftrightarrow>
     mm_fs m = mm_fs m0 \<and> mm_devs m = mm_devs m0 \<and>
     (\<forall>x. inr b n x \<longrightarrow> (\<exists>off. mm_cells m x = Some \<lparr>mprot = RW, msrc = Of True path off\<rparr>)) \<and>
     (\<forall>k<i. mm_cells m (pg_addr b (l - 1 - k)) = Some \<lparr>mprot = RW, msrc = Of True path (4096 * k)\<rparr>)"

lemma inr_page_of:
  assumes "fits b n" "n mod 4096 = 0" "4096 * j < n" "inr (pg_addr b j) 4096 x"
  shows "inr b n x"
proof -
  obtain k where "n = 4096 * k" using assms(2) by auto
  then show ?thesis using assms(3,4) pg_addr_unat [OF assms(1,3)] by (simp add: inr_def)
qed

lemma turned_step:
  assumes m: "turned m0 path b n l i m" and b: "fits b n" "n mod 4096 = 0" "4096 * l \<le> n" "i < l"
  shows "turned m0 path b n l (Suc i)
    (map_cells (pg_addr b (l - 1 - i)) 4096 (obj_cells RW True path (pg_addr b (l - 1 - i)) (i * 4096)) m)"
proof -
  have u: "unat (pg_addr b (l - 1 - k)) = unat b + 4096 * (l - 1 - k)" if "k < l" for k
    by (rule pg_addr_unat [OF b(1)]) (use that b(3) in simp)
  have here: "inr (pg_addr b (l - 1 - i)) 4096 (pg_addr b (l - 1 - i))" by (simp add: inr_def)
  have "\<not> inr (pg_addr b (l - 1 - i)) 4096 (pg_addr b (l - 1 - k))" if "k < i" for k
  proof -
    have "4096 * (l - 1 - i) + 4096 \<le> 4096 * (l - 1 - k)" using that b(4) by simp
    then show ?thesis using u [of i] u [of k] that b(4) by (simp add: inr_def)
  qed
  with m here show ?thesis
    unfolding turned_def
    by (auto simp: map_cells_def map_range_def obj_cells_def less_Suc_eq mult.commute)
qed

lemma runs_remap_pages:
  assumes K: "conforms_map K view rd ioc" and b: "page_aligned b" "fits b n" "n mod 4096 = 0" "4096 * l \<le> n" "l < 2 ^ 31"
    and e: "\<And>p'. globals p' = globals p \<Longrightarrow> gstrings p' = gstrings p \<Longrightarrow> mm_fs (view (kst p')) = mm_fs m0 \<Longrightarrow> Q (Returned (Some ''remap error'')) p'"
    and k: "\<And>p'. globals p' = globals p \<Longrightarrow> gstrings p' = gstrings p \<Longrightarrow> turned m0 path b n l l (view (kst p')) \<Longrightarrow> runs K k p' Q"
    and m: "turned m0 path b n l i (view (kst p))" "i + r = l"
  shows "runs K (remap_pages r (int i) b k) p Q"
  using m e k
proof (induction r arbitrary: i p)
  case 0
  then show ?case by simp
next
  case (Suc r)
  have r: "r = l - 1 - i" "4096 * r < n" "i < l" using Suc.prems(2) b(4) by auto
  show ?case
    unfolding remap_pages.simps pgoff_pg_addr
  proof (rule runs_remap [OF K, where pr = RW and path = path], goal_cases)
    case 1
    show ?case using b(1) pg_addr_unat [OF b(2) r(2)] by (simp add: page_aligned_def)
  next
    case 4
    obtain j where "n = 4096 * j" using b(3) by auto
    then show ?case using b(2) r(2) pg_addr_unat [OF b(2) r(2)] by (simp add: fits_def PAGE_SIZE_def)
  next
    case 5
    show ?case using r(3) b(5) by (simp add: unsigned_of_nat take_bit_nat_eq_self)
  next
    case (6 x)
    then have "inr b n x" using inr_page_of [OF b(2,3) r(2)] by (simp add: PAGE_SIZE_def)
    then show ?case using Suc.prems(1) by (simp add: turned_def)
  next
    case (7 e s')
    show ?case
      by (rule runs_tp_assert) (use 7 Suc.prems(1) in \<open>auto intro!: Suc.prems(3) simp: turned_def\<close>)
  next
    case (8 s')
    have "turned m0 path b n l (Suc i) (view s')"
      using turned_step [OF Suc.prems(1) b(2-4) r(3)] 8 r(3) b(5)
      by (simp add: r(1) PAGE_SIZE_def unsigned_of_nat take_bit_nat_eq_self)
    then have "runs K (remap_pages r (int (Suc i)) b k) (p\<lparr>kst := s'\<rparr>) Q"
      by (intro Suc.IH) (use Suc.prems in auto)
    then show ?case by (simp add: add.commute)
  qed (simp_all add: PAGE_SIZE_def page_aligned_def)
qed

lemma runs_compare_pages:
  assumes K: "conforms_map K view rd ioc" and m: "turned m0 path b n l l (view (kst p))"
    and f: "mm_devs m0 path = None" "files (mm_fs m0) path = Some (test_file l)" and r: "j + r = l"
    and k: "\<And>p'. globals p' = globals p \<Longrightarrow> gstrings p' = gstrings p \<Longrightarrow> mm_fs (view (kst p')) = mm_fs m0 \<Longrightarrow> Q (Returned None) p'"
  shows "runs K (compare_pages r (int j) b) p Q"
  using m r k
proof (induction r arbitrary: j p)
  case 0
  then show ?case by (auto intro!: runs_Return simp: turned_def)
next
  case (Suc r)
  have "mm_cells (view (kst p)) (pg_addr b (l - 1 - r)) = Some \<lparr>mprot = RW, msrc = Of True path (4096 * r)\<rparr>"
    using Suc.prems(1,2) by (simp add: turned_def)
  moreover have "l - 1 - r = j" using Suc.prems(2) by simp
  ultimately have c: "mm_cells (view (kst p)) (pg_addr b j) = Some \<lparr>mprot = RW, msrc = Of True path (4096 * r)\<rparr>" by simp
  have fd: "mm_devs (view (kst p)) path = None" "files (mm_fs (view (kst p))) path = Some (test_file l)"
    using Suc.prems(1) f by (simp_all add: turned_def)
  have rl: "r < l" using Suc.prems(2) by simp
  show ?case
    unfolding compare_pages.simps pgoff_pg_addr
  proof (rule runs_load_vis [OF K, where pr = RW and v = "remap_file_pages_hash (int r)"], goal_cases)
    case 2
    show ?case
      using c fd rl test_file_mark [OF rl] by (simp add: vis_def cell_byte_def obj_byte_def file_byte_def)
  next
    case 4
    show ?case using map_rd_ok [OF K] by (simp add: rd_ok_def)
  next
    case (5 s')
    have "runs K (compare_pages r (int (Suc j)) b) (p\<lparr>kst := s'\<rparr>) Q"
      by (intro Suc.IH) (use Suc.prems 5 in auto)
    then show ?case by (simp add: add.commute)
  qed (use c fd in \<open>simp_all add: there_at_def cell_there_def obj_there_def prot_at_def\<close>)
qed

subsection \<open>The case\<close>

lemma last_page_rounds:
  assumes "unat sz div 4096 < 2 ^ 31"
  shows "nat (last_page sz + 1) = unat sz div 4096"
proof (cases "sz div PAGE_SIZE = 0")
  case True
  then have "unat sz div 4096 = 0" using sz_pages [of sz] by simp
  moreover have "uint (- 1 :: u64) = 18446744073709551615" by (simp add: unsigned_minus_1_eq_mask mask_eq_exp_minus_1)
  ultimately show ?thesis using True by (simp add: last_page_def c_int_def)
next
  case False
  have "unat (sz div PAGE_SIZE - 1) = unat sz div 4096 - 1" using unat_minus_one [OF False] sz_pages [of sz] by simp
  then have "uint (sz div PAGE_SIZE - 1) = int (unat sz div 4096 - 1)" by (metis uint_nat)
  moreover have "0 < unat sz div 4096" using False sz_pages [of sz] by (metis gr0I unat_eq_zero)
  ultimately show ?thesis using assms by (simp add: last_page_def)
qed

text \<open>What the body leaves for the clean-up.\<close>

inductive remap_left :: "mm \<Rightarrow> verdict \<Rightarrow> 's process \<Rightarrow> mm \<Rightarrow> bool" for m where
  not_created: "globals p' ''fd'' = - 1 \<Longrightarrow> mm_fs m' = mm_fs m \<Longrightarrow> remap_left m (Some ''open error.'') p' m'"
| not_opened: "globals p' ''fd'' = - 1 \<Longrightarrow> remap_left m (Some ''file open error.'') p' m'"
| still_open: "globals p' ''fd'' = word_of_int fd \<Longrightarrow> gstrings p' ''path'' = name \<Longrightarrow>
    mm_fs m' = mm_fs (opened fd name O_RDWR (with_test_file name n m)) \<Longrightarrow>
    v = None \<or> v = Some ''mmap error.'' \<or> v = Some ''remap error'' \<Longrightarrow>
    files (mm_fs m) name = None \<Longrightarrow> 0 \<le> fd \<Longrightarrow> fd < 2 ^ 31 \<Longrightarrow> fds (mm_fs m) fd = None \<Longrightarrow> remap_left m v p' m'"

lemma runs_remap_file_pages:
  assumes K: "conforms_map K view rd ioc" and d: "mm_devs (view (kst p)) = (\<lambda>_. None)"
    and sz: "0 < rf_size args" "unat (rf_size args) < 2 ^ 43" and g: "globals p ''fd'' = - 1"
  shows "runs K (remap_file_pages_run tc_num (Some args)) p
    (\<lambda>r p'. \<exists>v. r = Returned v \<and> remap_left (view (kst p)) v p' (view (kst p')))"
proof -
  let ?sz = "rf_size args" and ?m = "view (kst p)"
  let ?l = "unat ?sz div 4096"
  have l: "?l < 2 ^ 31" using sz(2) by simp
  note rounds = last_page_rounds [OF l]
  show ?thesis
    unfolding remap_file_pages_run_def option.case
  proof (rule runs_callI [OF runs_create_file [OF K l]], goal_cases)
    case (1 v p1)
    then consider tm where "v = (tm, Some ''open error.'')" "view (kst p1) = ?m"
      | name where "v = (name, None)" "files (mm_fs ?m) name = None" "view (kst p1) = with_test_file name ?l ?m"
      by auto
    then show ?case
    proof cases
      case 1
      then show ?thesis using g \<open>globals p1 = _ \<and> _\<close> by (auto intro!: runs_intros not_created)
    next
      case (2 name)
      have there: "obj_there (with_test_file name ?l ?m) name" by (simp add: obj_there_def with_test_file_def)
      have fl: "\<not> mmap_fixed MAP_SHARED" "\<not> mmap_anonymous MAP_SHARED" "mmap_shared MAP_SHARED"
        by (simp_all add: mmap_flags)
      have g1: "globals p1 ''fd'' = - 1" using g 1 by simp
      show ?thesis
        unfolding 2(1) prod.case option.case
      proof (intro runs_SetGlobStr runs_Fprintf, rule runs_open_int [OF K], goal_cases)
        case (1 e s')
        show ?case
          by (intro runs_SetGlob runs_tp_assert) (simp_all add: not_opened)
      next
        case (2 fd s')
        have v2: "view s' = opened fd name O_RDWR (with_test_file name ?l ?m)" using 2(5) \<open>view (kst p1) = _\<close> by simp
        have fdf: "fds (mm_fs ?m) fd = None" using 2(3) \<open>view (kst p1) = _\<close> by (simp add: with_test_file_def)
        note left = still_open [where fd = fd and name = name and n = ?l and m = ?m, OF _ _ _ _ \<open>files (mm_fs ?m) name = None\<close> 2(1,2) fdf,
            folded v2]
        show ?case
        proof (intro runs_SetGlob runs_tp_assert, goal_cases)
          case 1
          show ?case
          proof (rule runs_mmap_obj [OF K fl(1,2) sz(1), where path = name and pos = 0 and md = "O_RDWR AND 3"], goal_cases)
            case 1
            show ?case by (simp add: page_aligned_def)
          next
            case 2
            show ?case by (simp add: v2 opened_def)
          next
            case (3 e s2)
            show ?case by (rule runs_tp_assert) (use 3 in \<open>auto intro!: left\<close>)
          next
            case (4 b s2)
            let ?n = "pg_up (unat ?sz)"
            have room: "page_aligned b" "fits b ?n" "b \<noteq> - 1" using roomD [OF 4(2)] by simp_all
            have "turned (view s') name b ?n ?l 0 (view s2)"
              using 4(3) by (simp add: turned_def map_cells_def map_range_def obj_cells_def fl)
            moreover have "4096 * ?l \<le> ?n" using pg_up_ge [of "unat ?sz"] by (meson le_trans times_div_less_eq_dividend)
            moreover have "mm_devs (view s') name = None" "files (mm_fs (view s')) name = Some (test_file ?l)"
              using d there by (simp_all add: v2 opened_def with_test_file_def)
            ultimately show ?case
              unfolding remap_file_pages_compare_def rounds
              by (intro runs_tp_assert runs_Fprintf
                  runs_remap_pages [OF K room(1,2) pg_up_dvd _ l, where i = 0 and r = ?l, simplified]
                  runs_compare_pages [OF K, where j = 0 and r = ?l, simplified])
                (use room(3) in \<open>auto intro!: left\<close>)
          qed
        qed (use 2(1) in simp)
      qed
    qed
  qed
qed

lemma runs_remap_teardown:
  assumes K: "conforms_map K view rd ioc" and left: "remap_left m v p (view (kst p))"
  shows "runs K (remap_file_pages_teardown tc_num tc_arg) p
    (\<lambda>r p'. r = Returned () \<and> (v \<noteq> Some ''file open error.'' \<longrightarrow> mm_fs (view (kst p')) = mm_fs m))"
  using left
proof cases
  case not_created
  then show ?thesis
    unfolding remap_file_pages_teardown_def by (auto intro!: runs_Glob runs_Return)
next
  case not_opened
  then show ?thesis
    unfolding remap_file_pages_teardown_def by (auto intro!: runs_Glob runs_Return)
next
  case (still_open fd name n)
  note fd = still_open(5,2,6,7,8,1,3)
  have False: "globals p ''fd'' \<noteq> - 1"
  proof
    assume "globals p ''fd'' = - 1"
    then have "uint (word_of_int fd :: u64) = uint (- 1 :: u64)" using fd(6) by simp
    then show False using fd(3,4) by (simp add: uint_word_of_int unsigned_minus_1_eq_mask mask_eq_exp_minus_1)
  qed
  have s: "sint (word_of_int fd :: u64) = fd" using fd(3,4) by (simp add: sint_uint uint_word_of_int signed_take_bit_int_eq_self)
  let ?f = "mm_fs (opened fd name O_RDWR (with_test_file name n m))"
  have f: "fds ?f = (fds (mm_fs m))(fd \<mapsto> (name, 0, O_RDWR AND 3))" "files ?f = (files (mm_fs m))(name \<mapsto> test_file n)"
    by (simp_all add: opened_def with_test_file_def obj_there_def)
  show ?thesis
    unfolding remap_file_pages_teardown_def
  proof (rule runs_Glob, subst if_P [OF False], unfold fd(6) s, rule runs_close [OF K], goal_cases)
    case 1
    show ?case unfolding fd(7) f by simp
  next
    case (2 s1)
    then have s1: "mm_fs (view s1) = ?f\<lparr>fds := fds (mm_fs m)\<rparr>" using fd(5,7) f(1) by (simp add: fun_upd_idem)
    show ?case
    proof (intro runs_GlobStr runs_Fprintf, rule runs_fs [OF K, where v = 0 and os = "[]" and f = "mm_fs m"], goal_cases)
      case 3
      show ?case
        using s1 f(2) fd(1,2) by (auto intro!: fs.equality simp: fun_upd_idem)
    qed (use s1 f(2) fd(2) in \<open>auto intro!: runs_Return\<close>)
  qed
qed



subsection \<open>The mprotect cases\<close>

text \<open>Three pages, the middle one with another protection.\<close>

definition three_pages :: "mm \<Rightarrow> u64 \<Rightarrow> int \<Rightarrow> int \<Rightarrow> mm" where
  "three_pages m b old_prot new_prot =
     m\<lparr>mm_cells := (\<lambda>x. if inr (pg_addr b 1) 4096 x then Some \<lparr>mprot = new_prot, msrc = Own 0\<rparr>
                       else if inr b 12288 x then Some \<lparr>mprot = old_prot, msrc = Own 0\<rparr> else mm_cells m x)\<rparr>"

definition mprotect_left :: "mm \<Rightarrow> int \<Rightarrow> int \<Rightarrow> verdict \<Rightarrow> mm \<Rightarrow> bool" where
  "mprotect_left m old_prot new_prot v m' \<longleftrightarrow>
     v \<in> {None, Some ''out of memory.(mmap)''} \<and> m' = m \<or>
     (\<exists>b. room m b 12288 \<and>
       (v = None \<and> m' = three_pages m b old_prot new_prot \<or>
        v = Some ''mprotect error.'' \<and> m' = three_pages m b old_prot old_prot))"

lemma middle_page:
  assumes "room m b 12288"
  shows "page_aligned (b + PAGE_SIZE)" "fits (b + PAGE_SIZE) 4096" "inr (b + PAGE_SIZE) 4096 x \<Longrightarrow> inr b 12288 x"
    "b + PAGE_SIZE = pg_addr b 1"
proof -
  have u: "unat (b + PAGE_SIZE) = unat b + 4096"
    using assms pg_addr_unat [of b 12288 1] by (simp add: room_def pg_addr_def)
  show "page_aligned (b + PAGE_SIZE)" "fits (b + PAGE_SIZE) 4096"
    using assms u unfolding room_def fits_def page_aligned_def by auto
  show "inr b 12288 x" if "inr (b + PAGE_SIZE) 4096 x"
    using that u unfolding inr_def by auto
qed (simp add: pg_addr_def)

lemma runs_mprotect_body:
  assumes K: "conforms_map K view rd ioc"
  shows "runs K (mprotect_body old_prot new_prot) p
    (\<lambda>r p'. \<exists>v. r = Returned v \<and> mprotect_left (view (kst p)) old_prot new_prot v (view (kst p')))"
proof -
  let ?m = "view (kst p)" and ?fl = "MAP_PRIVATE OR MAP_ANONYMOUS OR MAP_POPULATE"
  have fl: "\<not> mmap_fixed ?fl" "mmap_anonymous ?fl" "\<not> mmap_shared ?fl" "page_aligned 0"
    by (simp_all add: mmap_fixed_def mmap_anonymous_def mmap_shared_def page_aligned_def)
  have n: "pg_up (unat (PAGE_SIZE * 3)) = 12288" "0 < PAGE_SIZE * 3" "pg_up (unat PAGE_SIZE) = 4096"
    by (simp_all add: pg_up_def PAGE_SIZE_def)
  show ?thesis
    unfolding mprotect_body_def Let_def
  proof (rule runs_mmap_anon [OF K fl(1-3) n(2) fl(4)], unfold n, goal_cases)
    case (1 e s1)
    then show ?case by (intro runs_intros) (auto simp: mprotect_left_def)
  next
    case (2 b s1)
    note room = middle_page [OF 2(1)]
    have b: "b \<noteq> - 1" "page_aligned b" "fits b 12288" "\<And>x. inr b 12288 x \<Longrightarrow> mm_cells ?m x = None"
      using 2(1) roomD [OF 2(1)] by (auto simp: room_def unmapped_def)
    have s1: "view s1 = three_pages ?m b old_prot old_prot"
      unfolding 2(2) three_pages_def map_cells_def map_range_def using room(3,4) by (auto intro!: mm.equality ext)
    show ?case
    proof (intro runs_Fprintf runs_tp_assert, goal_cases)
      case 1
      show ?case
      proof (rule runs_mprotect [OF K room(1)], unfold n, goal_cases)
        case 2
        show ?case using room(3) by (auto simp: mapped_def s1 three_pages_def)
      next
        case (3 e s2)
        then show ?case using \<open>room ?m b 12288\<close> s1 by (intro runs_intros) (auto simp: mprotect_left_def)
      next
        case (4 s2)
        then have s2: "view s2 = three_pages ?m b old_prot new_prot"
          using room(3) by (auto intro!: mm.equality ext simp: s1 three_pages_def map_cells_def map_range_def room(4))
        show ?case
        proof (intro runs_tp_assert, goal_cases)
          case 1
          show ?case
          proof (rule runs_munmap [OF K b(2) n(2)], unfold n, goal_cases)
            case (2 e s3)
            then show ?case using \<open>room ?m b 12288\<close> s2 by (intro runs_Return) (auto simp: mprotect_left_def)
          next
            case (3 s3)
            then have "view s3 = ?m"
              using b(4) room(3) by (auto intro!: mm.equality ext simp: s2 three_pages_def map_cells_def map_range_def room(4))
            then show ?case by (intro runs_Return) (auto simp: mprotect_left_def)
          qed (use b(3) in simp)
        qed simp
      qed (use room(2) in simp)
    qed (use b(1) in simp)
  qed
qed

text \<open>
  C36. The eight \<^verbatim>\<open>mprotect\<close> cases: each runs to its end, and fails only where the kernel refuses the
  mapping, with the memory as before, or refuses \<^verbatim>\<open>mprotect\<close>, with the three pages left mapped under
  their first protection. Where it passes, the memory is as before; only where \<^verbatim>\<open>munmap\<close> was refused,
  which no case looks at, the three pages stay, the middle one alone with the new protection.
\<close>

theorem mprotect_outcomes:
  assumes "conforms_map K view rd ioc" "(n, old_prot, new_prot) \<in> set
    [(0, 1, 3), (1, 1, 7), (2, 5, 3), (3, 5, 7), (4, 1, 5), (5, 1, 7), (6, 3, 5), (7, 3, 7)]"
  shows "\<exists>v p'. exec K (run_test_case (mprotect_cases ! n) argv) p = (Returned v, p') \<and>
    mprotect_left (view (kst p)) old_prot new_prot v (view (kst p'))"
proof -
  have "mprotect_cases ! n = mprotect_case (int n, old_prot, new_prot)"
    using assms(2) by (auto simp: mprotect_cases_def mprotect_000_def mprotect_001_def mprotect_002_def mprotect_003_def
        mprotect_004_def mprotect_005_def mprotect_006_def mprotect_007_def)
  moreover have "runs K (run_test_case (mprotect_case (int n, old_prot, new_prot)) argv) p
    (\<lambda>r p'. \<exists>v. r = Returned v \<and> mprotect_left (view (kst p)) old_prot new_prot v (view (kst p')))"
    unfolding run_test_case_def mprotect_case_def prod.case test_case.simps SETUP_EMPTY_def TEARDOWN_EMPTY_def call.simps
    by (rule runs_callI [OF runs_mprotect_body [OF assms(1)]]) (auto intro!: runs_Return)
  ultimately show ?thesis by (simp only: runs_returns)
qed

theorem mprotect_outcomes_witness:
  "\<exists>v p'. exec (map_kernel (\<lambda>pr. pr AND PROT_READ \<noteq> 0) (\<lambda>_ _ d. d)) (run_test_case (mprotect_cases ! 3) [''tp''])
     (map_process \<lparr>mm_fs = \<lparr>files = (\<lambda>_. None), fds = (\<lambda>_. None)\<rparr>, mm_devs = (\<lambda>_. None), mm_cells = (\<lambda>_. None)\<rparr>) = (Returned v, p') \<and>
    mprotect_left \<lparr>mm_fs = \<lparr>files = (\<lambda>_. None), fds = (\<lambda>_. None)\<rparr>, mm_devs = (\<lambda>_. None), mm_cells = (\<lambda>_. None)\<rparr> 5 7 v (kst p')"
proof -
  have "rd_ok (\<lambda>pr. pr AND PROT_READ \<noteq> 0)" by (simp add: rd_ok_def)
  from mprotect_outcomes [OF map_conforms [OF this], of 3 5 7 "\<lambda>_ _ d. d" "[''tp'']"
    "map_process \<lparr>mm_fs = \<lparr>files = (\<lambda>_. None), fds = (\<lambda>_. None)\<rparr>, mm_devs = (\<lambda>_. None), mm_cells = (\<lambda>_. None)\<rparr>"]
  show ?thesis by (auto simp: map_process_def)
qed

end
