(* ===== verification/Filemap.thy ===== *)
theory Filemap
  imports Ref_Map Test_Mck
begin

text \<open>
  The suites that map a file named on the command line: \<^verbatim>\<open>mmap_file\<close>, whose 49 cases are the rows of
  one table, \<^verbatim>\<open>mmap_populate\<close> and \<^verbatim>\<open>mmap_locked\<close>.
\<close>

subsection \<open>The option -f\<close>

record filemap_args =
  fm_file :: "string option"

text \<open>The loop over the options: anything but \<^verbatim>\<open>-f\<close> ends it with \<^verbatim>\<open>NULL\<close>.\<close>

fun filemap_switch :: "optres list \<Rightarrow> filemap_args \<Rightarrow> filemap_args option" where
  "filemap_switch [] param = Some param"
| "filemap_switch ((opt, optarg) # rs) param =
     (if opt = CHR ''f'' then filemap_switch rs (param\<lparr>fm_file := optarg\<rparr>) else None)"

definition file_parse_args :: "string \<Rightarrow> string list \<Rightarrow> filemap_args option prog" where
  "file_parse_args warning argv =
     (case getopt_all None ''f:'' argv of (opts, argv', optind) \<Rightarrow>
        case filemap_switch opts \<lparr>fm_file = None\<rparr> of
          None \<Rightarrow> Return None
        | Some param \<Rightarrow>
            if fm_file param = None then Fprintf Stderr warning [] (Return (Some param)) else Return (Some param))"

definition filemap_parse_args :: "string list \<Rightarrow> filemap_args option prog" where
  "filemap_parse_args = file_parse_args ''mandatory parameter '-f <file>'\<newline>''"

definition mmap_populate_parse_args :: "string list \<Rightarrow> filemap_args option prog" where
  "mmap_populate_parse_args = file_parse_args ''mandatory parameter '-f <mapping-file>'\<newline>''"

definition mmap_locked_parse_args :: "string list \<Rightarrow> filemap_args option prog" where
  "mmap_locked_parse_args = file_parse_args ''mandatory parameter '-f <mapping-file>'\<newline>''"

text \<open>The test bodies read \<^verbatim>\<open>args->file\<close> first: after a bad option \<^verbatim>\<open>args\<close> is \<^verbatim>\<open>NULL\<close>.\<close>

definition with_file :: "filemap_args option \<Rightarrow> string \<Rightarrow> (string \<Rightarrow> verdict prog) \<Rightarrow> verdict prog" where
  "with_file args msg k =
     (case args of
        None \<Rightarrow> Undef
      | Some args \<Rightarrow> (case fm_file args of None \<Rightarrow> Return (Some msg) | Some file \<Rightarrow> k file))"

subsection \<open>The suite mmap_file\<close>

definition filemap_cb_write :: "u64 \<Rightarrow> u64 \<Rightarrow> unit prog" where
  "filemap_cb_write buf sz = Store buf 0x5A (Load buf (\<lambda>c. Printf ''%c\<newline>'' [FInt (uint c)] (Return ())))"

definition filemap_cb_read :: "u64 \<Rightarrow> u64 \<Rightarrow> unit prog" where
  "filemap_cb_read buf sz = Load buf (\<lambda>temp. Printf ''%c\<newline>'' [FInt (uint temp)] (Return ()))"

definition filemap_cb_read_write :: "u64 \<Rightarrow> u64 \<Rightarrow> unit prog" where
  "filemap_cb_read_write buf sz = call (filemap_cb_read buf sz) (\<lambda>_. filemap_cb_write buf sz)"

text \<open>The function pointers of the table.\<close>

datatype filemap_cb = Cb_read | Cb_write | Cb_read_write

fun filemap_cb_fn :: "filemap_cb \<Rightarrow> u64 \<Rightarrow> u64 \<Rightarrow> unit prog" where
  "filemap_cb_fn Cb_read = filemap_cb_read"
| "filemap_cb_fn Cb_write = filemap_cb_write"
| "filemap_cb_fn Cb_read_write = filemap_cb_read_write"

definition filemap_do_map :: "string option \<Rightarrow> int \<Rightarrow> int \<Rightarrow> int \<Rightarrow> (u64 \<Rightarrow> u64 \<Rightarrow> unit prog) \<Rightarrow> verdict prog" where
  "filemap_do_map path open_flags mmap_prot mmap_flags cb =
     (case path of
        None \<Rightarrow> Return (Some ''invalid argument.'')
      | Some path \<Rightarrow>
          sys_int (File (Open path open_flags)) (\<lambda>fd.
          tp_assert (fd \<noteq> - 1) ''file open error.'' (
          sys_out (File (Stat path)) [OInt 0] (\<lambda>status sbuf.
          tp_assert (status \<noteq> - 1) ''stat error.'' (
          sys_ptr (Mem (Mmap 0 (oval_u64 (hd sbuf)) mmap_prot mmap_flags fd 0)) (\<lambda>data.
          tp_assert (data \<noteq> - 1) ''mmap error.'' (
          call (cb data (oval_u64 (hd sbuf))) (\<lambda>_.
          sys_int (Mem (Munmap data (oval_u64 (hd sbuf)))) (\<lambda>status.
          tp_assert (status \<noteq> - 1) ''munmap error.'' (
          sys_int (File (Close fd)) (\<lambda>_.
          Return None)))))))))))"

definition filemap_params :: "(int \<times> int \<times> int \<times> int \<times> filemap_cb) list" where
  "filemap_params =
     [(0, O_RDONLY, PROT_EXEC, MAP_SHARED, Cb_read),
      (1, O_RDONLY, PROT_EXEC, MAP_SHARED, Cb_write),
      (2, O_RDONLY, PROT_EXEC, MAP_PRIVATE, Cb_read),
      (3, O_RDONLY, PROT_EXEC, MAP_PRIVATE, Cb_write),
      (4, O_RDONLY, PROT_READ, MAP_SHARED, Cb_read),
      (5, O_RDONLY, PROT_READ, MAP_SHARED, Cb_write),
      (6, O_RDONLY, PROT_READ, MAP_PRIVATE, Cb_read),
      (7, O_RDONLY, PROT_READ, MAP_PRIVATE, Cb_write),
      (8, O_RDONLY, PROT_WRITE, MAP_SHARED, Cb_read),
      (9, O_RDONLY, PROT_WRITE, MAP_SHARED, Cb_write),
      (10, O_RDONLY, PROT_WRITE, MAP_PRIVATE, Cb_read),
      (11, O_RDONLY, PROT_WRITE, MAP_PRIVATE, Cb_write),
      (12, O_RDONLY, PROT_NONE, MAP_SHARED, Cb_read),
      (13, O_RDONLY, PROT_NONE, MAP_SHARED, Cb_write),
      (14, O_RDONLY, PROT_NONE, MAP_PRIVATE, Cb_read),
      (15, O_RDONLY, PROT_NONE, MAP_PRIVATE, Cb_write),
      (16, O_WRONLY, PROT_EXEC, MAP_SHARED, Cb_read),
      (17, O_WRONLY, PROT_EXEC, MAP_SHARED, Cb_write),
      (18, O_WRONLY, PROT_EXEC, MAP_PRIVATE, Cb_read),
      (19, O_WRONLY, PROT_EXEC, MAP_PRIVATE, Cb_write),
      (20, O_WRONLY, PROT_READ, MAP_SHARED, Cb_read),
      (21, O_WRONLY, PROT_READ, MAP_SHARED, Cb_write),
      (22, O_WRONLY, PROT_READ, MAP_PRIVATE, Cb_read),
      (23, O_WRONLY, PROT_READ, MAP_PRIVATE, Cb_write),
      (24, O_WRONLY, PROT_WRITE, MAP_SHARED, Cb_read),
      (25, O_WRONLY, PROT_WRITE, MAP_SHARED, Cb_write),
      (26, O_WRONLY, PROT_WRITE, MAP_PRIVATE, Cb_read),
      (27, O_WRONLY, PROT_WRITE, MAP_PRIVATE, Cb_write),
      (28, O_WRONLY, PROT_NONE, MAP_SHARED, Cb_read),
      (29, O_WRONLY, PROT_NONE, MAP_SHARED, Cb_write),
      (30, O_WRONLY, PROT_NONE, MAP_PRIVATE, Cb_read),
      (31, O_WRONLY, PROT_NONE, MAP_PRIVATE, Cb_write),
      (32, O_RDWR, PROT_EXEC, MAP_SHARED, Cb_read),
      (33, O_RDWR, PROT_EXEC, MAP_SHARED, Cb_write),
      (34, O_RDWR, PROT_EXEC, MAP_PRIVATE, Cb_read),
      (35, O_RDWR, PROT_EXEC, MAP_PRIVATE, Cb_write),
      (36, O_RDWR, PROT_READ, MAP_SHARED, Cb_read),
      (37, O_RDWR, PROT_READ, MAP_SHARED, Cb_write),
      (38, O_RDWR, PROT_READ, MAP_PRIVATE, Cb_read),
      (39, O_RDWR, PROT_READ, MAP_PRIVATE, Cb_write),
      (40, O_RDWR, PROT_WRITE, MAP_SHARED, Cb_read),
      (41, O_RDWR, PROT_WRITE, MAP_SHARED, Cb_write),
      (42, O_RDWR, PROT_WRITE, MAP_PRIVATE, Cb_read),
      (43, O_RDWR, PROT_WRITE, MAP_PRIVATE, Cb_write),
      (44, O_RDWR, PROT_NONE, MAP_SHARED, Cb_read),
      (45, O_RDWR, PROT_NONE, MAP_SHARED, Cb_write),
      (46, O_RDWR, PROT_NONE, MAP_PRIVATE, Cb_read),
      (47, O_RDWR, PROT_NONE, MAP_PRIVATE, Cb_write),
      (48, O_RDWR, PROT_WRITE, MAP_SHARED, Cb_read_write)]"

text \<open>The search of the table leaves \<^verbatim>\<open>param\<close> unset when no row has the number.\<close>

definition mmap_file_run :: "int \<Rightarrow> filemap_args option \<Rightarrow> verdict prog" where
  "mmap_file_run tc_num tc_arg =
     with_file tc_arg ''invalid file path.'' (\<lambda>file.
       tp_assert (tc_num \<noteq> int (length filemap_params)) ''invalid tc#.'' (
       case map_of filemap_params tc_num of
         None \<Rightarrow> Undef
       | Some (open_flags, mmap_prot, mmap_flags, cb) \<Rightarrow>
           filemap_do_map (Some file) open_flags mmap_prot mmap_flags (filemap_cb_fn cb)))"

definition mmap_file_000 :: "filemap_args option test_case" where
  "mmap_file_000 =
     \<lparr>test_suite = ''mmap_file'', num = 0, tc_setup = (\<lambda>tc_num tc_argv. filemap_parse_args tc_argv),
      tc_run = mmap_file_run, tc_teardown = TEARDOWN_EMPTY\<rparr>"

text \<open>The other cases delegate to case 0, which tells them apart by the number.\<close>

definition mmap_file_001 :: "filemap_args option test_case" where "mmap_file_001 = tc_alias 1 mmap_file_000"
definition mmap_file_002 :: "filemap_args option test_case" where "mmap_file_002 = tc_alias 2 mmap_file_000"
definition mmap_file_003 :: "filemap_args option test_case" where "mmap_file_003 = tc_alias 3 mmap_file_000"
definition mmap_file_004 :: "filemap_args option test_case" where "mmap_file_004 = tc_alias 4 mmap_file_000"
definition mmap_file_005 :: "filemap_args option test_case" where "mmap_file_005 = tc_alias 5 mmap_file_000"
definition mmap_file_006 :: "filemap_args option test_case" where "mmap_file_006 = tc_alias 6 mmap_file_000"
definition mmap_file_007 :: "filemap_args option test_case" where "mmap_file_007 = tc_alias 7 mmap_file_000"
definition mmap_file_008 :: "filemap_args option test_case" where "mmap_file_008 = tc_alias 8 mmap_file_000"
definition mmap_file_009 :: "filemap_args option test_case" where "mmap_file_009 = tc_alias 9 mmap_file_000"
definition mmap_file_010 :: "filemap_args option test_case" where "mmap_file_010 = tc_alias 10 mmap_file_000"
definition mmap_file_011 :: "filemap_args option test_case" where "mmap_file_011 = tc_alias 11 mmap_file_000"
definition mmap_file_012 :: "filemap_args option test_case" where "mmap_file_012 = tc_alias 12 mmap_file_000"
definition mmap_file_013 :: "filemap_args option test_case" where "mmap_file_013 = tc_alias 13 mmap_file_000"
definition mmap_file_014 :: "filemap_args option test_case" where "mmap_file_014 = tc_alias 14 mmap_file_000"
definition mmap_file_015 :: "filemap_args option test_case" where "mmap_file_015 = tc_alias 15 mmap_file_000"
definition mmap_file_016 :: "filemap_args option test_case" where "mmap_file_016 = tc_alias 16 mmap_file_000"
definition mmap_file_017 :: "filemap_args option test_case" where "mmap_file_017 = tc_alias 17 mmap_file_000"
definition mmap_file_018 :: "filemap_args option test_case" where "mmap_file_018 = tc_alias 18 mmap_file_000"
definition mmap_file_019 :: "filemap_args option test_case" where "mmap_file_019 = tc_alias 19 mmap_file_000"
definition mmap_file_020 :: "filemap_args option test_case" where "mmap_file_020 = tc_alias 20 mmap_file_000"
definition mmap_file_021 :: "filemap_args option test_case" where "mmap_file_021 = tc_alias 21 mmap_file_000"
definition mmap_file_022 :: "filemap_args option test_case" where "mmap_file_022 = tc_alias 22 mmap_file_000"
definition mmap_file_023 :: "filemap_args option test_case" where "mmap_file_023 = tc_alias 23 mmap_file_000"
definition mmap_file_024 :: "filemap_args option test_case" where "mmap_file_024 = tc_alias 24 mmap_file_000"
definition mmap_file_025 :: "filemap_args option test_case" where "mmap_file_025 = tc_alias 25 mmap_file_000"
definition mmap_file_026 :: "filemap_args option test_case" where "mmap_file_026 = tc_alias 26 mmap_file_000"
definition mmap_file_027 :: "filemap_args option test_case" where "mmap_file_027 = tc_alias 27 mmap_file_000"
definition mmap_file_028 :: "filemap_args option test_case" where "mmap_file_028 = tc_alias 28 mmap_file_000"
definition mmap_file_029 :: "filemap_args option test_case" where "mmap_file_029 = tc_alias 29 mmap_file_000"
definition mmap_file_030 :: "filemap_args option test_case" where "mmap_file_030 = tc_alias 30 mmap_file_000"
definition mmap_file_031 :: "filemap_args option test_case" where "mmap_file_031 = tc_alias 31 mmap_file_000"
definition mmap_file_032 :: "filemap_args option test_case" where "mmap_file_032 = tc_alias 32 mmap_file_000"
definition mmap_file_033 :: "filemap_args option test_case" where "mmap_file_033 = tc_alias 33 mmap_file_000"
definition mmap_file_034 :: "filemap_args option test_case" where "mmap_file_034 = tc_alias 34 mmap_file_000"
definition mmap_file_035 :: "filemap_args option test_case" where "mmap_file_035 = tc_alias 35 mmap_file_000"
definition mmap_file_036 :: "filemap_args option test_case" where "mmap_file_036 = tc_alias 36 mmap_file_000"
definition mmap_file_037 :: "filemap_args option test_case" where "mmap_file_037 = tc_alias 37 mmap_file_000"
definition mmap_file_038 :: "filemap_args option test_case" where "mmap_file_038 = tc_alias 38 mmap_file_000"
definition mmap_file_039 :: "filemap_args option test_case" where "mmap_file_039 = tc_alias 39 mmap_file_000"
definition mmap_file_040 :: "filemap_args option test_case" where "mmap_file_040 = tc_alias 40 mmap_file_000"
definition mmap_file_041 :: "filemap_args option test_case" where "mmap_file_041 = tc_alias 41 mmap_file_000"
definition mmap_file_042 :: "filemap_args option test_case" where "mmap_file_042 = tc_alias 42 mmap_file_000"
definition mmap_file_043 :: "filemap_args option test_case" where "mmap_file_043 = tc_alias 43 mmap_file_000"
definition mmap_file_044 :: "filemap_args option test_case" where "mmap_file_044 = tc_alias 44 mmap_file_000"
definition mmap_file_045 :: "filemap_args option test_case" where "mmap_file_045 = tc_alias 45 mmap_file_000"
definition mmap_file_046 :: "filemap_args option test_case" where "mmap_file_046 = tc_alias 46 mmap_file_000"
definition mmap_file_047 :: "filemap_args option test_case" where "mmap_file_047 = tc_alias 47 mmap_file_000"
definition mmap_file_048 :: "filemap_args option test_case" where "mmap_file_048 = tc_alias 48 mmap_file_000"

definition mmap_file_cases :: "filemap_args option test_case list" where
  "mmap_file_cases =
     [mmap_file_000, mmap_file_001, mmap_file_002, mmap_file_003, mmap_file_004, mmap_file_005, mmap_file_006,
      mmap_file_007, mmap_file_008, mmap_file_009, mmap_file_010, mmap_file_011, mmap_file_012, mmap_file_013,
      mmap_file_014, mmap_file_015, mmap_file_016, mmap_file_017, mmap_file_018, mmap_file_019, mmap_file_020,
      mmap_file_021, mmap_file_022, mmap_file_023, mmap_file_024, mmap_file_025, mmap_file_026, mmap_file_027,
      mmap_file_028, mmap_file_029, mmap_file_030, mmap_file_031, mmap_file_032, mmap_file_033, mmap_file_034,
      mmap_file_035, mmap_file_036, mmap_file_037, mmap_file_038, mmap_file_039, mmap_file_040, mmap_file_041,
      mmap_file_042, mmap_file_043, mmap_file_044, mmap_file_045, mmap_file_046, mmap_file_047, mmap_file_048]"

lemmas mmap_file_defs = tc_alias_def mmap_file_000_def
  mmap_file_001_def mmap_file_002_def mmap_file_003_def mmap_file_004_def mmap_file_005_def mmap_file_006_def
  mmap_file_007_def mmap_file_008_def mmap_file_009_def mmap_file_010_def mmap_file_011_def mmap_file_012_def
  mmap_file_013_def mmap_file_014_def mmap_file_015_def mmap_file_016_def mmap_file_017_def mmap_file_018_def
  mmap_file_019_def mmap_file_020_def mmap_file_021_def mmap_file_022_def mmap_file_023_def mmap_file_024_def
  mmap_file_025_def mmap_file_026_def mmap_file_027_def mmap_file_028_def mmap_file_029_def mmap_file_030_def
  mmap_file_031_def mmap_file_032_def mmap_file_033_def mmap_file_034_def mmap_file_035_def mmap_file_036_def
  mmap_file_037_def mmap_file_038_def mmap_file_039_def mmap_file_040_def mmap_file_041_def mmap_file_042_def
  mmap_file_043_def mmap_file_044_def mmap_file_045_def mmap_file_046_def mmap_file_047_def mmap_file_048_def

subsection \<open>The suites mmap_populate and mmap_locked\<close>

definition map_whole_file :: "int \<Rightarrow> int \<Rightarrow> filemap_args option \<Rightarrow> verdict prog" where
  "map_whole_file mmap_flags tc_num tc_arg =
     with_file tc_arg ''invalid -f option.'' (\<lambda>file.
       tp_assert (0 \<le> tc_num) ''invalid tp number.'' (
       sys_int (File (Open file O_RDWR)) (\<lambda>fd.
       tp_assert (fd \<noteq> - 1) ''file open error.'' (
       sys_out (File (Stat file)) [OInt 0] (\<lambda>status sbuf.
       tp_assert (status \<noteq> - 1) ''stat error.'' (
       sys_ptr (Mem (Mmap 0 (oval_u64 (hd sbuf)) (PROT_READ OR PROT_WRITE) mmap_flags fd 0)) (\<lambda>addr.
       tp_assert (addr \<noteq> - 1) ''mmap error.'' (
       sys_int (Mem (Munmap addr (oval_u64 (hd sbuf)))) (\<lambda>status.
       tp_assert (status \<noteq> - 1) ''munmap error.'' (
       sys_int (File (Close fd)) (\<lambda>_.
       Return None)))))))))))"

definition mmap_populate_run :: "int \<Rightarrow> filemap_args option \<Rightarrow> verdict prog" where
  "mmap_populate_run = map_whole_file (MAP_PRIVATE OR MAP_POPULATE)"

definition mmap_locked_run :: "int \<Rightarrow> filemap_args option \<Rightarrow> verdict prog" where
  "mmap_locked_run = map_whole_file (MAP_PRIVATE OR MAP_LOCKED OR MAP_ANONYMOUS)"

definition mmap_populate_case :: "filemap_args option test_case" where
  "mmap_populate_case =
     \<lparr>test_suite = ''mmap_populate'', num = 0, tc_setup = (\<lambda>tc_num tc_argv. mmap_populate_parse_args tc_argv),
      tc_run = mmap_populate_run, tc_teardown = TEARDOWN_EMPTY\<rparr>"

definition mmap_locked_case :: "filemap_args option test_case" where
  "mmap_locked_case =
     \<lparr>test_suite = ''mmap_locked'', num = 0, tc_setup = (\<lambda>tc_num tc_argv. mmap_locked_parse_args tc_argv),
      tc_run = mmap_locked_run, tc_teardown = TEARDOWN_EMPTY\<rparr>"

subsection \<open>What the cases answer\<close>

definition cb_writes :: "filemap_cb \<Rightarrow> bool" where
  "cb_writes cb \<longleftrightarrow> cb \<noteq> Cb_read"

text \<open>Whether the access of a case faults: every one reads, and some write.\<close>

definition cb_faults :: "(int \<Rightarrow> bool) \<Rightarrow> int \<Rightarrow> filemap_cb \<Rightarrow> bool" where
  "cb_faults rd pr cb \<longleftrightarrow> \<not> rd pr \<or> (cb_writes cb \<and> pr AND PROT_WRITE = 0)"

definition with_file_contents :: "string \<Rightarrow> string \<Rightarrow> mm \<Rightarrow> mm" where
  "with_file_contents path c m = m\<lparr>mm_fs := (mm_fs m)\<lparr>files := (files (mm_fs m))(path \<mapsto> c)\<rparr>\<rparr>"

lemma with_file_contents_simps [simp]:
  "mm_devs (with_file_contents path c m) = mm_devs m" "mm_cells (with_file_contents path c m) = mm_cells m"
  "files (mm_fs (with_file_contents path c m)) = (files (mm_fs m))(path \<mapsto> c)" "fds (mm_fs (with_file_contents path c m)) = fds (mm_fs m)"
  by (simp_all add: with_file_contents_def)

text \<open>The file with its first byte \<^verbatim>\<open>Z\<close> after a write through a shared mapping, else as it was.\<close>

definition file_after :: "int \<Rightarrow> filemap_cb \<Rightarrow> string \<Rightarrow> string" where
  "file_after fl cb c = (if cb_writes cb \<and> mmap_shared fl then c[0 := CHR ''Z''] else c)"

definition filemap_outcome :: "(int \<Rightarrow> bool) \<Rightarrow> mm \<Rightarrow> string \<Rightarrow> string \<Rightarrow> int \<Rightarrow> int \<Rightarrow> int \<Rightarrow> filemap_cb \<Rightarrow>
    verdict outcome \<Rightarrow> mm \<Rightarrow> bool" where
  "filemap_outcome rd m path c md pr fl cb r m' \<longleftrightarrow>
     (case r of
        Returned None \<Rightarrow> \<not> mmap_denied md pr fl \<and> \<not> cb_faults rd pr cb \<and> m' = with_file_contents path (file_after fl cb c) m
      | Returned (Some msg) \<Rightarrow> msg \<in> {''file open error.'', ''stat error.'', ''mmap error.''} \<or>
          (msg = ''munmap error.'' \<and> \<not> mmap_denied md pr fl \<and> \<not> cb_faults rd pr cb)
      | Killed sg \<Rightarrow> sg = SIGSEGV \<and> \<not> mmap_denied md pr fl \<and> cb_faults rd pr cb
      | _ \<Rightarrow> False)"

subsection \<open>Around the access\<close>

text \<open>A whole file in a fresh mapping.\<close>

definition file_map :: "int \<Rightarrow> bool \<Rightarrow> string \<Rightarrow> u64 \<Rightarrow> nat \<Rightarrow> mm \<Rightarrow> mm" where
  "file_map pr sh path b n m = map_cells b n (obj_cells pr sh path b 0) m"

lemma file_map_fields [simp]:
  "mm_fs (file_map pr sh path b n m) = mm_fs m" "mm_devs (file_map pr sh path b n m) = mm_devs m"
  by (simp_all add: file_map_def map_cells_def)

lemma st_size_word:
  assumes "length c < 2 ^ 63"
  shows "oval_u64 (hd [OInt (int (length c))]) = of_nat (length c)" "unat (of_nat (length c) :: u64) = length c"
proof -
  show "unat (of_nat (length c) :: u64) = length c" using assms by (simp add: unsigned_of_nat take_bit_nat_eq_self)
qed simp

lemma opened_there [simp]: "obj_there m path \<Longrightarrow> files (mm_fs (opened fd path fl m)) = files (mm_fs m)"
  "fds (mm_fs (opened fd path fl m)) = (fds (mm_fs m))(fd \<mapsto> (path, 0, fl AND 3))"
  by (simp_all add: opened_def)

lemma runs_open_stat:
  assumes K: "conforms_map K view rd ioc"
    and f: "mm_devs (view (kst p)) path = None" "files (mm_fs (view (kst p))) path = Some c"
    and e: "\<And>msg p'. msg \<in> {''file open error.'', ''stat error.''} \<Longrightarrow> Q (Returned (Some msg)) p'"
    and k: "\<And>p' fd. disp p' = disp p \<Longrightarrow> fds (mm_fs (view (kst p))) fd = None \<Longrightarrow>
      view (kst p') = opened fd path ofl (view (kst p)) \<Longrightarrow> runs K (k fd [OInt (int (length c))]) p' Q"
  shows "runs K (sys_int (File (Open path ofl)) (\<lambda>fd.
          tp_assert (fd \<noteq> - 1) ''file open error.'' (
          sys_out (File (Stat path)) [OInt 0] (\<lambda>status sbuf.
          tp_assert (status \<noteq> - 1) ''stat error.'' (k fd sbuf))))) p Q"
proof (rule runs_open [OF K], goal_cases)
  case (1 er s')
  show ?case by (intro runs_tp_assert) (simp_all add: e)
next
  case (2 fd s')
  note op = 2
  have there: "obj_there (view (kst p)) path" using f by (simp add: obj_there_def)
  show ?case
  proof (intro runs_tp_assert, goal_cases)
    case 1
    show ?case
    proof (rule runs_stat [OF K, where c = c], goal_cases)
      case (3 er s'')
      show ?case by (intro runs_tp_assert) (simp_all add: e)
    next
      case (4 s'')
      then show ?case using op by (intro runs_tp_assert k) (simp_all add: e)
    qed (use op there f in simp_all)
  qed (use op in simp)
qed

lemma st_size_pos:
  assumes "0 < length c" "length c < 2 ^ 63"
  shows "0 < (of_nat (length c) :: u64)"
  using assms st_size_word(2) [OF assms(2)] by (metis unat_gt_0 word_neq_0_conv gr0I)

lemma runs_map_file:
  assumes K: "conforms_map K view rd ioc"
    and f: "mm_devs (view (kst p)) path = None" "files (mm_fs (view (kst p))) path = Some c" "0 < length c" "length c < 2 ^ 63"
    and fl: "\<not> mmap_fixed fl" "\<not> mmap_anonymous fl"
    and e: "\<And>msg p'. msg \<in> {''file open error.'', ''stat error.'', ''mmap error.''} \<Longrightarrow> Q (Returned (Some msg)) p'"
    and k: "\<And>p' fd b. disp p' = disp p \<Longrightarrow> fds (mm_fs (view (kst p))) fd = None \<Longrightarrow> \<not> mmap_denied (ofl AND 3) pr fl \<Longrightarrow>
      room (view (kst p)) b (pg_up (length c)) \<Longrightarrow>
      view (kst p') = file_map pr (mmap_shared fl) path b (pg_up (length c)) (opened fd path ofl (view (kst p))) \<Longrightarrow>
      runs K (k fd [OInt (int (length c))] b) p' Q"
  shows "runs K (sys_int (File (Open path ofl)) (\<lambda>fd.
          tp_assert (fd \<noteq> - 1) ''file open error.'' (
          sys_out (File (Stat path)) [OInt 0] (\<lambda>status sbuf.
          tp_assert (status \<noteq> - 1) ''stat error.'' (
          sys_ptr (Mem (Mmap 0 (oval_u64 (hd sbuf)) pr fl fd 0)) (\<lambda>data.
          tp_assert (data \<noteq> - 1) ''mmap error.'' (k fd sbuf data))))))) p Q"
proof (rule runs_open_stat [OF K f(1,2)], goal_cases)
  case (2 p1 fd)
  note p1 = 2
  show ?case unfolding st_size_word(1) [OF f(4)]
  proof (rule runs_mmap_obj [OF K fl st_size_pos [OF f(3,4)], where path = path and pos = 0 and md = "ofl AND 3"], goal_cases)
    case (3 er s3)
    show ?case by (intro runs_tp_assert) (simp_all add: e)
  next
    case (4 b s3)
    then have b: "room (view (kst p)) b (pg_up (length c))" by (simp add: st_size_word(2) [OF f(4)] room_def p1)
    show ?case
    proof (intro runs_tp_assert k, goal_cases)
      case 5
      then show ?case using \<open>view s3 = _\<close> by (simp add: file_map_def st_size_word(2) [OF f(4)] p1)
    next
      case 6
      then show ?case using roomD(3) [OF b] by simp
    qed (use p1 b 4 in simp_all)
  qed (use p1 in \<open>simp_all add: page_aligned_def\<close>)
qed (auto intro: e)

text \<open>The same with anonymous memory of the size of the file.\<close>

lemma runs_map_anon:
  assumes K: "conforms_map K view rd ioc"
    and f: "mm_devs (view (kst p)) path = None" "files (mm_fs (view (kst p))) path = Some c" "0 < length c" "length c < 2 ^ 63"
    and fl: "\<not> mmap_fixed fl" "mmap_anonymous fl" "\<not> mmap_shared fl"
    and e: "\<And>msg p'. msg \<in> {''file open error.'', ''stat error.'', ''mmap error.''} \<Longrightarrow> Q (Returned (Some msg)) p'"
    and k: "\<And>p' fd b. fds (mm_fs (view (kst p))) fd = None \<Longrightarrow> room (view (kst p)) b (pg_up (length c)) \<Longrightarrow>
      view (kst p') = map_cells b (pg_up (length c)) (\<lambda>_. Some \<lparr>mprot = pr, msrc = Own 0\<rparr>) (opened fd path ofl (view (kst p))) \<Longrightarrow>
      runs K (k fd [OInt (int (length c))] b) p' Q"
  shows "runs K (sys_int (File (Open path ofl)) (\<lambda>fd.
          tp_assert (fd \<noteq> - 1) ''file open error.'' (
          sys_out (File (Stat path)) [OInt 0] (\<lambda>status sbuf.
          tp_assert (status \<noteq> - 1) ''stat error.'' (
          sys_ptr (Mem (Mmap 0 (oval_u64 (hd sbuf)) pr fl fd 0)) (\<lambda>data.
          tp_assert (data \<noteq> - 1) ''mmap error.'' (k fd sbuf data))))))) p Q"
proof (rule runs_open_stat [OF K f(1,2)], goal_cases)
  case (2 p1 fd)
  note p1 = 2
  show ?case unfolding st_size_word(1) [OF f(4)]
  proof (rule runs_mmap_anon [OF K fl st_size_pos [OF f(3,4)]], goal_cases)
    case (2 er s3)
    show ?case by (intro runs_tp_assert) (simp_all add: e)
  next
    case (3 b s3)
    then have b: "room (view (kst p)) b (pg_up (length c))" by (simp add: st_size_word(2) [OF f(4)] room_def p1)
    show ?case
    proof (intro runs_tp_assert k, goal_cases)
      case 3
      then show ?case using \<open>view s3 = _\<close> by (simp add: st_size_word(2) [OF f(4)] p1)
    next
      case 4
      then show ?case using roomD(3) [OF b] by simp
    qed (use p1 b in simp_all)
  qed (simp add: page_aligned_def)
qed (auto intro: e)

text \<open>What is left after the access, outside the mapping.\<close>

definition accessed :: "u64 \<Rightarrow> nat \<Rightarrow> mm \<Rightarrow> mm \<Rightarrow> bool" where
  "accessed b n m m' \<longleftrightarrow> mm_fs m' = mm_fs m \<and> mm_devs m' = mm_devs m \<and> (\<forall>x. \<not> inr b n x \<longrightarrow> mm_cells m' x = mm_cells m x)"

lemma accessed_unmap:
  assumes "accessed b n m m'" "unmapped (mm_cells m) b n"
  shows "map_cells b n (\<lambda>_. None) m' = m"
  using assms by (intro mm.equality) (auto simp: accessed_def map_cells_def map_range_def unmapped_def fun_eq_iff)

text \<open>A file that is there and a range of pages it is mapped at.\<close>

definition file_at :: "string \<Rightarrow> string \<Rightarrow> u64 \<Rightarrow> nat \<Rightarrow> mm \<Rightarrow> bool" where
  "file_at path c b n m \<longleftrightarrow> mm_devs m path = None \<and> files (mm_fs m) path = Some c \<and> 0 < length c \<and>
     page_aligned b \<and> n mod 4096 = 0 \<and> fits b n \<and> 0 < n"

lemma file_atD:
  assumes "file_at path c b n m"
  shows "mm_devs m path = None" "files (mm_fs m) path = Some c" "0 < length c" "page_aligned b" "n mod 4096 = 0" "fits b n" "inr b n b"
  using assms by (simp_all add: file_at_def inr_def)

lemma first_cell:
  assumes "file_at path c b n m"
  shows "vis (file_map pr sh path b n m) b = Some (byte_of (c ! 0))" "there_at (file_map pr sh path b n m) b"
    "prot_at (file_map pr sh path b n m) b = Some pr"
    "shared_at (file_map pr sh path b n m) b = (if sh then Some (path, 0) else None)"
    "store_defined b (file_map pr sh path b n m)"
  using file_atD [OF assms]
  by (simp_all add: vis_def there_at_def prot_at_def shared_at_def store_defined_def file_map_def map_cells_def map_range_def
    obj_cells_def cell_byte_def obj_byte_def file_byte_def cell_there_def obj_there_def split: bool.splits)

lemma runs_read_first:
  assumes K: "conforms_map K view rd ioc" and fm: "file_at path c b n m"
    and p: "view (kst p) = file_map pr sh path b n m"
    and bad: "\<not> rd pr \<Longrightarrow> Q (fault SIGSEGV p) p"
    and ok: "\<And>s'. rd pr \<Longrightarrow> view s' = file_map pr sh path b n m \<Longrightarrow> runs K (k (byte_of (c ! 0))) (p\<lparr>kst := s'\<rparr>) Q"
  shows "runs K (Load b k) p Q"
proof (cases "rd pr")
  case True
  then show ?thesis
    using ok p by (intro runs_load_vis [OF K, of _ b "byte_of (c ! 0)" pr]) (simp_all add: first_cell [OF fm])
next
  case False
  then show ?thesis
    using bad p by (intro runs_load_segv [OF K, of _ b pr]) (simp_all add: first_cell [OF fm])
qed

definition written :: "bool \<Rightarrow> string \<Rightarrow> string \<Rightarrow> mm \<Rightarrow> mm" where
  "written sh path c m = (if sh then with_file_contents path (c[0 := CHR ''Z'']) m else m)"

lemma Z_byte: "char_byte 0x5A = CHR ''Z''" "byte_of (CHR ''Z'') = 0x5A"
  by (simp_all add: char_byte_def byte_of_def char_of_def bit_iff_odd)

lemma runs_write_read_first:
  assumes K: "conforms_map K view rd ioc" and fm: "file_at path c b n m"
    and p: "view (kst p) = file_map pr sh path b n m"
    and bad: "\<And>s'. \<not> rd pr \<or> pr AND PROT_WRITE = 0 \<Longrightarrow> Q (fault SIGSEGV p) (p\<lparr>kst := s'\<rparr>)"
    and ok: "\<And>s'. rd pr \<Longrightarrow> pr AND PROT_WRITE \<noteq> 0 \<Longrightarrow> accessed b n (written sh path c m) (view s') \<Longrightarrow> runs K (k 0x5A) (p\<lparr>kst := s'\<rparr>) Q"
  shows "runs K (Store b 0x5A (Load b k)) p Q"
proof -
  note cell = first_cell [OF fm]
  have load: "runs K (Load b k) (p\<lparr>kst := s'\<rparr>) Q"
    if "accessed b n (written sh path c m) (view s')" "there_at (view s') b" "vis (view s') b = Some 0x5A" "prot_at (view s') b = Some pr"
      "pr AND PROT_WRITE \<noteq> 0" for s'
  proof (cases "rd pr")
    case True
    then show ?thesis using that ok by (intro runs_load_vis [OF K, of _ b "0x5A" pr]) simp_all
  next
    case False
    then show ?thesis using that bad [of s'] by (intro runs_load_segv [OF K, of _ b pr]) simp_all
  qed
  consider (segv) "pr AND PROT_WRITE = 0" | (shared) "pr AND PROT_WRITE \<noteq> 0" "sh" | (priv) "pr AND PROT_WRITE \<noteq> 0" "\<not> sh" by blast
  then show ?thesis
  proof cases
    case segv
    obtain e where "mm_cells (file_map pr sh path b n m) b = Some e" "mprot e = pr"
      using cell(3) by (auto simp: prot_at_def)
    with segv show ?thesis using bad [of "kst p"] by (intro runs_store_segv [OF K]) (auto simp: p cell)
  next
    case shared
    show ?thesis
    proof (rule runs_store_shared_file [OF K, where path = path and off = 0 and c = c and pr = pr])
      fix s' assume "view s' = (view (kst p))\<lparr>mm_fs := (mm_fs (view (kst p)))
        \<lparr>files := (files (mm_fs (view (kst p))))(path \<mapsto> c[0 := char_byte 0x5A])\<rparr>\<rparr>"
      then have s': "view s' = file_map pr sh path b n (written sh path c m)"
        using shared by (simp add: p written_def with_file_contents_def Z_byte file_map_def map_cells_def)
      have w: "file_at path (c[0 := CHR ''Z'']) b n (written sh path c m)"
        using fm shared by (simp add: written_def file_at_def)
      show "runs K (Load b k) (p\<lparr>kst := s'\<rparr>) Q"
        by (rule load) (use first_cell [OF w] shared file_atD(3) [OF fm] in
          \<open>simp_all add: s' Z_byte accessed_def file_map_def map_cells_def map_range_def\<close>)
    qed (use p cell shared file_atD [OF fm] in simp_all)
  next
    case priv
    obtain e where e: "mm_cells (file_map pr sh path b n m) b = Some e" using cell(2) [of pr sh] by (auto simp: there_at_def split: option.splits)
    have s: "shared_at (file_map pr sh path b n m) b = None" using cell priv by simp
    show ?thesis
    proof (rule runs_store_private [OF K, where pr = pr])
      fix s' assume s': "view s' = mm_store b 0x5A (view (kst p))"
      have "\<not> same_page x b" if "\<not> inr b n x" for x using inr_same_page [OF file_atD(4-7) [OF fm]] that by blast
      then have "accessed b n (written sh path c m) (view s')"
        using mm_store_fields [OF s] priv
        by (auto simp: s' p accessed_def written_def file_map_def map_cells_def map_range_def)
      then show "runs K (Load b k) (p\<lparr>kst := s'\<rparr>) Q"
        by (rule load) (use mm_store_private [OF s e] cell priv in \<open>simp_all add: s' p\<close>)
    qed (use p cell priv in simp_all)
  qed
qed

lemma file_mapped: "accessed b n m (file_map pr sh path b n m)"
  by (simp add: accessed_def file_map_def map_cells_def map_range_def)

lemma runs_cb:
  assumes K: "conforms_map K view rd ioc" and fm: "file_at path c b n m"
    and p: "view (kst p) = file_map pr sh path b n m" "disp p SIGSEGV = SIG_DFL"
    and bad: "\<And>p'. cb_faults rd pr cb \<Longrightarrow> Q (Killed SIGSEGV) p'"
    and ok: "\<And>p'. \<not> cb_faults rd pr cb \<Longrightarrow> accessed b n (if cb_writes cb then (written sh path c m) else m) (view (kst p')) \<Longrightarrow> runs K k p' Q"
  shows "runs K (call (filemap_cb_fn cb b sz) (\<lambda>_. k)) p Q"
proof (cases cb)
    case Cb_read
    show ?thesis unfolding Cb_read filemap_cb_fn.simps filemap_cb_read_def call.simps
    proof (rule runs_read_first [OF K fm p(1)], goal_cases)
      case 1
      then show ?case using bad p(2) Cb_read by (simp add: cb_faults_def fault_def)
    next
      case (2 s')
      then show ?case using file_mapped Cb_read
        by (intro runs_Fprintf ok) (simp_all add: cb_faults_def cb_writes_def)
    qed
  next
    case Cb_write
    show ?thesis unfolding Cb_write filemap_cb_fn.simps filemap_cb_write_def call.simps
    proof (rule runs_write_read_first [OF K fm p(1)], goal_cases)
      case (1 s')
      then show ?case using bad p(2) Cb_write by (auto simp: cb_faults_def cb_writes_def fault_def)
    next
      case (2 s')
      then show ?case using Cb_write by (intro runs_Fprintf ok) (simp_all add: cb_faults_def cb_writes_def)
    qed
  next
    case Cb_read_write
    show ?thesis unfolding Cb_read_write filemap_cb_fn.simps filemap_cb_read_write_def filemap_cb_read_def filemap_cb_write_def call.simps
    proof (rule runs_read_first [OF K fm p(1)], goal_cases)
      case 1
      then show ?case using bad p(2) Cb_read_write by (simp add: cb_faults_def fault_def)
    next
      case (2 s')
      show ?case
      proof (rule runs_Fprintf, rule runs_write_read_first [OF K fm, where pr = pr and sh = sh], goal_cases)
        case 1
        then show ?case using 2 by simp
      next
        case (2 s'')
        then show ?case using bad p(2) Cb_read_write by (auto simp: cb_faults_def cb_writes_def fault_def)
      next
        case (3 s'')
        then show ?case using Cb_read_write by (intro runs_Fprintf ok) (simp_all add: cb_faults_def cb_writes_def)
      qed
    qed
  qed

lemma runs_unmap_close:
  assumes K: "conforms_map K view rd ioc" and b: "page_aligned b" "0 < sz" "fits b n" "n = pg_up (unat sz)" "unmapped (mm_cells m) b n"
    and p: "accessed b n m (view (kst p))" and fd: "fds (mm_fs m) fd \<noteq> None"
    and e: "\<And>p'. Q (Returned (Some ''munmap error.'')) p'"
    and ok: "\<And>p'. view (kst p') = m\<lparr>mm_fs := (mm_fs m)\<lparr>fds := (fds (mm_fs m))(fd := None)\<rparr>\<rparr> \<Longrightarrow> Q (Returned None) p'"
  shows "runs K (sys_int (Mem (Munmap b sz)) (\<lambda>status. tp_assert (status \<noteq> - 1) ''munmap error.'' (
       sys_int (File (Close fd)) (\<lambda>_. Return None)))) p Q"
proof (rule runs_munmap [OF K b(1,2)], goal_cases)
  case 1
  then show ?case using b by simp
next
  case (2 er s')
  show ?case by (intro runs_tp_assert) (simp_all add: e)
next
  case (3 s')
  then have s': "view s' = m" using accessed_unmap [OF p b(5)] b(4) by simp
  show ?case
  proof (intro runs_tp_assert runs_close [OF K], goal_cases)
    case (2 s'')
    then show ?case by (intro runs_Return ok) (simp add: s')
  qed (use fd in \<open>simp_all add: s'\<close>)
qed

lemma close_after_open:
  assumes "fds (mm_fs m) fd = None" "obj_there m path"
  shows "(with_file_contents path c (opened fd path fl m))\<lparr>mm_fs := (mm_fs (with_file_contents path c (opened fd path fl m)))
     \<lparr>fds := (fds (mm_fs (with_file_contents path c (opened fd path fl m))))(fd := None)\<rparr>\<rparr> = with_file_contents path c m"
  using assms by (simp add: with_file_contents_def opened_def fun_upd_idem)

lemma with_file_contents_same: "files (mm_fs m) path = Some c \<Longrightarrow> with_file_contents path c m = m"
  by (simp add: with_file_contents_def fun_upd_idem)

lemma pg_up_pos: "0 < n \<Longrightarrow> 0 < pg_up n"
  using pg_up_ge [of n] by simp

lemma filemap_do_map_outcome:
  assumes K: "conforms_map K view rd ioc"
    and f: "mm_devs (view (kst p)) path = None" "files (mm_fs (view (kst p))) path = Some c" "0 < length c" "length c < 2 ^ 63"
    and fl: "\<not> mmap_fixed fl" "\<not> mmap_anonymous fl" and p: "disp p SIGSEGV = SIG_DFL"
  shows "runs K (filemap_do_map (Some path) ofl pr fl (filemap_cb_fn cb)) p (\<lambda>r p'.
    filemap_outcome rd (view (kst p)) path c (ofl AND 3) pr fl cb r (view (kst p')))"
  unfolding filemap_do_map_def option.case
proof (rule runs_map_file [OF K f fl], goal_cases)
  case (1 msg p')
  then show ?case by (auto simp: filemap_outcome_def)
next
  case (2 p1 fd b)
  let ?m = "opened fd path ofl (view (kst p))" and ?n = "pg_up (length c)"
  let ?w = "with_file_contents path (file_after fl cb c) ?m"
  have there: "obj_there (view (kst p)) path" using f by (simp add: obj_there_def)
  note b = roomD [OF 2(4)] and sz = st_size_word [OF f(4)]
  have at: "file_at path c b ?n ?m"
    using f there b pg_up_pos [OF f(3)] by (simp add: file_at_def pg_up_dvd)
  have w: "(if cb_writes cb then written (mmap_shared fl) path c ?m else ?m) = ?w"
    using with_file_contents_same [of ?m path c] f there by (simp add: written_def file_after_def)
  show ?case unfolding sz(1)
  proof (rule runs_cb [OF K at 2(5)], goal_cases)
    case (2 p2)
    then show ?case using \<open>\<not> mmap_denied _ _ _\<close> by (simp add: filemap_outcome_def)
  next
    case (3 p2)
    note nf = 3(1) and acc = 3(2) [unfolded w]
    show ?case
    proof (rule runs_unmap_close [OF K b(1) _ b(4) _ _ acc], goal_cases)
      case 1
      show ?case by (rule st_size_pos [OF f(3,4)])
    next
      case (6 p3)
      then show ?case
        using nf \<open>\<not> mmap_denied _ _ _\<close> close_after_open [OF \<open>fds _ fd = None\<close> there, of "file_after fl cb c" ofl]
        by (simp add: filemap_outcome_def)
    qed (use b nf \<open>\<not> mmap_denied _ _ _\<close> in \<open>simp_all add: sz filemap_outcome_def\<close>)
  qed (use 2 p in simp)
qed

lemma mmap_file_case_run: "tc \<in> set mmap_file_cases \<Longrightarrow> tc_run tc = mmap_file_run"
  by (auto simp: mmap_file_cases_def mmap_file_defs)

lemma filemap_row:
  assumes "(n, ofl, pr, fl, cb) \<in> set filemap_params"
  shows "map_of filemap_params n = Some (ofl, pr, fl, cb)" "n \<noteq> int (length filemap_params)" "0 \<le> n" "n < 49"
    "\<not> mmap_fixed fl" "\<not> mmap_anonymous fl" "ofl AND 3 = ofl"
proof -
  show "map_of filemap_params n = Some (ofl, pr, fl, cb)"
    using assms by (intro map_of_is_SomeI) (simp_all add: filemap_params_def)
  have "list_all (\<lambda>(n, ofl, pr, fl, cb). n \<noteq> 49 \<and> 0 \<le> n \<and> n < 49 \<and> \<not> mmap_fixed fl \<and> \<not> mmap_anonymous fl \<and> ofl AND 3 = ofl) filemap_params"
    by (simp add: filemap_params_def mmap_flags)
  then show "n \<noteq> int (length filemap_params)" "0 \<le> n" "n < 49"
    "\<not> mmap_fixed fl" "\<not> mmap_anonymous fl" "ofl AND 3 = ofl"
    using assms by (auto simp: list_all_iff filemap_params_def)
qed






end
