(* ===== verification/Case_Table.thy ===== *)
theory Case_Table
  imports Mremap_Suite Cred_Suites Rlimit_Suites Sched_Suites Mem_Suites Filemap
begin

text \<open>
  The table \<^verbatim>\<open>test_cases\<close> of \<^verbatim>\<open>test_mck.c\<close> with the modelled cases. The generated list
  \<^verbatim>\<open>test_case.list\<close> names the functions of every case; what \<^verbatim>\<open>setup\<close> returns is a
  \<^verbatim>\<open>void*\<close>, here the sum of the argument types of the suites, and a case of one suite becomes
  an entry by \<^verbatim>\<open>erase\<close>, which does not change its run.
\<close>

subsection \<open>Entries\<close>

datatype void = V_null | V_unit "unit option" | V_mremap mremap_args
  | V_id1 "id1_args option" | V_id2 "id2_args option" | V_id3 "id3_args option"
  | V_dev "mmap_dev_args option" | V_file "filemap_args option" | V_pages "remap_file_pages_args option"

fun un_unit :: "void \<Rightarrow> unit option" where "un_unit (V_unit x) = x" | "un_unit _ = None"
fun un_mremap :: "void \<Rightarrow> mremap_args" where "un_mremap (V_mremap x) = x"
  | "un_mremap _ = \<lparr>text_arg = 0, text_len = 0, data_arg = 0, data_len = 0, bss_arg = 0, bss_len = 0\<rparr>"
fun un_id1 :: "void \<Rightarrow> id1_args option" where "un_id1 (V_id1 x) = x" | "un_id1 _ = None"
fun un_id2 :: "void \<Rightarrow> id2_args option" where "un_id2 (V_id2 x) = x" | "un_id2 _ = None"
fun un_id3 :: "void \<Rightarrow> id3_args option" where "un_id3 (V_id3 x) = x" | "un_id3 _ = None"
fun un_dev :: "void \<Rightarrow> mmap_dev_args option" where "un_dev (V_dev x) = x" | "un_dev _ = None"
fun un_file :: "void \<Rightarrow> filemap_args option" where "un_file (V_file x) = x" | "un_file _ = None"
fun un_pages :: "void \<Rightarrow> remap_file_pages_args option" where "un_pages (V_pages x) = x" | "un_pages _ = None"

text \<open>A case whose argument type is one of the sum.\<close>

definition erase :: "('a \<Rightarrow> void) \<Rightarrow> (void \<Rightarrow> 'a) \<Rightarrow> 'a test_case \<Rightarrow> void test_case" where
  "erase up down tc =
     \<lparr>test_suite = test_suite tc, num = num tc,
      tc_setup = (\<lambda>n argv. call (tc_setup tc n argv) (\<lambda>a. Return (up a))),
      tc_run = (\<lambda>n v. tc_run tc n (down v)),
      tc_teardown = (\<lambda>n v. tc_teardown tc n (down v))\<rparr>"

lemma run_test_case_erase:
  "(\<And>x. down (up x) = x) \<Longrightarrow> run_test_case (erase up down tc) argv = run_test_case tc argv"
  by (simp add: run_test_case_def erase_def call_assoc)

lemma erase_key [simp]: "test_suite (erase up down tc) = test_suite tc" "num (erase up down tc) = num tc"
  by (simp_all add: erase_def)

subsection \<open>The table\<close>

text \<open>The uninitialised variables of \<^verbatim>\<open>getrlimit\<close> case 17 are parameters.\<close>

definition test_cases :: "u64 \<Rightarrow> u64 \<Rightarrow> void test_case list" where
  "test_cases cur mx =
     map (erase V_mremap un_mremap) mremap_mmap_anon_cases @
     map (erase V_id1 un_id1) [getuid_case, geteuid_case, setuid_case, setfsuid_case,
       getgid_case, getegid_case, setgid_case, setfsgid_case] @
     map (erase V_id2 un_id2) [setreuid_case, setregid_case] @
     map (erase V_id3 un_id3) [setresuid_case, getresuid_case, setresgid_case, getresgid_case] @
     map (erase V_dev un_dev) mmap_dev_cases @
     map (erase V_file un_file) (mmap_file_cases @ [mmap_populate_case, mmap_locked_case]) @
     erase V_pages un_pages remap_file_pages_000 #
     map (erase V_unit un_unit) (mprotect_cases @ getrlimit_cases cur mx @ setrlimit_cases @ sched_cases)"

definition key :: "'a test_case \<Rightarrow> string \<times> int" where "key tc = (test_suite tc, num tc)"

lemma key_erase: "key \<circ> erase up down = key" by (auto simp: key_def)

lemmas cred_case_defs = getuid_case_def geteuid_case_def setuid_case_def setfsuid_case_def getgid_case_def
  getegid_case_def setgid_case_def setfsgid_case_def setreuid_case_def setregid_case_def
  setresuid_case_def getresuid_case_def setresgid_case_def getresgid_case_def

text \<open>The same table by suite, which shows that no two cases have the same suite and number.\<close>

definition suite_keys :: "string \<times> int list \<Rightarrow> (string \<times> int) list" where
  "suite_keys t = map (Pair (fst t)) (snd t)"

lemma distinct_suite_keys:
  "distinct (map fst tab) \<Longrightarrow> list_all (\<lambda>t. distinct (snd t)) tab \<Longrightarrow> distinct (concat (map suite_keys tab))"
  by (induction tab) (auto simp: suite_keys_def distinct_map inj_on_def)

definition suite_table :: "u64 \<Rightarrow> u64 \<Rightarrow> (string \<times> int list) list" where
  "suite_table cur mx =
     (''mremap_mmap_anon'', map fst mremap_runs) #
     map (\<lambda>s. (s, [0])) [''getuid'', ''geteuid'', ''setuid'', ''setfsuid'', ''getgid'', ''getegid'', ''setgid'',
       ''setfsgid'', ''setreuid'', ''setregid'', ''setresuid'', ''getresuid'', ''setresgid'', ''getresgid''] @
     [(''mmap_dev'', map int [0..<3]), (''mmap_file'', map int [0..<49]), (''mmap_populate'', [0]), (''mmap_locked'', [0]),
      (''remap_file_pages'', [0]), (''mprotect'', map int [0..<8]),
      (''getrlimit'', map fst (getrlimit_runs cur mx)), (''setrlimit'', map fst setrlimit_runs),
      (''sched_setparam'', map fst sched_setparam_runs), (''sched_getparam'', map fst sched_getparam_runs),
      (''sched_setscheduler'', map fst sched_setscheduler_runs), (''sched_getscheduler'', map fst sched_getscheduler_runs),
      (''sched_get_priority_max'', map fst sched_get_priority_max_runs),
      (''sched_get_priority_min'', map fst sched_get_priority_min_runs),
      (''sched_rr_get_interval'', map fst sched_rr_get_interval_runs)]"

lemma keys_mem_suites:
  "map key mmap_dev_cases = suite_keys (''mmap_dev'', map int [0..<3])"
  "map key mmap_file_cases = suite_keys (''mmap_file'', map int [0..<49])"
  "map key mprotect_cases = suite_keys (''mprotect'', map int [0..<8])"
  by (simp_all add: suite_keys_def key_def upt_rec mmap_dev_cases_def mmap_dev_000_def mmap_dev_001_def mmap_dev_002_def
    mmap_dev_case_def mmap_file_cases_def mmap_file_defs mprotect_cases_def mprotect_case_def mprotect_000_def mprotect_001_def
    mprotect_002_def mprotect_003_def mprotect_004_def mprotect_005_def mprotect_006_def mprotect_007_def)

lemma keys_test_cases: "map key (test_cases cur mx) = concat (map suite_keys (suite_table cur mx))"
  by (simp add: test_cases_def suite_table_def suite_keys_def key_erase cred_case_defs key_def mremap_mmap_anon_cases_def
     getrlimit_cases_def setrlimit_cases_def sched_cases_def mremap_case_def rlimit_case_def sched_case_def comp_def
     keys_mem_suites [unfolded key_def [abs_def] suite_keys_def fst_conv snd_conv map_map comp_def] mmap_populate_case_def mmap_locked_case_def remap_file_pages_000_def)

lemma distinct_keys: "distinct (map key (test_cases cur mx))"
  unfolding keys_test_cases
proof (rule distinct_suite_keys)
  show "distinct (map fst (suite_table cur mx))"
    by (simp add: suite_table_def comp_def)
  show "list_all (\<lambda>t. distinct (snd t)) (suite_table cur mx)"
    by (simp add: suite_table_def mremap_runs_def getrlimit_runs_def setrlimit_runs_def sched_setparam_runs_def
      sched_getparam_runs_def sched_setscheduler_runs_def sched_getscheduler_runs_def
      sched_get_priority_max_runs_def sched_get_priority_min_runs_def sched_rr_get_interval_runs_def distinct_map list_all_iff)
qed

lemma nums_in_range: "tc \<in> set (test_cases cur mx) \<Longrightarrow> 0 \<le> num tc \<and> num tc < 1000"
proof -
  assume "tc \<in> set (test_cases cur mx)"
  then have "key tc \<in> set (map key (test_cases cur mx))" by simp
  moreover have "list_all (\<lambda>t. list_all (\<lambda>n. 0 \<le> n \<and> n < 1000) (snd t)) (suite_table cur mx)"
    by (simp add: suite_table_def mremap_runs_def getrlimit_runs_def setrlimit_runs_def sched_setparam_runs_def
      sched_getparam_runs_def sched_setscheduler_runs_def sched_getscheduler_runs_def
      sched_get_priority_max_runs_def sched_get_priority_min_runs_def sched_rr_get_interval_runs_def distinct_map list_all_iff)
  ultimately show ?thesis
    unfolding keys_test_cases by (force simp: key_def suite_keys_def list_all_iff)
qed

lemma find_in_table: "tc \<in> set (test_cases cur mx) \<Longrightarrow> find_test_case (test_cases cur mx) (test_suite tc) (num tc) = Some tc"
  using distinct_keys by (intro find_registered) (simp add: key_def [abs_def])

lemma main_table:
  assumes "tc \<in> set (test_cases cur mx)"
  shows "main suites (test_cases cur mx) (app # ''-s'' # test_suite tc # ''-n'' # dec_int (num tc) # ''--'' # args) =
    main_run tc (app # args)"
  using nums_in_range [OF assms] find_in_table [OF assms] by (simp add: main_canonical)

lemma exec_run_rlimit_case:
  "exec K (run_test_case (rlimit_case suite (n, run)) argv) p = exec K (run n None) p"
  by (simp add: run_test_case_def rlimit_case_def SETUP_EMPTY_def TEARDOWN_EMPTY_def exec_call split: prod.split outcome.split)

end
