(* ===== verification/Proc_Spec.thy ===== *)
theory Proc_Spec
  imports Clib
begin

text \<open>
  Several processes: what fork(2), wait(2), kill(2), ptrace(2), sem_overview(7) and signal(7)
  document, as a machine whose steps are those of the processes and the deliveries of signals. The
  choices that are the kernel's are its parameter: process numbers, places of mappings, what the
  memory of a program text holds, and every call this machine says nothing about.
\<close>

subsection \<open>The state of the kernel\<close>

text \<open>
  A stop is reported to the tracer once; a process that ended is there until it is waited for. Of the
  signal that stopped it, \<^verbatim>\<open>kp_info\<close> keeps number, error, code and address.
\<close>

datatype pstate = Running | Stopped int bool | Zombie int

record kproc =
  kp_parent :: int
  kp_tracer :: "int option"
  kp_state :: pstate
  kp_pending :: "int list"
  kp_info :: "int \<times> int \<times> int \<times> int"

text \<open>The processes in the order they were made, the semaphores, and the variables of each process.\<close>

record world =
  w_pids :: "int list"
  w_procs :: "int \<Rightarrow> kproc option"
  w_maps :: "u64 list"
  w_sems :: "u64 \<Rightarrow> nat"
  w_vars :: "int \<Rightarrow> string \<Rightarrow> u64"

record pkernel =
  pk_newpid :: "world \<Rightarrow> int option"
  pk_newmap :: "world \<Rightarrow> u64 option"
  pk_text :: "u64 \<Rightarrow> u64 option"
  pk_other :: "int \<Rightarrow> syscall \<Rightarrow> world \<Rightarrow> sysres \<times> world"

definition upd_proc :: "int \<Rightarrow> (kproc \<Rightarrow> kproc) \<Rightarrow> world \<Rightarrow> world" where
  "upd_proc t f w = w\<lparr>w_procs := (w_procs w)(t := map_option f (w_procs w t))\<rparr>"

subsection \<open>Status words\<close>

definition exit_status :: "int \<Rightarrow> int" where "exit_status n = (n AND 255) * 256"
definition stop_status :: "int \<Rightarrow> int" where "stop_status s = s * 256 + 127"

definition WIFSTOPPED :: "int \<Rightarrow> bool" where "WIFSTOPPED st \<longleftrightarrow> st AND 255 = 127"
definition WEXITSTATUS :: "int \<Rightarrow> int" where "WEXITSTATUS st = drop_bit 8 (st AND 0xff00)"
definition WSTOPSIG :: "int \<Rightarrow> int" where "WSTOPSIG st = WEXITSTATUS st"
definition WTERMSIG :: "int \<Rightarrow> int" where "WTERMSIG st = st AND 127"
definition WIFSIGNALED :: "int \<Rightarrow> bool" where "WIFSIGNALED st \<longleftrightarrow> st AND 127 \<noteq> 0 \<and> st AND 127 \<noteq> 127"

subsection \<open>Calls\<close>

text \<open>\<^verbatim>\<open>wait\<close> waits for children and tracees; of stops, it sees those of tracees.\<close>

definition waits_for :: "world \<Rightarrow> int \<Rightarrow> int \<Rightarrow> bool" where
  "waits_for w p c =
     (case w_procs w c of None \<Rightarrow> False | Some k \<Rightarrow> kp_parent k = p \<or> kp_tracer k = Some p)"

definition reports :: "world \<Rightarrow> int \<Rightarrow> int \<Rightarrow> int option" where
  "reports w p c =
     (if waits_for w p c
      then (case w_procs w c of
              Some k \<Rightarrow>
                (case kp_state k of
                   Zombie st \<Rightarrow> Some st
                 | Stopped s told \<Rightarrow> if \<not> told \<and> kp_tracer k = Some p then Some (stop_status s) else None
                 | Running \<Rightarrow> None)
            | None \<Rightarrow> None)
      else None)"

definition told :: "int \<Rightarrow> world \<Rightarrow> world" where
  "told c w =
     (case w_procs w c of
        Some k \<Rightarrow>
          (case kp_state k of
             Stopped s _ \<Rightarrow> upd_proc c (kp_state_update (\<lambda>_. Stopped s True)) w
           | _ \<Rightarrow> w\<lparr>w_procs := (w_procs w)(c := None)\<rparr>)
      | None \<Rightarrow> w)"

definition do_wait :: "int \<Rightarrow> world \<Rightarrow> (sysres \<times> world) option" where
  "do_wait p w =
     (if \<not> list_ex (waits_for w p) (w_pids w) then Some (SErr ECHILD, w)
      else (case find (\<lambda>c. reports w p c \<noteq> None) (w_pids w) of
              None \<Rightarrow> None
            | Some c \<Rightarrow> Some (SOk c [OInt (the (reports w p c))], told c w)))"

definition do_kill :: "int \<Rightarrow> int \<Rightarrow> world \<Rightarrow> sysres \<times> world" where
  "do_kill t sig w =
     (case w_procs w t of
        None \<Rightarrow> (SErr ESRCH, w)
      | Some k \<Rightarrow>
          (SOk 0 [], case kp_state k of
             Zombie _ \<Rightarrow> w
           | _ \<Rightarrow> upd_proc t (kp_pending_update (\<lambda>ss. ss @ [sig])) w))"

text \<open>The requests on a stopped tracee; an option that ptrace(2) does not list is refused.\<close>

definition ptrace_options :: u64 where "ptrace_options = 0x3000ff"

definition resume :: "int \<Rightarrow> world \<Rightarrow> world" where
  "resume t = upd_proc t (kp_state_update (\<lambda>_. Running))"

definition peek :: "pkernel \<Rightarrow> int \<Rightarrow> taddr \<Rightarrow> world \<Rightarrow> sysres" where
  "peek K t a w =
     (case a of
        AVar x \<Rightarrow> SOk 0 [OInt (uint (w_vars w t x))]
      | AWord v \<Rightarrow> (case pk_text K v of None \<Rightarrow> SErr EIO | Some d \<Rightarrow> SOk 0 [OInt (uint d)]))"

fun ptrace_stopped :: "pkernel \<Rightarrow> int \<Rightarrow> ptrace_req \<Rightarrow> int \<Rightarrow> world \<Rightarrow> sysres \<times> world" where
  "ptrace_stopped K p (PT_Peekdata a) t w = (peek K t a w, w)"
| "ptrace_stopped K p (PT_Peektext a) t w = (peek K t a w, w)"
| "ptrace_stopped K p (PT_Pokedata (AVar x) v) t w =
     (SOk 0 [], w\<lparr>w_vars := (w_vars w)(t := (w_vars w t)(x := v))\<rparr>)"
| "ptrace_stopped K p PT_Cont t w = (SOk 0 [], resume t w)"
| "ptrace_stopped K p PT_Kill t w = (SOk 0 [], upd_proc t (kp_pending_update (\<lambda>ss. SIGKILL # ss)) (resume t w))"
| "ptrace_stopped K p PT_Detach t w = (SOk 0 [], upd_proc t (kp_tracer_update (\<lambda>_. None)) (resume t w))"
| "ptrace_stopped K p (PT_Setoptions o') t w =
     (if o' AND NOT ptrace_options = 0 then (SOk 0 [], w) else (SErr EINVAL, w))"
| "ptrace_stopped K p PT_Getsiginfo t w =
     (case w_procs w t of
        Some k \<Rightarrow> (case kp_info k of (a, b, c, d) \<Rightarrow> (SOk 0 [OInt a, OInt b, OInt c, OInt d], w))
      | None \<Rightarrow> (SErr ESRCH, w))"
| "ptrace_stopped K p (PT_Setsiginfo a b c) t w = (SOk 0 [], upd_proc t (kp_info_update (\<lambda>(_, _, _, d). (a, b, c, d))) w)"
| "ptrace_stopped K p req t w = pk_other K p (Proc (Ptrace req t)) w"

definition stopped_tracee :: "world \<Rightarrow> int \<Rightarrow> int \<Rightarrow> bool" where
  "stopped_tracee w p t =
     (case w_procs w t of
        Some k \<Rightarrow> kp_tracer k = Some p \<and> (\<exists>s told. kp_state k = Stopped s told)
      | None \<Rightarrow> False)"

definition do_ptrace :: "pkernel \<Rightarrow> int \<Rightarrow> ptrace_req \<Rightarrow> int \<Rightarrow> world \<Rightarrow> sysres \<times> world" where
  "do_ptrace K p req t w =
     (if req = PT_Traceme
      then (case w_procs w p of
              Some k \<Rightarrow> if kp_tracer k = None
                        then (SOk 0 [], upd_proc p (kp_tracer_update (\<lambda>_. Some (kp_parent k))) w) else (SErr EPERM, w)
            | None \<Rightarrow> (SErr ESRCH, w))
      else if req = PT_Attach
      then (case w_procs w t of
              Some k \<Rightarrow> if kp_tracer k = None \<and> t \<noteq> p \<and> (\<forall>st. kp_state k \<noteq> Zombie st)
                        then (SOk 0 [], upd_proc t (\<lambda>k. k\<lparr>kp_tracer := Some p, kp_pending := kp_pending k @ [SIGSTOP]\<rparr>) w)
                        else (SErr EPERM, w)
            | None \<Rightarrow> (SErr ESRCH, w))
      else if stopped_tracee w p t then ptrace_stopped K p req t w
      else (SErr ESRCH, w))"

text \<open>A call of process \<^verbatim>\<open>p\<close>: the answer and the new state, or that it has to wait.\<close>

fun do_call :: "pkernel \<Rightarrow> int \<Rightarrow> syscall \<Rightarrow> world \<Rightarrow> (sysres \<times> world) option" where
  "do_call K p (Mem (Mmap a n pr fl fd off)) w =
     Some (case pk_newmap K w of
             None \<Rightarrow> (SErr ENOMEM, w)
           | Some b \<Rightarrow> (SOk (uint b) [], w\<lparr>w_maps := b # w_maps w\<rparr>))"
| "do_call K p (Mem (Munmap a n)) w = Some (SOk 0 [], w)"
| "do_call K p (Proc (Sem_init s v)) w = Some (SOk 0 [], w\<lparr>w_sems := (w_sems w)(s := v)\<rparr>)"
| "do_call K p (Proc (Sem_post s)) w = Some (SOk 0 [], w\<lparr>w_sems := (w_sems w)(s := Suc (w_sems w s))\<rparr>)"
| "do_call K p (Proc (Sem_wait s)) w =
     (if w_sems w s = 0 then None else Some (SOk 0 [], w\<lparr>w_sems := (w_sems w)(s := w_sems w s - 1)\<rparr>))"
| "do_call K p (Proc Wait) w = do_wait p w"
| "do_call K p (Proc (Kill t sig)) w = Some (do_kill t sig w)"
| "do_call K p (Proc (Ptrace req t)) w = Some (do_ptrace K p req t w)"
| "do_call K p (Proc (Usleep n)) w = Some (SOk 0 [], w)"
| "do_call K p (Proc (Sleep n)) w = Some (SOk 0 [], w)"
| "do_call K p c w = Some (pk_other K p c w)"

definition exit_proc :: "int \<Rightarrow> int \<Rightarrow> world \<Rightarrow> world" where
  "exit_proc p n = upd_proc p (kp_state_update (\<lambda>_. Zombie (exit_status n)))"

definition fork_proc :: "int \<Rightarrow> int \<Rightarrow> world \<Rightarrow> world" where
  "fork_proc p c w =
     w\<lparr>w_pids := w_pids w @ [c],
       w_procs := (w_procs w)(c \<mapsto> \<lparr>kp_parent = p, kp_tracer = None, kp_state = Running, kp_pending = [], kp_info = (0, 0, 0, 0)\<rparr>),
       w_vars := (w_vars w)(c := w_vars w p)\<rparr>"

subsection \<open>Signals\<close>

text \<open>
  The delivery of the first pending signal: \<^verbatim>\<open>SIGKILL\<close> ends the process, any other stops a tracee;
  of the rest only \<^verbatim>\<open>SIGSTOP\<close> stops, and handlers are not part of this machine. The result says
  whether the process ended.
\<close>

definition deliver :: "int \<Rightarrow> world \<Rightarrow> (bool \<times> world) option" where
  "deliver t w =
     (case w_procs w t of
        None \<Rightarrow> None
      | Some k \<Rightarrow>
          (case kp_pending k of
             [] \<Rightarrow> None
           | s # ss \<Rightarrow>
               if kp_state k = Running then
                 if s = SIGKILL then Some (True, upd_proc t (\<lambda>k. k\<lparr>kp_state := Zombie s, kp_pending := []\<rparr>) w)
                 else if kp_tracer k \<noteq> None then
                   Some (False, upd_proc t (\<lambda>k. k\<lparr>kp_state := Stopped s False, kp_pending := ss, kp_info := (s, 0, 0, 0)\<rparr>) w)
                 else if s = SIGSTOP then
                   Some (False, upd_proc t (\<lambda>k. k\<lparr>kp_state := Stopped s True, kp_pending := ss\<rparr>) w)
                 else Some (True, upd_proc t (\<lambda>k. k\<lparr>kp_state := Zombie s, kp_pending := []\<rparr>) w)
               else None))"

text \<open>A process with a pending signal is handed it before it goes on.\<close>

definition can_run :: "world \<Rightarrow> int \<Rightarrow> bool" where
  "can_run w p = (case w_procs w p of Some k \<Rightarrow> kp_state k = Running \<and> kp_pending k = [] | None \<Rightarrow> False)"

subsection \<open>Steps\<close>

type_synonym task = "verdict prog \<times> int \<times> (stream \<times> string \<times> fmtarg list) list"
type_synonym config = "(int \<Rightarrow> task option) \<times> world"

datatype label = Run int | Deliver int

text \<open>One operation of a program that neither ends nor forks; memory and handlers are not part of this machine.\<close>

fun run_node :: "pkernel \<Rightarrow> int \<Rightarrow> task \<Rightarrow> world \<Rightarrow> (task \<times> world) option" where
  "run_node K p (Sys c k, e, os) w = map_option (\<lambda>(r, w'). ((k r, e, os), w')) (do_call K p c w)"
| "run_node K p (Errno k, e, os) w = Some ((k e, e, os), w)"
| "run_node K p (SetErrno e' k, e, os) w = Some ((k, e', os), w)"
| "run_node K p (Glob x k, e, os) w = Some ((k (w_vars w p x), e, os), w)"
| "run_node K p (SetGlob x v k, e, os) w =
     Some ((k, e, os), w\<lparr>w_vars := (w_vars w)(p := (w_vars w p)(x := v))\<rparr>)"
| "run_node K p (Fprintf h fmt args k, e, os) w = Some ((k, e, os @ [(h, fmt, args)]), w)"
| "run_node K p t w = None"

fun run_task :: "pkernel \<Rightarrow> int \<Rightarrow> task \<Rightarrow> config \<Rightarrow> config option" where
  "run_task K p (Exit n, e, os) (T, w) = Some (T(p := None), exit_proc p n w)"
| "run_task K p (Sys (Proc Fork) k, e, os) (T, w) =
     (case pk_newpid K w of
        None \<Rightarrow> Some (T(p \<mapsto> (k (SErr EAGAIN), e, os)), w)
      | Some c \<Rightarrow> Some (T(p \<mapsto> (k (SOk c []), e, os), c \<mapsto> (k (SOk 0 []), e, [])), fork_proc p c w))"
| "run_task K p t (T, w) = map_option (\<lambda>(t', w'). (T(p \<mapsto> t'), w')) (run_node K p t w)"

fun lstep :: "pkernel \<Rightarrow> label \<Rightarrow> config \<Rightarrow> config option" where
  "lstep K (Run p) (T, w) =
     (if can_run w p then (case T p of None \<Rightarrow> None | Some t \<Rightarrow> run_task K p t (T, w)) else None)"
| "lstep K (Deliver p) (T, w) =
     (case deliver p w of
        None \<Rightarrow> None
      | Some (dead, w') \<Rightarrow> Some (if dead then T(p := None) else T, w'))"

text \<open>The runs of the machine: any process that can step may be the next.\<close>

inductive path :: "pkernel \<Rightarrow> config \<Rightarrow> label list \<Rightarrow> config \<Rightarrow> bool" for K where
  path_Nil: "path K c [] c"
| path_Cons: "lstep K l c = Some c' \<Longrightarrow> path K c' ls d \<Longrightarrow> path K c (l # ls) d"

inductive_cases path_NilE: "path K c [] d"
inductive_cases path_ConsE: "path K c (l # ls) d"

definition stuck :: "pkernel \<Rightarrow> config \<Rightarrow> bool" where
  "stuck K c \<longleftrightarrow> (\<forall>l. lstep K l c = None)"

definition verdict_of :: "int \<Rightarrow> config \<Rightarrow> verdict option" where
  "verdict_of p c = (case fst c p of Some (Return v, e, os) \<Rightarrow> Some v | _ \<Rightarrow> None)"

end
