(* ===== verification/Schedules.thy ===== *)
theory Schedules
  imports Proc_Spec
begin

text \<open>
  Independence of the schedule. A run in which every step is either the only one possible or a
  private step of a process that no other can disturb stands for all runs: each of them can be
  completed to the same end, in the same number of steps. One run then shows for every schedule
  that it ends, and how.
\<close>

subsection \<open>Private steps and harmless programs\<close>

text \<open>Operations on the process's own variables and output, and those that others can only gain from.\<close>

fun private_call :: "syscall \<Rightarrow> bool" where
  "private_call (Mem (Munmap a n)) = True"
| "private_call (Proc (Sem_post s)) = True"
| "private_call (Proc (Usleep n)) = True"
| "private_call _ = False"

fun private_prog :: "'a prog \<Rightarrow> bool" where
  "private_prog (Sys c k) = private_call c"
| "private_prog (Errno k) = True"
| "private_prog (SetErrno e k) = True"
| "private_prog (Glob x k) = True"
| "private_prog (SetGlob x v k) = True"
| "private_prog (Fprintf h fmt args k) = True"
| "private_prog _ = False"

text \<open>Programs that, whatever the answers, never touch another process.\<close>

fun harmless_call :: "syscall \<Rightarrow> bool" where
  "harmless_call (Mem (Munmap a n)) = True"
| "harmless_call (Proc (Sem_post s)) = True"
| "harmless_call (Proc (Sem_wait s)) = True"
| "harmless_call (Proc (Usleep n)) = True"
| "harmless_call (Proc (Ptrace PT_Traceme t)) = True"
| "harmless_call _ = False"

primrec harmless :: "'a prog \<Rightarrow> bool" where
  "harmless (Return a) = True"
| "harmless (Exit n) = True"
| "harmless Undef = True"
| "harmless (Sys c k) = (harmless_call c \<and> (\<forall>r. harmless (k r)))"
| "harmless (Load a k) = (\<forall>b. harmless (k b))"
| "harmless (Store a b k) = harmless k"
| "harmless (Errno k) = (\<forall>e. harmless (k e))"
| "harmless (SetErrno e k) = harmless k"
| "harmless (Glob x k) = (\<forall>v. harmless (k v))"
| "harmless (SetGlob x v k) = harmless k"
| "harmless (GlobStr x k) = (\<forall>v. harmless (k v))"
| "harmless (SetGlobStr x v k) = harmless k"
| "harmless (Fprintf h fmt args k) = harmless k"
| "harmless (Sigaction sg h k) = (\<forall>r. harmless (k r))"

lemma harmless_call_iff: "harmless (call q f) \<longleftrightarrow> harmless q \<and> (\<forall>v. v \<in> set_prog q \<longrightarrow> harmless (f v))"
  by (induction q) auto

definition private_at :: "int \<Rightarrow> config \<Rightarrow> bool" where
  "private_at p c = (case fst c p of None \<Rightarrow> False | Some (q, e, os) \<Rightarrow> private_prog q)"

definition quiet :: "int \<Rightarrow> config \<Rightarrow> bool" where
  "quiet p c \<longleftrightarrow> (\<forall>q t. q \<noteq> p \<longrightarrow> fst c q = Some t \<longrightarrow> harmless (fst t))"

lemma quiet_drop: "quiet p (T, w) \<Longrightarrow> quiet p (T(q := None), w')"
  by (simp add: quiet_def)

lemma quiet_upd: "quiet p (T, w) \<Longrightarrow> harmless (fst u) \<Longrightarrow> quiet p (T(q \<mapsto> u), w')"
  by (cases u) (simp add: quiet_def)

lemma quiet_world: "quiet p (T, w) \<Longrightarrow> quiet p (T, w')"
  by (simp add: quiet_def)

subsection \<open>Private steps commute with the others\<close>

text \<open>What a private step does to the state of the kernel.\<close>

inductive private_effect :: "int \<Rightarrow> (world \<Rightarrow> world) \<Rightarrow> bool" for p where
  "private_effect p (\<lambda>w. w)"
| "private_effect p (\<lambda>w. w\<lparr>w_vars := (w_vars w)(p := (w_vars w p)(x := v))\<rparr>)"
| "private_effect p (\<lambda>w. w\<lparr>w_sems := (w_sems w)(s := Suc (w_sems w s))\<rparr>)"

lemma effect_procs: "private_effect p f \<Longrightarrow> w_procs (f w) = w_procs w"
  by (induction rule: private_effect.induct) simp_all

lemma effect_vars: "private_effect p f \<Longrightarrow> q \<noteq> p \<Longrightarrow> w_vars (f w) q = w_vars w q"
  by (induction rule: private_effect.induct) simp_all

lemma effect_can_run [simp]: "private_effect p f \<Longrightarrow> can_run (f w) q = can_run w q"
  by (simp add: can_run_def effect_procs)

lemma effect_upd_proc: "private_effect p f \<Longrightarrow> upd_proc t g (f w) = f (upd_proc t g w)"
  by (induction rule: private_effect.induct) (simp_all add: upd_proc_def)

lemma effect_deliver: "private_effect p f \<Longrightarrow> deliver t (f w) = map_option (\<lambda>(dead, w'). (dead, f w')) (deliver t w)"
  by (simp add: deliver_def effect_procs effect_upd_proc split: option.split list.split)

lemma effect_call:
  assumes "private_effect p f" "harmless_call c" "do_call K q c w = Some (r, w')"
  shows "do_call K q c (f w) = Some (r, f w')"
proof -
  have traceme: "do_ptrace K q PT_Traceme t (f w) = map_prod id f (do_ptrace K q PT_Traceme t w)" for t
    using effect_procs [OF assms(1)] effect_upd_proc [OF assms(1)] by (simp add: do_ptrace_def split: option.split)
  from assms(1) show ?thesis
  proof cases
    case 1
    then show ?thesis using assms(3) by simp
  next
    case (2 x v)
    then show ?thesis
      using assms(2,3) traceme by (cases c rule: harmless_call.cases) (auto split: if_splits)
  next
    case (3 s)
    then show ?thesis
      using assms(2,3) traceme by (cases c rule: harmless_call.cases) (auto simp: fun_upd_twist split: if_splits)
  qed
qed

lemma effect_node:
  assumes f: "private_effect p f" "q \<noteq> p" and h: "harmless (fst t)" and s: "run_node K q t w = Some (t', w')"
  shows "run_node K q t (f w) = Some (t', f w') \<and> harmless (fst t')"
proof (cases "(K, q, t, w)" rule: run_node.cases)
  case (1 K p c k e os w)
  then obtain r v where "do_call K q c w = Some (r, v)" "t' = (k r, e, os)" "w' = v" using s by auto
  with 1 show ?thesis using effect_call [OF f(1)] h by simp
next
  case (5 K p x v k e os w)
  from f(1) show ?thesis using 5 h s f(2) by cases (auto simp: fun_upd_twist)
qed (use h s f effect_vars [OF f] in auto)

text \<open>A private step, at any state with the same task and variables of the process.\<close>

lemma private_node:
  assumes "private_prog (fst t)" "run_node K p t w = Some (t', w')"
  shows "\<exists>f. private_effect p f \<and> w' = f w \<and>
    (\<forall>v. w_vars v p = w_vars w p \<longrightarrow> run_node K p t v = Some (t', f v))"
proof (cases "(K, p, t, w)" rule: run_node.cases)
  case (1 K' p' c k e os w0)
  then show ?thesis
    using assms by (cases c rule: private_call.cases) (auto intro: private_effect.intros)
next
  case (5 K' p' x v k e os w0)
  then show ?thesis
    using assms by (intro exI [of _ "\<lambda>w. w\<lparr>w_vars := (w_vars w)(p := (w_vars w p)(x := v))\<rparr>"]) (auto intro: private_effect.intros)
qed (use assms in \<open>auto intro!: exI [of _ "\<lambda>w. w"] intro: private_effect.intros\<close>)

lemma run_task_node:
  "private_prog (fst t) \<or> harmless (fst t) \<and> (\<forall>n. fst t \<noteq> Exit n) \<Longrightarrow>
   run_task K p t (T, w) = map_option (\<lambda>(t', w'). (T(p \<mapsto> t'), w')) (run_node K p t w)"
  by (cases "(K, p, t, T, w)" rule: run_task.cases) auto

lemma private_step:
  assumes "private_at p (T, w)" "lstep K (Run p) (T, w) = Some c'"
  obtains t t' f where "T p = Some t" "private_prog (fst t)" "private_effect p f" "c' = (T(p \<mapsto> t'), f w)" "can_run w p"
    "\<And>v. w_vars v p = w_vars w p \<Longrightarrow> run_node K p t v = Some (t', f v)"
proof -
  obtain t where t: "T p = Some t" "private_prog (fst t)" using assms(1) by (auto simp: private_at_def split: option.splits)
  then obtain t' w' where n: "can_run w p" "run_node K p t w = Some (t', w')" "c' = (T(p \<mapsto> t'), w')"
    using assms(2) run_task_node [of t K p T w] by (auto split: if_splits)
  from private_node [OF t(2) n(2)] obtain f where "private_effect p f" "w' = f w"
    "\<forall>v. w_vars v p = w_vars w p \<longrightarrow> run_node K p t v = Some (t', f v)" by blast
  with t n show ?thesis by (intro that) auto
qed

lemma harmless_world:
  assumes "harmless_call c" "do_call K q c w = Some (r, w')" "q \<noteq> p"
  shows "w_vars w' = w_vars w \<and> w_procs w' p = w_procs w p"
  using assms by (cases c rule: harmless_call.cases)
    (auto simp: do_ptrace_def upd_proc_def split: if_splits option.splits)

lemma harmless_node:
  assumes "harmless (fst t)" "run_node K q t w = Some (t', w')" "q \<noteq> p"
  shows "w_vars w' p = w_vars w p \<and> w_procs w' p = w_procs w p"
  using assms harmless_world [OF _ _ assms(3)] by (cases "(K, q, t, w)" rule: run_node.cases) auto

text \<open>Any other step leaves the process its private step, and the two commute.\<close>

lemma other_step:
  assumes pr: "private_at p (T, w)" "quiet p (T, w)" and a: "lstep K (Run p) (T, w) = Some c'"
    and b: "lstep K l (T, w) = Some (T2, w2)" "l \<noteq> Run p"
  shows "private_at p (T2, w2) \<and> quiet p (T2, w2) \<and> (\<exists>d. lstep K (Run p) (T2, w2) = Some d \<and> lstep K l c' = Some d)"
proof -
  from private_step [OF pr(1) a] obtain t t' f where p: "T p = Some t" "private_prog (fst t)" "private_effect p f"
    "c' = (T(p \<mapsto> t'), f w)" "can_run w p" "\<And>v. w_vars v p = w_vars w p \<Longrightarrow> run_node K p t v = Some (t', f v)" by metis
  have fin: ?thesis if T2: "T2 p = Some t" "can_run w2 p" "w_vars w2 p = w_vars w p" "quiet p (T2, w2)"
      and l: "lstep K l (T(p \<mapsto> t'), f w) = Some (T2(p \<mapsto> t'), f w2)"
  proof -
    have "lstep K (Run p) (T2, w2) = Some (T2(p \<mapsto> t'), f w2)"
      using T2 p run_task_node [of t K p T2 w2] by simp
    moreover have "private_at p (T2, w2)" using T2 p by (cases t) (simp add: private_at_def)
    ultimately show ?thesis using l T2(4) p(4) by blast
  qed
  show ?thesis
  proof (cases l)
    case (Deliver q)
    then obtain dead where d: "deliver q w = Some (dead, w2)" "T2 = (if dead then T(q := None) else T)"
      using b by (auto split: option.splits)
    have "q \<noteq> p" using d p(5) by (auto simp: deliver_def can_run_def split: option.splits list.splits)
    have w2: "w_procs w2 p = w_procs w p" "w_vars w2 = w_vars w"
      using d(1) \<open>q \<noteq> p\<close> by (auto simp: deliver_def upd_proc_def split: option.splits list.splits if_splits)
    show ?thesis
      by (rule fin) (use d w2 p \<open>q \<noteq> p\<close> Deliver pr(2) effect_deliver [OF p(3), of q w] in
        \<open>auto simp: can_run_def fun_upd_twist intro: quiet_drop quiet_upd quiet_world\<close>)
  next
    case (Run q)
    then have "q \<noteq> p" using b(2) by simp
    obtain u where u: "T q = Some u" "can_run w q" "run_task K q u (T, w) = Some (T2, w2)"
      using b Run by (auto split: if_splits option.splits)
    have h: "harmless (fst u)" using pr(2) u(1) \<open>q \<noteq> p\<close> unfolding quiet_def fst_conv by blast
    show ?thesis
    proof (cases "\<exists>n. fst u = Exit n")
      case True
      then obtain n e os where n: "u = (Exit n, e, os)" by (cases u) auto
      show ?thesis
        by (rule fin) (use n u p \<open>q \<noteq> p\<close> Run pr(2) effect_upd_proc [OF p(3)] in
          \<open>auto simp: exit_proc_def upd_proc_def can_run_def fun_upd_twist effect_procs intro: quiet_drop\<close>)
    next
      case False
      then obtain u' where u': "run_node K q u w = Some (u', w2)" "T2 = T(q \<mapsto> u')"
        using u(3) h run_task_node [of u K q T w] by auto
      have n: "run_node K q u (f w) = Some (u', f w2)" "harmless (fst u')"
        using effect_node [OF p(3) \<open>q \<noteq> p\<close> h u'(1)] by auto
      have w2: "w_vars w2 p = w_vars w p" "w_procs w2 p = w_procs w p"
        using harmless_node [OF h u'(1) \<open>q \<noteq> p\<close>] by auto
      have q: "can_run (f w) q" using u(2) p(3) by simp
      show ?thesis
        by (rule fin) (use n u u' w2 q p \<open>q \<noteq> p\<close> Run pr(2) h False run_task_node [of u K q "T(p \<mapsto> t')" "f w"] in
          \<open>auto simp: can_run_def fun_upd_twist intro: quiet_drop quiet_upd quiet_world\<close>)
    qed
  qed
qed

subsection \<open>One run for all\<close>

text \<open>Steps of others can be put after a private step.\<close>

lemma others_path:
  assumes "path K c ls x" "Run p \<notin> set ls" "private_at p c" "quiet p c" "lstep K (Run p) c = Some c'"
  shows "\<exists>y. lstep K (Run p) x = Some y \<and> path K c' ls y"
  using assms
proof (induction arbitrary: c' rule: path.induct)
  case (path_Nil c)
  then show ?case by (auto intro: path.path_Nil)
next
  case (path_Cons l c c1 ls d)
  obtain T w T2 w2 where c: "c = (T, w)" "c1 = (T2, w2)" by (metis surj_pair)
  from other_step [of p T w K c' l T2 w2] path_Cons.hyps(1) path_Cons.prems
  obtain e where "private_at p c1" "quiet p c1" "lstep K (Run p) c1 = Some e" "lstep K l c' = Some e"
    unfolding c by auto
  moreover from this path_Cons.IH [of e] path_Cons.prems
  obtain y where "lstep K (Run p) d = Some y" "path K e ls y" by auto
  ultimately show ?case by (metis path.path_Cons)
qed

lemma path_append: "path K c ls d \<Longrightarrow> path K d ls' e \<Longrightarrow> path K c (ls @ ls') e"
  by (induction rule: path.induct) (auto intro: path_Cons)

lemma path_split: "path K c (ls @ ls') e \<Longrightarrow> \<exists>d. path K c ls d \<and> path K d ls' e"
proof (induction ls arbitrary: c)
  case (Cons l ls)
  then obtain c1 where "lstep K l c = Some c1" "path K c1 (ls @ ls') e" by (auto elim: path_ConsE)
  with Cons.IH show ?case by (metis path_Cons)
qed (auto intro: path_Nil)

text \<open>Every run can be completed to the same end, in the same number of steps.\<close>

definition ends :: "pkernel \<Rightarrow> config \<Rightarrow> nat \<Rightarrow> config \<Rightarrow> bool" where
  "ends K c n d \<longleftrightarrow> stuck K d \<and> (\<forall>ls e. path K c ls e \<longrightarrow> (\<exists>ls'. path K e ls' d \<and> length ls + length ls' = n))"

lemma ends_stuck: "stuck K c \<Longrightarrow> ends K c n d \<longleftrightarrow> n = 0 \<and> d = c"
proof -
  assume c: "stuck K c"
  have "ls = [] \<and> e = c" if "path K c ls e" for ls e
    using that c by (cases ls) (auto simp: stuck_def elim: path_NilE path_ConsE)
  with c show ?thesis unfolding ends_def by (metis add_is_0 list.size(3) path_Nil)
qed

lemma ends_first:
  assumes "lstep K l c = Some c'" "ends K c n d"
  shows "\<exists>m. n = Suc m \<and> ends K c' m d"
proof -
  have *: "\<exists>ls'. path K e ls' d \<and> Suc (length ls) + length ls' = n" if "path K c' ls e" for ls e
    using assms path_Cons [OF assms(1) that] unfolding ends_def by fastforce
  from * [OF path_Nil] obtain m where "n = Suc m" by (cases n) auto
  with * assms(2) show ?thesis unfolding ends_def by fastforce
qed

lemma ends_only:
  assumes "lstep K l c = Some c'" "\<And>l'. l' \<noteq> l \<Longrightarrow> lstep K l' c = None" "ends K c' n d"
  shows "ends K c (Suc n) d"
proof -
  have "\<exists>ls'. path K e ls' d \<and> length ls + length ls' = Suc n" if p: "path K c ls e" for ls e
  proof (cases ls)
    case Nil
    then have "e = c" using p by (auto elim: path_NilE)
    moreover obtain ls' where "path K c' ls' d" "length ls' = n"
      using assms(3) path_Nil [of K c'] unfolding ends_def by fastforce
    ultimately show ?thesis using Nil path_Cons [OF assms(1)] by (intro exI [of _ "l # ls'"]) simp
  next
    case (Cons l1 ls1)
    then obtain c1 where "lstep K l1 c = Some c1" "path K c1 ls1 e" using p by (auto elim: path_ConsE)
    moreover from this have "c1 = c'" using assms(1,2) by (metis option.distinct(1) option.inject)
    ultimately show ?thesis using assms(3) Cons unfolding ends_def by fastforce
  qed
  with assms(3) show ?thesis unfolding ends_def by blast
qed

lemma ends_private:
  assumes "lstep K (Run p) c = Some c'" "private_at p c" "quiet p c" "ends K c' n d"
  shows "ends K c (Suc n) d"
proof -
  have fin: "\<exists>ls'. path K e ls' d \<and> length ls + length ls' = n" if "path K c' ls e" for ls e
    using assms(4) that unfolding ends_def by blast
  have "\<exists>ls'. path K e ls' d \<and> length ls + length ls' = Suc n" if p: "path K c ls e" for ls e
  proof (cases "Run p \<in> set ls")
    case False
    from others_path [OF p False assms(2,3,1)] obtain y where y: "lstep K (Run p) e = Some y" "path K c' ls y" by blast
    from fin [OF y(2)] obtain ls' where "path K y ls' d" "length ls + length ls' = n" by blast
    then show ?thesis using y(1) by (intro exI [of _ "Run p # ls'"]) (auto intro: path_Cons)
  next
    case True
    then obtain as bs where ls: "ls = as @ Run p # bs" "Run p \<notin> set as" by (metis split_list_first)
    from path_split [OF p [unfolded ls(1)]]
    obtain x x' where x: "path K c as x" "lstep K (Run p) x = Some x'" "path K x' bs e" by (auto elim: path_ConsE)
    from others_path [OF x(1) ls(2) assms(2,3,1)] x(2) have "path K c' as x'" by auto
    from fin [OF path_append [OF this x(3)]] ls(1) show ?thesis by auto
  qed
  with assms(4) show ?thesis unfolding ends_def by blast
qed

text \<open>So the verdict of a program can be followed along those steps alone.\<close>

definition settles :: "pkernel \<Rightarrow> int \<Rightarrow> config \<Rightarrow> verdict \<Rightarrow> bool" where
  "settles K p c v \<longleftrightarrow> (\<exists>n d. ends K c n d \<and> verdict_of p d = Some v)"

lemma settles_stuck: "stuck K c \<Longrightarrow> settles K p c v \<longleftrightarrow> verdict_of p c = Some v"
  by (auto simp: settles_def ends_stuck)

lemma settles_only:
  assumes "lstep K l c = Some c'" "\<And>l'. l' \<noteq> l \<Longrightarrow> lstep K l' c = None"
  shows "settles K p c v \<longleftrightarrow> settles K p c' v"
  using ends_first [OF assms(1)] ends_only [OF assms] unfolding settles_def by blast

lemma settles_private:
  assumes "lstep K (Run q) c = Some c'" "private_at q c" "quiet q c"
  shows "settles K p c v \<longleftrightarrow> settles K p c' v"
  using ends_first [OF assms(1)] ends_private [OF assms] unfolding settles_def by blast

text \<open>
  Every run is bounded, each can be completed, and where one cannot go on the verdict is there.
\<close>

definition always_ends :: "pkernel \<Rightarrow> config \<Rightarrow> int \<Rightarrow> verdict \<Rightarrow> bool" where
  "always_ends K c p v \<longleftrightarrow>
     (\<exists>n. \<forall>ls e. path K c ls e \<longrightarrow>
        length ls \<le> n \<and> (\<exists>ls' d. path K e ls' d \<and> stuck K d) \<and> (stuck K e \<longrightarrow> verdict_of p e = Some v))"

lemma settles_all:
  assumes "settles K p c v"
  shows "always_ends K c p v"
  unfolding always_ends_def
proof -
  obtain n d where d: "ends K c n d" "verdict_of p d = Some v" using assms unfolding settles_def by blast
  have "length ls \<le> n \<and> (\<exists>ls' d. path K e ls' d \<and> stuck K d) \<and> (stuck K e \<longrightarrow> verdict_of p e = Some v)"
    if p: "path K c ls e" for ls e
  proof -
    obtain ls' where ls': "path K e ls' d" "length ls + length ls' = n" using d(1) p unfolding ends_def by blast
    moreover have "verdict_of p e = Some v" if "stuck K e"
      using ls'(1) that d(2) by (cases rule: path.cases) (auto simp: stuck_def)
    moreover have "stuck K d" using d(1) unfolding ends_def by blast
    ultimately show ?thesis by (metis le_add1)
  qed
  then show "\<exists>n. \<forall>ls e. path K c ls e \<longrightarrow>
    length ls \<le> n \<and> (\<exists>ls' d. path K e ls' d \<and> stuck K d) \<and> (stuck K e \<longrightarrow> verdict_of p e = Some v)" by blast
qed

subsection \<open>Verdicts that a program cannot give\<close>

text \<open>Operations that neither end the process nor make one.\<close>

definition node_step :: "'a prog \<Rightarrow> bool" where
  "node_step q \<longleftrightarrow> (\<forall>n. q \<noteq> Exit n) \<and> (\<forall>k. q \<noteq> Sys (Proc Fork) k)"

lemma run_task_step: "node_step (fst t) \<Longrightarrow>
   run_task K p t (T, w) = map_option (\<lambda>(t', w'). (T(p \<mapsto> t'), w')) (run_node K p t w)"
  by (cases "(K, p, t, T, w)" rule: run_task.cases) (auto simp: node_step_def)

lemma node_step_simps [simp]:
  "node_step (Sys c k) \<longleftrightarrow> c \<noteq> Proc Fork" "node_step (Errno f)" "node_step (SetErrno i q)" "node_step (Glob x g)"
  "node_step (SetGlob x y q)" "node_step (Fprintf h fmt args q)"
  by (auto simp: node_step_def)

lemma node_verdicts: "run_node K p t w = Some (t', w') \<Longrightarrow> set_prog (fst t') \<subseteq> set_prog (fst t)"
  by (cases "(K, p, t, w)" rule: run_node.cases) auto

lemma step_verdicts:
  assumes "lstep K l (T, w) = Some (T', w')" "\<And>q t. T q = Some t \<Longrightarrow> v \<notin> set_prog (fst t)" "T' q = Some t"
  shows "v \<notin> set_prog (fst t)"
proof (cases l)
  case (Deliver p)
  then show ?thesis using assms by (cases t) (auto split: option.splits if_splits)
next
  case (Run p)
  then obtain u where u: "T p = Some u" "run_task K p u (T, w) = Some (T', w')"
    using assms(1) by (auto split: if_splits option.splits)
  have v: "v \<notin> set_prog (fst u)" using assms(2) u(1) by blast
  have old: "v \<notin> set_prog (fst t)" if "T q = Some t" using assms(2) that by blast
  show ?thesis
  proof (cases "node_step (fst u)")
    case True
    then obtain u' where u': "run_node K p u w = Some (u', w')" "T' = T(p \<mapsto> u')"
      using u(2) run_task_step [OF True, of K p T w] by auto
    then show ?thesis using node_verdicts [OF u'(1)] v old assms(3) by (auto split: if_splits)
  next
    case False
    then consider n e os where "u = (Exit n, e, os)" | k e os where "u = (Sys (Proc Fork) k, e, os)"
      unfolding node_step_def by (metis fst_conv surj_pair)
    then show ?thesis
    proof cases
      case 1
      then show ?thesis using u(2) old assms(3) by (auto split: if_splits)
    next
      case 2
      then show ?thesis using u(2) v old assms(3) by (auto split: if_splits option.splits)
    qed
  qed
qed

lemma path_verdicts:
  assumes "path K c ls d" "\<And>q t. fst c q = Some t \<Longrightarrow> v \<notin> set_prog (fst t)" "fst d q = Some t"
  shows "v \<notin> set_prog (fst t)"
  using assms
proof (induction rule: path.induct)
  case (path_Cons l c c' ls d)
  obtain T w T' w' where c: "c = (T, w)" "c' = (T', w')" by (metis surj_pair)
  show ?case
    by (rule path_Cons.IH) (use path_Cons.hyps(1) path_Cons.prems step_verdicts [of K l T w T' w' v] in \<open>auto simp: c\<close>)
qed

end
