(* ===== verification/Ptrace_Suite.thy ===== *)
theory Ptrace_Suite
  imports Proc_Spec
begin

text \<open>
  The suite \<^verbatim>\<open>ptrace\<close>: a tracer and its tracee, kept in step by two semaphores in shared memory. Each
  case has its own \<^verbatim>\<open>child_func\<close> and \<^verbatim>\<open>parent_func\<close>; the function that starts and joins the two is
  the same text in all of them but two. The helpers of \<^verbatim>\<open>arch/x86/arch_test_ptrace.c\<close>
  are those of the only architecture the sources have.
\<close>

subsection \<open>Library calls\<close>

definition perror :: "string \<Rightarrow> 'a prog \<Rightarrow> 'a prog" where
  "perror s k = Errno (\<lambda>e. Fprintf Stderr ''%s: %m'' [FStr s, FInt e] k)"

definition sem_post :: "u64 \<Rightarrow> 'a prog \<Rightarrow> 'a prog" where
  "sem_post s k = sys_int (Proc (Sem_post s)) (\<lambda>_. k)"

definition sem_wait :: "u64 \<Rightarrow> 'a prog \<Rightarrow> 'a prog" where
  "sem_wait s k = sys_int (Proc (Sem_wait s)) (\<lambda>_. k)"

definition oval_int :: "oval \<Rightarrow> int" where
  "oval_int x = (case x of OInt i \<Rightarrow> i | OStr _ \<Rightarrow> 0)"

text \<open>\<^verbatim>\<open>wait(&status)\<close>; the sources read \<^verbatim>\<open>status\<close> only after a call that set it.\<close>

definition wait_status :: "proc_call \<Rightarrow> (int \<Rightarrow> int \<Rightarrow> 'a prog) \<Rightarrow> 'a prog" where
  "wait_status c k = sys_out (Proc c) [OInt 0] (\<lambda>pid os. k pid (oval_int (hd os)))"

abbreviation ptrace :: "ptrace_req \<Rightarrow> int \<Rightarrow> (int \<Rightarrow> 'a prog) \<Rightarrow> 'a prog" where
  "ptrace req pid \<equiv> sys_int (Proc (Ptrace req pid))"

text \<open>The requests that read a word return it, and clear \<^verbatim>\<open>errno\<close> when they succeed.\<close>

definition ptrace_peek :: "ptrace_req \<Rightarrow> int \<Rightarrow> (u64 \<Rightarrow> 'a prog) \<Rightarrow> 'a prog" where
  "ptrace_peek req pid k =
     Sys (Proc (Ptrace req pid)) (\<lambda>r. case r of
        SOk v os \<Rightarrow> SetErrno 0 (k (case os of x # _ \<Rightarrow> oval_u64 x | [] \<Rightarrow> 0))
      | SErr e \<Rightarrow> SetErrno e (k (- 1)))"

text \<open>\<^verbatim>\<open>(val == -1) && errno\<close> after such a request.\<close>

definition peek_check :: "string \<Rightarrow> u64 \<Rightarrow> 'a prog \<Rightarrow> 'a prog \<Rightarrow> 'a prog" where
  "peek_check what val bad k =
     (if val = - 1 then Errno (\<lambda>e. if e \<noteq> 0 then perror what bad else k) else k)"

text \<open>\<^verbatim>\<open>siginfo_t\<close>: the members \<^verbatim>\<open>si_signo\<close>, \<^verbatim>\<open>si_errno\<close>, \<^verbatim>\<open>si_code\<close>, \<^verbatim>\<open>si_addr\<close>.\<close>

definition ptrace_getsiginfo :: "string \<Rightarrow> int \<Rightarrow> 'a prog \<Rightarrow> (int \<Rightarrow> int \<Rightarrow> int \<Rightarrow> u64 \<Rightarrow> 'a prog) \<Rightarrow> 'a prog" where
  "ptrace_getsiginfo what cpid bad k =
     sys_out (Proc (Ptrace PT_Getsiginfo cpid)) [OInt 0, OInt 0, OInt 0, OInt 0] (\<lambda>r os.
     if r \<noteq> 0 then perror what bad
     else k (oval_int (os ! 0)) (oval_int (os ! 1)) (oval_int (os ! 2)) (oval_u64 (os ! 3)))"

subsection \<open>\<^verbatim>\<open>arch_test_ptrace.c\<close>\<close>

definition MODE_GET_INST_ADDR :: int where "MODE_GET_INST_ADDR = 1"
definition MODE_DO_INST :: int where "MODE_DO_INST = 2"
definition MODE_DO_STORE_INST :: int where "MODE_DO_STORE_INST = 3"
definition NOP_INST :: u64 where "NOP_INST = 0"
definition BRK_INST :: u64 where "BRK_INST = 0"
definition TRAP_BRKPT :: int where "TRAP_BRKPT = 1"
definition TRAP_HWBKPT :: int where "TRAP_HWBKPT = 4"

definition get_or_do_inst :: "int \<Rightarrow> u64" where
  "get_or_do_inst mode =
     (if mode = MODE_GET_INST_ADDR then - 1
      else if mode = MODE_DO_INST then 0
      else - 1)"

definition get_or_do_store_inst :: "int \<Rightarrow> u64 option \<Rightarrow> u64 \<Rightarrow> u64" where
  "get_or_do_store_inst mode buf change = - 1"

definition pre_getregset :: "'a prog \<Rightarrow> 'a prog" where "pre_getregset k = k"
definition getregset_check :: "int \<Rightarrow> int" where "getregset_check cpid = - 1"
definition setregset_check :: "int \<Rightarrow> taddr \<Rightarrow> taddr \<Rightarrow> int" where "setregset_check cpid gregno fregno = - 1"
definition setregset_child_check :: "u64 \<Rightarrow> u64 \<Rightarrow> int" where "setregset_child_check gregno fregno = - 1"
definition set_hw_watchpt :: "int \<Rightarrow> u64 \<Rightarrow> int" where "set_hw_watchpt cpid a = - 1"
definition clear_hw_watchpt :: "int \<Rightarrow> int" where "clear_hw_watchpt cpid = - 1"
definition check_trap_addr :: "int \<Rightarrow> u64 \<Rightarrow> int" where "check_trap_addr cpid a = - 1"
definition set_hw_breakpt :: "int \<Rightarrow> u64 \<Rightarrow> int" where "set_hw_breakpt cpid a = - 1"
definition clear_hw_breakpt :: "int \<Rightarrow> int" where "clear_hw_breakpt cpid = - 1"
definition get_check_syscallno :: "int \<Rightarrow> int \<Rightarrow> int" where "get_check_syscallno cpid expno = - 1"

subsection \<open>The function that runs a case\<close>

definition sizeof_sem_t :: u64 where "sizeof_sem_t = 32"

definition unmap_sems :: "u64 \<Rightarrow> u64 \<Rightarrow> (int \<Rightarrow> 'a prog) \<Rightarrow> 'a prog" where
  "unmap_sems cwait pwait k =
     sys_int (Mem (Munmap cwait sizeof_sem_t)) (\<lambda>r1.
     sys_int (Mem (Munmap pwait sizeof_sem_t)) (\<lambda>r2. k (r1 OR r2)))"

text \<open>
  \<^verbatim>\<open>before\<close> is what one case does before it forks, \<^verbatim>\<open>judge\<close> what is asked of the status of the child
  that ended.
\<close>

definition run_child :: "int prog \<Rightarrow> u64 \<Rightarrow> u64 \<Rightarrow> verdict prog" where
  "run_child child pwait cwait =
     call child (\<lambda>func_ret.
     unmap_sems cwait pwait (\<lambda>ret.
     if ret \<noteq> 0 then perror ''[child] munmap()'' (Exit (- 1)) else Exit func_ret))"

definition run_parent ::
  "(int \<Rightarrow> verdict prog \<Rightarrow> verdict prog) \<Rightarrow> int prog \<Rightarrow> u64 \<Rightarrow> u64 \<Rightarrow> verdict prog" where
  "run_parent judge parent pwait cwait =
     call parent (\<lambda>func_ret.
     unmap_sems cwait pwait (\<lambda>ret.
     if ret \<noteq> 0 then perror ''[parent] munmap()'' (Return (Some ''munmap() failed.''))
     else wait_status Wait (\<lambda>pid status.
     if pid \<noteq> - 1 then
       judge status
         (if func_ret \<noteq> 0 then Return (Some ''TP failed.'') else Return None)
     else perror ''wait()'' (Return (Some ''wait() failed.'')))))"

definition ptrace_run ::
  "(verdict prog \<Rightarrow> verdict prog) \<Rightarrow> (int \<Rightarrow> verdict prog \<Rightarrow> verdict prog) \<Rightarrow>
   (u64 \<Rightarrow> u64 \<Rightarrow> int prog) \<Rightarrow> (u64 \<Rightarrow> u64 \<Rightarrow> int \<Rightarrow> int prog) \<Rightarrow> verdict prog" where
  "ptrace_run before judge child_func parent_func =
     sys_ptr (Mem (Mmap 0 sizeof_sem_t (PROT_READ OR PROT_WRITE) (MAP_SHARED OR MAP_ANONYMOUS) (- 1) 0)) (\<lambda>pwait.
     sys_ptr (Mem (Mmap 0 sizeof_sem_t (PROT_READ OR PROT_WRITE) (MAP_SHARED OR MAP_ANONYMOUS) (- 1) 0)) (\<lambda>cwait.
     if pwait = 0 \<or> cwait = 0 then perror ''mmap()'' (Return (Some ''mmap() failed.''))
     else
       sys_int (Proc (Sem_init pwait 0)) (\<lambda>r1.
       sys_int (Proc (Sem_init cwait 0)) (\<lambda>r2.
       if r1 OR r2 \<noteq> 0 then perror ''sem_init()'' (Return (Some ''sem_init() failed.''))
       else
         before (sys_int (Proc Fork) (\<lambda>pid.
         if pid = - 1 then perror ''fork()'' (Return (Some ''fork() failed.''))
         else if pid = 0 then run_child (child_func cwait pwait) pwait cwait
         else run_parent judge (parent_func pwait cwait pid) pwait cwait))))))"

definition judge_exit :: "int \<Rightarrow> verdict prog \<Rightarrow> verdict prog" where
  "judge_exit status k = (if WEXITSTATUS status \<noteq> 0 then Return (Some ''TP failed.'') else k)"

definition judge_kill :: "int \<Rightarrow> verdict prog \<Rightarrow> verdict prog" where
  "judge_kill status k =
     (if WIFSIGNALED status then
        if WTERMSIG status \<noteq> SIGKILL then Return (Some ''child is not terminated by SIGKILL'')
        else Printf ''child terminated by SIGKILL\<newline>'' [] k
      else Return (Some ''child is not terminated by signal''))"

abbreviation ptrace_case :: "(u64 \<Rightarrow> u64 \<Rightarrow> int prog) \<Rightarrow> (u64 \<Rightarrow> u64 \<Rightarrow> int \<Rightarrow> int prog) \<Rightarrow> verdict prog" where
  "ptrace_case \<equiv> ptrace_run (\<lambda>k. k) judge_exit"

subsection \<open>Steps that the cases share\<close>

text \<open>Most children ask to be traced, wake the parent, and wait for it.\<close>

definition traceme :: "int prog \<Rightarrow> int prog" where
  "traceme k = ptrace PT_Traceme 0 (\<lambda>r. if r \<noteq> 0 then perror ''ptrace(PTRACE_TRACEME)'' (Return (- 1)) else k)"

definition child_traced :: "u64 \<Rightarrow> u64 \<Rightarrow> int prog" where
  "child_traced swait swake = traceme (sem_post swake (sem_wait swait (Return 0)))"

definition wait_stop :: "proc_call \<Rightarrow> int \<Rightarrow> int prog \<Rightarrow> int prog" where
  "wait_stop c cpid k =
     wait_status c (\<lambda>pid status.
     if pid = cpid then
       if \<not> WIFSTOPPED status then Printf ''child is not stopped.\<newline>'' [] (Return (- 1)) else k
     else perror ''wait()'' (Return (- 1)))"

definition stop_child :: "u64 \<Rightarrow> u64 \<Rightarrow> int \<Rightarrow> int prog \<Rightarrow> int prog" where
  "stop_child swait swake cpid k =
     sem_wait swait (sys_int (Proc (Kill cpid SIGSTOP)) (\<lambda>r.
     if r \<noteq> 0 then perror ''kill()'' (Return (- 1))
     else sem_post swake (wait_stop Wait cpid k)))"

text \<open>The child continues: on the way to the label \<^verbatim>\<open>out\<close>, and at the label \<^verbatim>\<open>cont\<close>.\<close>

definition continue_child :: "int \<Rightarrow> int prog \<Rightarrow> int prog" where
  "continue_child cpid k =
     ptrace PT_Cont cpid (\<lambda>r. if r \<noteq> 0 then perror ''ptrace(PTRACE_CONT)'' (Return (- 1)) else k)"

definition cont :: "int \<Rightarrow> int \<Rightarrow> int prog" where
  "cont cpid ret = continue_child cpid (Return ret)"

text \<open>The child stops again; a stop that is not a trap leaves through \<^verbatim>\<open>cont\<close>.\<close>

definition wait_trap :: "string \<Rightarrow> int \<Rightarrow> int prog \<Rightarrow> int prog" where
  "wait_trap ind cpid k =
     wait_status Wait (\<lambda>pid status.
     if pid = cpid then
       if WIFSTOPPED status then
         if WSTOPSIG status = SIGTRAP then k
         else Printf (ind @ ''child is stopped by not SIGTRAP (%d).\<newline>'') [FInt (WSTOPSIG status)] (cont cpid (- 1))
       else Printf (ind @ ''child is not stopped.\<newline>'') [] (Return (- 1))
     else perror (ind @ ''wait()'') (Return (- 1)))"

definition trap_info :: "string \<Rightarrow> int \<Rightarrow> int \<Rightarrow> string \<Rightarrow> (u64 \<Rightarrow> int prog) \<Rightarrow> int prog" where
  "trap_info ind cpid code name k =
     Printf (ind @ ''child is stopped by SIGTRAP.\<newline>'') []
     (ptrace_getsiginfo (ind @ ''ptrace(PTRACE_GETSIGINFO)'') cpid (cont cpid (- 1)) (\<lambda>signo err cd addr.
     if signo \<noteq> SIGTRAP then Printf (ind @ ''child si_signo(%d) != SIGTRAP(%d)\<newline>'') [FInt signo, FInt SIGTRAP] (cont cpid (- 1))
     else Printf (ind @ ''child si_signo == SIGTRAP\<newline>'') []
     (if err \<noteq> 0 then Printf (ind @ ''child si_errno(%d) != 0\<newline>'') [FInt err] (cont cpid (- 1))
     else Printf (ind @ ''child si_errno == 0\<newline>'') []
     (if cd \<noteq> code then Printf (ind @ ''child si_code(%d) != '' @ name @ ''(%d)\<newline>'') [FInt cd, FInt code] (cont cpid (- 1))
     else Printf (ind @ ''child si_code == '' @ name @ ''\<newline>'') [] (k addr)))))"

text \<open>The instruction that two cases replace by a breakpoint, and the child that runs it.\<close>

definition child_inst :: "u64 \<Rightarrow> u64 \<Rightarrow> int prog" where
  "child_inst swait swake =
     traceme (SetGlob ''addr'' (get_or_do_inst MODE_GET_INST_ADDR) (Glob ''addr'' (\<lambda>addr.
     if addr = - 1 then
       Printf ''get_or_do_rewrite_inst(MODE_GET_INST_ADDR) failed.\<newline>'' [] (sem_post swake (Return (- 1)))
     else sem_post swake (sem_wait swait
       (if get_or_do_inst MODE_DO_INST \<noteq> 0
        then Printf ''get_or_do_rewrite_inst(MODE_DO_INST) failed.\<newline>'' [] (Return (- 1))
        else Return 0)))))"

definition plant_brk :: "int \<Rightarrow> (u64 \<Rightarrow> u64 \<Rightarrow> int prog) \<Rightarrow> int prog" where
  "plant_brk cpid k =
     ptrace_peek (PT_Peekdata (AVar ''addr'')) cpid (\<lambda>read_val.
     peek_check ''ptrace(PTRACE_PEEKDATA)'' read_val (cont cpid (- 1))
     (ptrace_peek (PT_Peektext (AWord read_val)) cpid (\<lambda>inst_val.
     peek_check ''ptrace(PTRACE_PEEKTEXT)'' read_val (cont cpid (- 1))
     (ptrace (PT_Poketext (AWord read_val) (inst_val AND 0xffffffff00000000 OR BRK_INST)) cpid (\<lambda>r.
     if r \<noteq> 0 then perror ''ptrace(PTRACE_POKETEXT)'' (cont cpid (- 1))
     else continue_child cpid (k read_val inst_val))))))"

subsection \<open>The cases\<close>

text \<open>\<^verbatim>\<open>000.c\<close>: \<^verbatim>\<open>tp_assert(0==1, ...)\<close> is how a failed fork leaves.\<close>

definition ptrace_000 :: "verdict prog" where
  "ptrace_000 =
     sys_int (Proc Fork) (\<lambda>child_pid.
     if child_pid = - 1 then Return (Some ''fork failed.'')
     else if child_pid = 0 then sys_int (Proc (Sleep 1)) (\<lambda>_. Exit 0)
     else
       ptrace PT_Kill child_pid (\<lambda>result. Errno (\<lambda>e.
       Printf ''ptrace()=%ld, errno=%d\<newline>'' [FInt result, FInt e]
       (Return None))))"

text \<open>\<^verbatim>\<open>001.c\<close>: a traced child stops and goes on.\<close>

definition parent_001 :: "u64 \<Rightarrow> u64 \<Rightarrow> int \<Rightarrow> int prog" where
  "parent_001 swait swake cpid =
     stop_child swait swake cpid (Printf ''child is stopped.\<newline>'' [] (continue_child cpid (Return 0)))"

definition ptrace_001 :: "verdict prog" where "ptrace_001 = ptrace_case child_traced parent_001"

text \<open>\<^verbatim>\<open>002.c\<close>: a word of the child's memory is read, and is not the parent's.\<close>

definition CHILD_MAGIC :: u64 where "CHILD_MAGIC = 0x1234567890abcdef"
definition PARENT_MAGIC :: u64 where "PARENT_MAGIC = 0xffaaffaaffaaffaa"

definition child_002 :: "u64 \<Rightarrow> u64 \<Rightarrow> int prog" where
  "child_002 swait swake =
     traceme (SetGlob ''buf'' CHILD_MAGIC (sem_post swake (sem_wait swait
     (Glob ''buf'' (\<lambda>buf.
      if buf \<noteq> CHILD_MAGIC then Printf ''why child process buf rewrite ??? (0x%lx)\<newline>'' [FInt (uint buf)] (Return (- 1))
      else Return 0)))))"

definition parent_002 :: "u64 \<Rightarrow> u64 \<Rightarrow> int \<Rightarrow> int prog" where
  "parent_002 swait swake cpid =
     SetGlob ''buf'' PARENT_MAGIC (stop_child swait swake cpid
     (ptrace_peek (PT_Peekdata (AVar ''buf'')) cpid (\<lambda>read_val.
     peek_check ''ptrace(PTRACE_PEEKDATA)'' read_val (cont cpid (- 1))
     (Glob ''buf'' (\<lambda>buf.
      if buf \<noteq> PARENT_MAGIC
      then Printf ''why parent process buf rewrite ??? (0x%lx)\<newline>'' [FInt (uint buf)] (cont cpid (- 1))
      else if read_val = CHILD_MAGIC
      then Printf ''PTRACE_PEEKDATA read_val(0x%lx) == 0x%lx\<newline>'' [FInt (uint read_val), FInt (uint CHILD_MAGIC)] (cont cpid 0)
      else Printf ''PTRACE_PEEKDATA read_val(0x%lx) != 0x%lx\<newline>'' [FInt (uint read_val), FInt (uint CHILD_MAGIC)]
        (cont cpid (- 1)))))))"

definition ptrace_002 :: "verdict prog" where "ptrace_002 = ptrace_case child_002 parent_002"

text \<open>\<^verbatim>\<open>003.c\<close>: an instruction of the child is read, at an address the child supplies.\<close>

definition child_003 :: "u64 \<Rightarrow> u64 \<Rightarrow> int prog" where
  "child_003 swait swake =
     traceme (SetGlob ''addr'' (get_or_do_inst MODE_GET_INST_ADDR)
     (sem_post swake (sem_wait swait (Return 0))))"

definition parent_003 :: "u64 \<Rightarrow> u64 \<Rightarrow> int \<Rightarrow> int prog" where
  "parent_003 swait swake cpid =
     stop_child swait swake cpid
     (ptrace_peek (PT_Peekdata (AVar ''addr'')) cpid (\<lambda>read_val.
     peek_check ''ptrace(PTRACE_PEEKDATA)'' read_val (cont cpid (- 1))
     (ptrace_peek (PT_Peektext (AWord read_val)) cpid (\<lambda>read_val.
     peek_check ''ptrace(PTRACE_PEEKTEXT)'' read_val (cont cpid (- 1))
     (let inst_code = ucast (drop_bit 32 read_val) :: u32 in
      if ucast inst_code = NOP_INST
      then Printf ''PTRACE_PEEKTEXT inst_code(0x%x) == 0x%lx\<newline>'' [FInt (uint inst_code), FInt (uint NOP_INST)] (cont cpid 0)
      else Printf ''PTRACE_PEEKTEXT inst_code(0x%x) != 0x%lx\<newline>'' [FInt (uint inst_code), FInt (uint NOP_INST)]
        (cont cpid (- 1)))))))"

definition ptrace_003 :: "verdict prog" where "ptrace_003 = ptrace_case child_003 parent_003"

text \<open>
  \<^verbatim>\<open>004.c\<close> and \<^verbatim>\<open>007.c\<close>: the user area is to be refused with \<^verbatim>\<open>EIO\<close>. The value and \<^verbatim>\<open>errno\<close> are
  tested together; a request that succeeds does not set \<^verbatim>\<open>errno\<close> when it writes.
\<close>

definition expect_EIO :: "string \<Rightarrow> bool \<Rightarrow> int \<Rightarrow> int prog" where
  "expect_EIO what failed cpid =
     Errno (\<lambda>e.
     if \<not> failed \<and> e = 0 then Printf (''ptrace('' @ what @ '') why successed ???\<newline>'') [] (cont cpid (- 1))
     else if e = EIO then Printf (''ptrace('' @ what @ '') expected errno EIO(%d) catch\<newline>'') [FInt EIO] (cont cpid 0)
     else
       Printf (''ptrace('' @ what @ '') unexpected errno(%d)\<newline>'') [FInt e]
       (Printf ''expected errno = EIO(%d)\<newline>'' [FInt EIO] (cont cpid (- 1))))"

definition parent_004 :: "u64 \<Rightarrow> u64 \<Rightarrow> int \<Rightarrow> int prog" where
  "parent_004 swait swake cpid =
     stop_child swait swake cpid
     (ptrace_peek (PT_Peekuser (AWord 0)) cpid (\<lambda>read_val. expect_EIO ''PTRACE_PEEKUSER'' (read_val = - 1) cpid))"

definition ptrace_004 :: "verdict prog" where "ptrace_004 = ptrace_case child_traced parent_004"

text \<open>\<^verbatim>\<open>005.c\<close>: a word of the child's memory is written.\<close>

definition child_005 :: "u64 \<Rightarrow> u64 \<Rightarrow> int prog" where
  "child_005 swait swake =
     traceme (SetGlob ''buf'' CHILD_MAGIC (Glob ''buf'' (\<lambda>buf.
     Printf ''before PTRACE_POKEDATA buf(0x%lx)\<newline>'' [FInt (uint buf)]
     (sem_post swake (sem_wait swait (Glob ''buf'' (\<lambda>buf.
      if buf = PARENT_MAGIC
      then Printf ''after PTRACE_POKEDATA buf(0x%lx) == 0x%lx\<newline>'' [FInt (uint buf), FInt (uint PARENT_MAGIC)] (Return 0)
      else Printf ''after PTRACE_POKEDATA buf(0x%lx) != 0x%lx\<newline>'' [FInt (uint buf), FInt (uint PARENT_MAGIC)]
        (Return (- 1)))))))))"

definition parent_005 :: "u64 \<Rightarrow> u64 \<Rightarrow> int \<Rightarrow> int prog" where
  "parent_005 swait swake cpid =
     SetGlob ''buf'' CHILD_MAGIC (stop_child swait swake cpid
     (ptrace (PT_Pokedata (AVar ''buf'') PARENT_MAGIC) cpid (\<lambda>r.
     if r \<noteq> 0 then perror ''ptrace(PTRACE_POKEDATA)'' (cont cpid (- 1))
     else Glob ''buf'' (\<lambda>buf.
       if buf \<noteq> CHILD_MAGIC
       then Printf ''why parent process buf rewrite ??? (0x%lx)\<newline>'' [FInt (uint buf)] (cont cpid (- 1))
       else cont cpid 0))))"

definition ptrace_005 :: "verdict prog" where "ptrace_005 = ptrace_case child_005 parent_005"

text \<open>\<^verbatim>\<open>006.c\<close>: a breakpoint in the child's text.\<close>

definition parent_006 :: "u64 \<Rightarrow> u64 \<Rightarrow> int \<Rightarrow> int prog" where
  "parent_006 swait swake cpid =
     stop_child swait swake cpid
     (plant_brk cpid (\<lambda>read_val inst_val.
     wait_trap [] cpid
     (trap_info [] cpid TRAP_BRKPT ''TRAP_BRKPT'' (\<lambda>si_addr.
     if si_addr \<noteq> read_val then
       Printf ''child is stopped not change TEXT addr.\<newline>'' []
       (Printf ''expection:0x%lx, info.si_addr:0x%lx\<newline>'' [FInt (uint read_val), FInt (uint si_addr)] (cont cpid (- 1)))
     else
       Printf ''child is stopped change TEXT addr.\<newline>'' []
       (ptrace (PT_Poketext (AWord read_val) inst_val) cpid (\<lambda>r.
        if r \<noteq> 0 then perror ''ptrace(PTRACE_POKETEXT)'' (cont cpid (- 1)) else cont cpid 0))))))"

definition ptrace_006 :: "verdict prog" where "ptrace_006 = ptrace_case child_inst parent_006"

definition parent_007 :: "u64 \<Rightarrow> u64 \<Rightarrow> int \<Rightarrow> int prog" where
  "parent_007 swait swake cpid =
     stop_child swait swake cpid
     (ptrace (PT_Pokeuser (AWord 0) 0) cpid (\<lambda>read_val. expect_EIO ''PTRACE_POKEUSER'' (read_val = - 1) cpid))"

definition ptrace_007 :: "verdict prog" where "ptrace_007 = ptrace_case child_traced parent_007"

text \<open>\<^verbatim>\<open>008.c\<close>: the child's floating point registers; the case clears its own before it forks.\<close>

definition child_008 :: "u64 \<Rightarrow> u64 \<Rightarrow> int prog" where
  "child_008 swait swake =
     traceme (pre_getregset (sem_post swake
     (sys_int (Proc Feraiseexcept) (\<lambda>_. sem_wait swait (Return 0)))))"

definition parent_008 :: "u64 \<Rightarrow> u64 \<Rightarrow> int \<Rightarrow> int prog" where
  "parent_008 swait swake cpid =
     sem_wait swait (sys_int (Proc (Usleep 1000)) (\<lambda>_. sys_int (Proc (Kill cpid SIGSTOP)) (\<lambda>r.
     if r \<noteq> 0 then perror ''kill()'' (Return (- 1))
     else sem_post swake (wait_stop Wait cpid
       (sys_out (Proc (Ptrace PT_Getfpregs cpid)) [OInt 0] (\<lambda>r os.
        if r \<noteq> 0 then perror ''ptrace(PTRACE_GETFPREGS)'' (cont cpid (- 1))
        else
          Printf ''child's fpregs.swd is 0x%x (expected NOT ZERO)\<newline>'' [FInt (oval_int (hd os))]
          (if oval_int (hd os) = 0 then cont cpid (- 1) else cont cpid 0)))))))"

definition ptrace_008 :: "verdict prog" where
  "ptrace_008 = ptrace_run (\<lambda>k. sys_int (Proc Feclearexcept) (\<lambda>_. k)) judge_exit child_008 parent_008"

text \<open>\<^verbatim>\<open>009.c\<close>: what stopped the child.\<close>

definition parent_009 :: "u64 \<Rightarrow> u64 \<Rightarrow> int \<Rightarrow> int prog" where
  "parent_009 swait swake cpid =
     stop_child swait swake cpid
     (ptrace_getsiginfo ''ptrace(PTRACE_GETSIGINFO)'' cpid (cont cpid (- 1)) (\<lambda>signo err code _.
     Printf ''si_signo = 0x%x\<newline>'' [FInt signo]
     (Printf ''si_errno = 0x%x\<newline>'' [FInt err]
     (Printf ''si_code  = 0x%x\<newline>'' [FInt code]
     (if signo \<noteq> SIGSTOP
      then Printf ''si_signo value invalid, expection SIGSTOP(0x%x)\<newline>'' [FInt SIGSTOP] (cont cpid (- 1))
      else if err \<noteq> 0 then Printf ''si_errno value invalid, expection 0\<newline>'' [] (cont cpid (- 1))
      else if code \<noteq> 0 then Printf ''si_code value invalid, expection 0\<newline>'' [] (cont cpid (- 1))
      else cont cpid 0)))))"

definition ptrace_009 :: "verdict prog" where "ptrace_009 = ptrace_case child_traced parent_009"

text \<open>\<^verbatim>\<open>010.c\<close>: registers written by the parent.\<close>

definition child_010 :: "u64 \<Rightarrow> u64 \<Rightarrow> int prog" where
  "child_010 swait swake =
     traceme (pre_getregset (sem_post swake (sem_wait swait
     (Glob ''regno[0]'' (\<lambda>r0. Glob ''regno[1]'' (\<lambda>r1.
      if setregset_child_check r0 r1 \<noteq> 0 then Printf ''setregset_child_check failed.\<newline>'' [] (Return (- 1))
      else Return 0))))))"

definition parent_010 :: "u64 \<Rightarrow> u64 \<Rightarrow> int \<Rightarrow> int prog" where
  "parent_010 swait swake cpid =
     stop_child swait swake cpid
     (if setregset_check cpid (AVar ''regno[0]'') (AVar ''regno[1]'') \<noteq> 0
      then Printf ''setregset_check failed.\<newline>'' [] (cont cpid (- 1))
      else
        Glob ''regno[0]'' (\<lambda>r0. ptrace (PT_Pokedata (AVar ''regno[0]'') r0) cpid (\<lambda>r.
        if r \<noteq> 0 then perror ''ptrace(PTRACE_POKEDATA)'' (cont cpid (- 1))
        else Glob ''regno[1]'' (\<lambda>r1. ptrace (PT_Pokedata (AVar ''regno[1]'') r1) cpid (\<lambda>r.
        if r \<noteq> 0 then perror ''ptrace(PTRACE_POKEDATA)'' (cont cpid (- 1))
        else cont cpid 0)))))"

definition ptrace_010 :: "verdict prog" where "ptrace_010 = ptrace_case child_010 parent_010"

text \<open>\<^verbatim>\<open>011.c\<close>: a watchpoint on \<^verbatim>\<open>buf\<close>, whose address is \<^verbatim>\<open>at\<close>.\<close>

definition child_011 :: "u64 \<Rightarrow> u64 \<Rightarrow> u64 \<Rightarrow> int prog" where
  "child_011 at swait swake =
     traceme (SetGlob ''addr'' (get_or_do_store_inst MODE_GET_INST_ADDR None 0) (Glob ''addr'' (\<lambda>addr.
     if addr = - 1 then
       Printf ''get_or_do_store_inst(MODE_GET_INST_ADDR) failed.\<newline>'' [] (sem_post swake (Return (- 1)))
     else sem_post swake (sem_wait swait
       (if get_or_do_store_inst MODE_DO_STORE_INST (Some at) 0xcafecafecafecafe \<noteq> 0
        then Printf ''get_or_do_store_inst(MODE_DO_STORE_INST) failed.\<newline>'' [] (Return (- 1))
        else Return 0)))))"

definition parent_011 :: "u64 \<Rightarrow> u64 \<Rightarrow> u64 \<Rightarrow> int \<Rightarrow> int prog" where
  "parent_011 at swait swake cpid =
     stop_child swait swake cpid
     (ptrace_peek (PT_Peekdata (AVar ''addr'')) cpid (\<lambda>inst_addr.
     peek_check ''ptrace(PTRACE_PEEKDATA)'' inst_addr (cont cpid (- 1))
     (if set_hw_watchpt cpid at \<noteq> 0 then Printf ''set_hw_watchpt failed.\<newline>'' [] (cont cpid (- 1))
      else continue_child cpid
        (wait_trap [] cpid
        (trap_info [] cpid TRAP_HWBKPT ''TRAP_HWBKPT'' (\<lambda>si_addr.
        if si_addr \<noteq> at then
          Printf ''child si_addr != change value addr\<newline>'' []
          (Printf ''expection:0x%lx, info.si_addr:0x%lx\<newline>'' [FInt (uint at), FInt (uint si_addr)] (cont cpid (- 1)))
        else Printf ''child si_addr == change value addr\<newline>'' []
        (if check_trap_addr cpid inst_addr \<noteq> 0 then Printf ''check_trap_addr failed.\<newline>'' [] (cont cpid (- 1))
         else if clear_hw_watchpt cpid \<noteq> 0 then Printf ''clear_hw_watchpt failed.\<newline>'' [] (cont cpid (- 1))
         else cont cpid 0)))))))"

definition ptrace_011 :: "u64 \<Rightarrow> verdict prog" where "ptrace_011 at = ptrace_case (child_011 at) (parent_011 at)"

text \<open>\<^verbatim>\<open>012.c\<close>: a breakpoint register.\<close>

definition parent_012 :: "u64 \<Rightarrow> u64 \<Rightarrow> int \<Rightarrow> int prog" where
  "parent_012 swait swake cpid =
     stop_child swait swake cpid
     (ptrace_peek (PT_Peekdata (AVar ''addr'')) cpid (\<lambda>inst_addr.
     peek_check ''ptrace(PTRACE_PEEKDATA)'' inst_addr (cont cpid (- 1))
     (if set_hw_breakpt cpid inst_addr \<noteq> 0 then Printf ''set_hw_breakpt failed.\<newline>'' [] (cont cpid (- 1))
      else continue_child cpid
        (wait_trap [] cpid
        (trap_info [] cpid TRAP_HWBKPT ''TRAP_HWBKPT'' (\<lambda>si_addr.
        if si_addr \<noteq> inst_addr then
          Printf ''child si_addr != hwbreakpoint addr\<newline>'' []
          (Printf ''expection:0x%lx, info.si_addr:0x%lx\<newline>'' [FInt (uint inst_addr), FInt (uint si_addr)] (cont cpid (- 1)))
        else Printf ''child si_addr == hwbreakpoint addr\<newline>'' []
        (if clear_hw_breakpt cpid \<noteq> 0 then Printf ''clear_hw_breakpt failed.\<newline>'' [] (cont cpid (- 1))
         else cont cpid 0)))))))"

definition ptrace_012 :: "verdict prog" where "ptrace_012 = ptrace_case child_inst parent_012"

text \<open>\<^verbatim>\<open>013.c\<close>: the signal's description is changed and put back; the sums are of type \<^verbatim>\<open>int\<close>.\<close>

definition parent_013 :: "u64 \<Rightarrow> u64 \<Rightarrow> int \<Rightarrow> int prog" where
  "parent_013 swait swake cpid =
     stop_child swait swake cpid
     (ptrace_getsiginfo ''ptrace(PTRACE_GETSIGINFO)'' cpid (cont cpid (- 1)) (\<lambda>signo err code _.
     ptrace (PT_Setsiginfo (c_int (signo + 1)) (c_int (err + 1)) (c_int (code + 1))) cpid (\<lambda>r.
     if r \<noteq> 0 then perror ''ptrace(PTRACE_SETSIGINFO)'' (cont cpid (- 1))
     else ptrace_getsiginfo ''ptrace(PTRACE_GETSIGINFO)'' cpid (cont cpid (- 1)) (\<lambda>signo' err' code' _.
     if c_int (signo + 1) \<noteq> signo' then Printf ''si_signo not change.\<newline>'' [] (cont cpid (- 1))
     else if c_int (err + 1) \<noteq> err' then Printf ''si_errno not change.\<newline>'' [] (cont cpid (- 1))
     else if c_int (code + 1) \<noteq> code' then Printf ''si_code not change.\<newline>'' [] (cont cpid (- 1))
     else
       Printf ''siginfo change value check OK.\<newline>'' []
       (ptrace (PT_Setsiginfo signo err code) cpid (\<lambda>r.
        if r \<noteq> 0 then perror ''ptrace(PTRACE_SETSIGINFO)'' (cont cpid (- 1)) else cont cpid 0))))))"

definition ptrace_013 :: "verdict prog" where "ptrace_013 = ptrace_case child_traced parent_013"

text \<open>\<^verbatim>\<open>014.c\<close>: options that exist and one that does not.\<close>

definition parent_014 :: "u64 \<Rightarrow> u64 \<Rightarrow> int \<Rightarrow> int prog" where
  "parent_014 swait swake cpid =
     stop_child swait swake cpid
     (ptrace (PT_Setoptions (1 OR 2 OR 4 OR 8 OR 16 OR 32)) cpid (\<lambda>r.
     if r \<noteq> 0 then perror ''ptrace(PTRACE_SETOPTIONS)'' (cont cpid (- 1))
     else Printf ''set supported options, OK.\<newline>'' []
     (ptrace (PT_Setoptions 0x1234567890abcdef) cpid (\<lambda>r.
     if r = 0 then Printf ''ptrace(PTRACE_SETOPTIONS) why successed illigal option ???\<newline>'' [] (cont cpid (- 1))
     else Errno (\<lambda>e.
       if e = EINVAL then Printf ''set illigal option, errno == EINVAL.\<newline>'' [] (cont cpid 0)
       else Printf ''set illigal option, errno(%d) != EINVAL(%d).\<newline>'' [FInt e, FInt EINVAL] (cont cpid (- 1)))))))"

definition ptrace_014 :: "verdict prog" where "ptrace_014 = ptrace_case child_traced parent_014"

text \<open>\<^verbatim>\<open>015.c\<close>: the message of a fork event.\<close>

definition child_015 :: "u64 \<Rightarrow> u64 \<Rightarrow> int prog" where
  "child_015 swait swake =
     traceme (sem_post swake (sem_wait swait
     (sys_int (Proc Fork) (\<lambda>gcpid.
      if gcpid = - 1 then perror ''grandchild fork()'' (Return (- 1))
      else if gcpid = 0 then Exit 0
      else
        SetGlob ''eventpid'' (word_of_int gcpid) (Glob ''eventpid'' (\<lambda>eventpid.
        Printf ''eventpid = 0x%lx\<newline>'' [FInt (uint eventpid)]
        (sys_int (Proc (Raise SIGSTOP)) (\<lambda>_. Return 0))))))))"

definition parent_015 :: "u64 \<Rightarrow> u64 \<Rightarrow> int \<Rightarrow> int prog" where
  "parent_015 swait swake cpid =
     stop_child swait swake cpid
     (ptrace (PT_Setoptions 2) cpid (\<lambda>r.
     if r \<noteq> 0 then perror ''ptrace(PTRACE_SETOPTIONS)'' (cont cpid (- 1))
     else continue_child cpid (wait_stop Wait cpid
     (continue_child cpid (wait_stop (Waitpid cpid 0) cpid
     (ptrace_peek (PT_Peekdata (AVar ''eventpid'')) cpid (\<lambda>read_val.
     peek_check ''ptrace(PTRACE_PEEKDATA)'' read_val (cont cpid (- 1))
     (sys_out (Proc (Ptrace PT_Geteventmsg cpid)) [OInt (- 1)] (\<lambda>r os.
     if r \<noteq> 0 then perror ''ptrace(PTRACE_GETEVENTMSG)'' (cont cpid (- 1))
     else if read_val = oval_u64 (hd os) then
       Printf ''eventmsg value OK.\<newline>'' []
       (sys_int (Proc (Kill (c_int (uint (oval_u64 (hd os)))) SIGKILL)) (\<lambda>_. cont cpid 0))
     else
       Printf ''eventmsg value NG.\<newline>'' []
       (Printf ''expection:0x%lx eventmsg:0x%lx\<newline>'' [FInt (uint read_val), FInt (uint (oval_u64 (hd os)))]
        (cont cpid (- 1))))))))))))"

definition ptrace_015 :: "verdict prog" where "ptrace_015 = ptrace_case child_015 parent_015"

text \<open>\<^verbatim>\<open>016.c\<close>: a stop at a system call, number 39 on this architecture.\<close>

definition child_016 :: "u64 \<Rightarrow> u64 \<Rightarrow> int prog" where
  "child_016 swait swake =
     traceme (sem_post swake (sem_wait swait (sys_int (Proc Getpid) (\<lambda>_. Return 0))))"

definition parent_016 :: "u64 \<Rightarrow> u64 \<Rightarrow> int \<Rightarrow> int prog" where
  "parent_016 swait swake cpid =
     stop_child swait swake cpid
     (ptrace PT_Syscall cpid (\<lambda>r.
     if r \<noteq> 0 then perror ''ptrace(PTRACE_SYSCALL)'' (cont cpid (- 1))
     else wait_stop Wait cpid
       (if get_check_syscallno cpid 39 \<noteq> 0 then Printf ''get_check_syscallno failed.\<newline>'' [] (cont cpid (- 1))
        else cont cpid 0)))"

definition ptrace_016 :: "verdict prog" where "ptrace_016 = ptrace_case child_016 parent_016"

text \<open>\<^verbatim>\<open>017.c\<close>: from the breakpoint on, five single steps of four bytes each.\<close>

fun single_steps :: "nat \<Rightarrow> int \<Rightarrow> u64 \<Rightarrow> int \<Rightarrow> int prog" where
  "single_steps 0 i read_val cpid = cont cpid 0"
| "single_steps (Suc n) i read_val cpid =
     Printf ''[count%02d]\<newline>'' [FInt i]
     (ptrace PT_Singlestep cpid (\<lambda>r.
     if r \<noteq> 0 then perror ''  ptrace(PTRACE_SINGLESTEP)'' (cont cpid (- 1))
     else wait_trap ''  '' cpid
       (trap_info ''  '' cpid TRAP_HWBKPT ''TRAP_HWBKPT'' (\<lambda>si_addr.
        if si_addr \<noteq> read_val then
          Printf ''  child is stopped not singlestep addr.\<newline>'' []
          (Printf ''  expection:0x%lx, info.si_addr:0x%lx\<newline>'' [FInt (uint read_val), FInt (uint si_addr)] (cont cpid (- 1)))
        else
          Printf ''  child is stopped singlestep addr.\<newline>'' []
          (single_steps n (i + 1) (read_val + 4) cpid)))))"

definition parent_017 :: "u64 \<Rightarrow> u64 \<Rightarrow> int \<Rightarrow> int prog" where
  "parent_017 swait swake cpid =
     stop_child swait swake cpid
     (plant_brk cpid (\<lambda>read_val inst_val.
     wait_trap [] cpid
     (ptrace (PT_Poketext (AWord read_val) inst_val) cpid (\<lambda>r.
      if r \<noteq> 0 then perror ''ptrace(PTRACE_POKETEXT)'' (cont cpid (- 1))
      else single_steps 5 0 (read_val + 4) cpid))))"

definition ptrace_017 :: "verdict prog" where "ptrace_017 = ptrace_case child_inst parent_017"

text \<open>\<^verbatim>\<open>018.c\<close>: the parent kills.\<close>

definition parent_018 :: "u64 \<Rightarrow> u64 \<Rightarrow> int \<Rightarrow> int prog" where
  "parent_018 swait swake cpid =
     stop_child swait swake cpid
     (ptrace PT_Kill cpid (\<lambda>r. if r \<noteq> 0 then perror ''ptrace(PTRACE_KILL)'' (Return (- 1)) else Return 0))"

definition ptrace_018 :: "verdict prog" where
  "ptrace_018 = ptrace_run (\<lambda>k. k) judge_kill child_traced parent_018"

text \<open>\<^verbatim>\<open>019.c\<close> and \<^verbatim>\<open>020.c\<close>: the parent attaches itself to the child.\<close>

definition child_waits :: "u64 \<Rightarrow> u64 \<Rightarrow> int prog" where
  "child_waits swait swake = sem_post swake (sem_wait swait (Return 0))"

definition attach_child :: "u64 \<Rightarrow> u64 \<Rightarrow> int \<Rightarrow> int prog \<Rightarrow> int prog" where
  "attach_child swait swake cpid k =
     sem_wait swait (ptrace PT_Attach cpid (\<lambda>r.
     if r \<noteq> 0 then perror ''ptrace(PTRACE_ATTACH)'' (Return (- 1))
     else sem_post swake (wait_stop Wait cpid k)))"

definition parent_019 :: "u64 \<Rightarrow> u64 \<Rightarrow> int \<Rightarrow> int prog" where
  "parent_019 swait swake cpid =
     attach_child swait swake cpid (Printf ''child is stopped.\<newline>'' [] (continue_child cpid (Return 0)))"

definition ptrace_019 :: "verdict prog" where "ptrace_019 = ptrace_case child_waits parent_019"

definition parent_020 :: "u64 \<Rightarrow> u64 \<Rightarrow> int \<Rightarrow> int prog" where
  "parent_020 swait swake cpid =
     attach_child swait swake cpid
     (ptrace PT_Detach cpid (\<lambda>r.
      if r \<noteq> 0 then perror ''ptrace(PTRACE_DETACH)'' (Return (- 1))
      else Printf ''child detach OK.\<newline>'' [] (Return 0)))"

definition ptrace_020 :: "verdict prog" where "ptrace_020 = ptrace_case child_waits parent_020"

end
