(* ===== verification/Ptrace_Runs.thy ===== *)
theory Ptrace_Runs
  imports Schedules Ptrace_Suite
begin

text \<open>
  What the \<^verbatim>\<open>ptrace\<close> cases come to on a kernel that does what is documented, whatever the order in
  which it runs the processes.
\<close>

subsection \<open>A tracer and a tracee\<close>

record pairing =
  pr_p :: int
  pr_c :: int
  pr_pw :: u64
  pr_cw :: u64
  pr_maps :: "u64 list"
  pr_sems :: "u64 \<Rightarrow> nat"

definition pair_ok :: "pairing \<Rightarrow> bool" where
  "pair_ok P \<longleftrightarrow> 0 < pr_p P \<and> 0 < pr_c P \<and> pr_p P \<noteq> pr_c P \<and> pr_pw P \<noteq> pr_cw P"

lemma pair_neqs: "pair_ok P \<Longrightarrow> pr_c P \<noteq> pr_p P \<and> pr_c P \<noteq> - 1 \<and> pr_cw P \<noteq> pr_pw P"
  by (auto simp: pair_ok_def)

definition root_proc :: kproc where
  "root_proc = \<lparr>kp_parent = 0, kp_tracer = None, kp_state = Running, kp_pending = [], kp_info = (0, 0, 0, 0)\<rparr>"

definition pair_world :: "pairing \<Rightarrow> kproc option \<Rightarrow> nat \<Rightarrow> nat \<Rightarrow> (int \<Rightarrow> string \<Rightarrow> u64) \<Rightarrow> world" where
  "pair_world P kid a b vs =
     \<lparr>w_pids = [pr_p P, pr_c P], w_procs = (\<lambda>_. None)(pr_p P \<mapsto> root_proc, pr_c P := kid), w_maps = pr_maps P,
      w_sems = (pr_sems P)(pr_pw P := a, pr_cw P := b), w_vars = vs\<rparr>"

definition pair_config :: "pairing \<Rightarrow> task \<Rightarrow> task option \<Rightarrow> world \<Rightarrow> config" where
  "pair_config P t u w = ((\<lambda>_. None)(pr_p P \<mapsto> t, pr_c P := u), w)"

definition pair_ends :: "pkernel \<Rightarrow> pairing \<Rightarrow> task \<Rightarrow> task option \<Rightarrow> kproc option \<Rightarrow> nat \<Rightarrow> nat \<Rightarrow> (int \<Rightarrow> string \<Rightarrow> u64) \<Rightarrow> verdict \<Rightarrow> bool" where
  "pair_ends K P t u kid a b vs v = settles K (pr_p P) (pair_config P t u (pair_world P kid a b vs)) v"

lemma pair_no_other [simp]:
  "q \<noteq> pr_p P \<Longrightarrow> q \<noteq> pr_c P \<Longrightarrow> lstep K (Run q) (pair_config P t u (pair_world P kid a b vs)) = None"
  "q \<noteq> pr_p P \<Longrightarrow> q \<noteq> pr_c P \<Longrightarrow> lstep K (Deliver q) (pair_config P t u (pair_world P kid a b vs)) = None"
  by (simp_all add: pair_config_def pair_world_def can_run_def deliver_def)

lemma pair_parent_runs:
  "pair_ok P \<Longrightarrow> can_run (pair_world P kid a b vs) (pr_p P)"
  "pair_ok P \<Longrightarrow> deliver (pr_p P) (pair_world P kid a b vs) = None"
  by (simp_all add: pair_ok_def pair_world_def can_run_def deliver_def root_proc_def)

lemma pair_parent_deliver:
  "pair_ok P \<Longrightarrow> lstep K (Deliver (pr_p P)) (pair_config P t u (pair_world P kid a b vs)) = None"
  by (simp add: pair_config_def pair_parent_runs)

text \<open>Where the child cannot move, and where the parent cannot.\<close>

definition waits_on :: "u64 \<Rightarrow> 'a prog \<Rightarrow> bool" where
  "waits_on s q = (case q of Sys c k \<Rightarrow> c = Proc (Sem_wait s) | _ \<Rightarrow> False)"

lemma waits_on_sys_int [simp]: "waits_on s (sys_int c k) \<longleftrightarrow> c = Proc (Sem_wait s)"
  by (simp add: waits_on_def sys_int_def)

definition child_idle :: "pairing \<Rightarrow> task option \<Rightarrow> kproc option \<Rightarrow> nat \<Rightarrow> bool" where
  "child_idle P u kid b =
     (case kid of
        None \<Rightarrow> True
      | Some k \<Rightarrow>
          (case kp_state k of
             Running \<Rightarrow> kp_pending k = [] \<and> b = 0 \<and> (case u of Some (q, e, os) \<Rightarrow> waits_on (pr_cw P) q | None \<Rightarrow> True)
           | _ \<Rightarrow> True))"

lemma waits_on_node: "waits_on s q \<Longrightarrow> w_sems w s = 0 \<Longrightarrow> run_node K p (q, e, os) w = None"
  by (cases q) (auto simp: waits_on_def)

lemma child_idle_steps:
  assumes "pair_ok P" "child_idle P u kid b"
  shows "lstep K (Run (pr_c P)) (pair_config P t u (pair_world P kid a b vs)) = None"
    "lstep K (Deliver (pr_c P)) (pair_config P t u (pair_world P kid a b vs)) = None"
proof -
  show "lstep K (Deliver (pr_c P)) (pair_config P t u (pair_world P kid a b vs)) = None"
    using assms by (auto simp: child_idle_def pair_config_def deliver_def pair_world_def split: option.splits pstate.splits list.splits)
  show "lstep K (Run (pr_c P)) (pair_config P t u (pair_world P kid a b vs)) = None"
  proof (cases u)
    case None
    then show ?thesis by (simp add: pair_config_def)
  next
    case (Some x)
    obtain q e os where x: "x = (q, e, os)" by (metis prod_cases3)
    show ?thesis
    proof (cases "can_run (pair_world P kid a b vs) (pr_c P)")
      case True
      then have "waits_on (pr_cw P) q \<and> b = 0"
        using assms(2) Some x by (auto simp: child_idle_def can_run_def pair_world_def split: option.splits)
      then have "node_step q" "run_node K (pr_c P) x (pair_world P kid a b vs) = None"
        unfolding x by (auto simp: node_step_def waits_on_def pair_world_def intro: waits_on_node)
      then show ?thesis
        using Some x run_task_step [of x K "pr_c P"] by (simp add: pair_config_def)
    qed (simp add: pair_config_def)
  qed
qed

lemma label_cases:
  "l \<noteq> Run p \<Longrightarrow> (l = Deliver p \<Longrightarrow> Q) \<Longrightarrow> (l = Run c \<Longrightarrow> Q) \<Longrightarrow> (l = Deliver c \<Longrightarrow> Q) \<Longrightarrow>
   (\<And>q. q \<noteq> p \<Longrightarrow> q \<noteq> c \<Longrightarrow> l = Run q \<or> l = Deliver q \<Longrightarrow> Q) \<Longrightarrow> Q"
  by (cases l) auto

text \<open>A step of the parent alone.\<close>

lemma pair_only_parent:
  assumes "pair_ok P" "child_idle P u kid b" "node_step (fst t)"
    "run_node K (pr_p P) t (pair_world P kid a b vs) = Some (t', pair_world P kid' a' b' vs')"
  shows "pair_ends K P t u kid a b vs v \<longleftrightarrow> pair_ends K P t' u kid' a' b' vs' v"
  unfolding pair_ends_def
proof (rule settles_only [where l = "Run (pr_p P)"])
  show "lstep K (Run (pr_p P)) (pair_config P t u (pair_world P kid a b vs)) = Some (pair_config P t' u (pair_world P kid' a' b' vs'))"
    using assms(1,4) pair_parent_runs(1) [OF assms(1)] run_task_step [OF assms(3)]
    by (simp add: pair_config_def pair_ok_def fun_upd_twist)
  show "lstep K l (pair_config P t u (pair_world P kid a b vs)) = None" if "l \<noteq> Run (pr_p P)" for l
    using that child_idle_steps [OF assms(1,2)] pair_parent_deliver [OF assms(1)]
    by (elim label_cases [where c = "pr_c P"]) (auto simp del: lstep.simps)
qed

text \<open>A private step of the parent.\<close>

lemma pair_private:
  assumes "pair_ok P" "private_prog (fst t)" "\<And>x. u = Some x \<Longrightarrow> harmless (fst x)"
    "run_node K (pr_p P) t (pair_world P kid a b vs) = Some (t', pair_world P kid' a' b' vs')"
  shows "pair_ends K P t u kid a b vs v \<longleftrightarrow> pair_ends K P t' u kid' a' b' vs' v"
  unfolding pair_ends_def
proof (rule settles_private)
  show "lstep K (Run (pr_p P)) (pair_config P t u (pair_world P kid a b vs)) = Some (pair_config P t' u (pair_world P kid' a' b' vs'))"
    using assms(1,4) pair_parent_runs(1) [OF assms(1)] run_task_node [of t] assms(2)
    by (simp add: pair_config_def pair_ok_def fun_upd_twist)
  show "private_at (pr_p P) (pair_config P t u (pair_world P kid a b vs))"
    using assms(1,2) by (cases t) (simp add: private_at_def pair_config_def pair_ok_def)
  show "quiet (pr_p P) (pair_config P t u (pair_world P kid a b vs))"
    using assms(3) by (auto simp: quiet_def pair_config_def)
qed

text \<open>A step of the child alone: the parent waits for the semaphore or for the child.\<close>

definition parent_idle :: "pairing \<Rightarrow> 'a prog \<Rightarrow> kproc option \<Rightarrow> nat \<Rightarrow> bool" where
  "parent_idle P q kid a \<longleftrightarrow>
     (\<exists>k. q = Sys (Proc (Sem_wait (pr_pw P))) k) \<and> a = 0 \<or>
     (\<exists>k. q = Sys (Proc Wait) k) \<and> (\<exists>k. kid = Some k \<and> kp_parent k = pr_p P \<and> kp_state k = Running)"

lemma parent_idle_simps [simp]:
  "parent_idle P (sys_int (Proc (Sem_wait s)) k) kid a \<longleftrightarrow> s = pr_pw P \<and> a = 0"
  "parent_idle P (wait_status Wait k') kid a \<longleftrightarrow> (\<exists>k. kid = Some k \<and> kp_parent k = pr_p P \<and> kp_state k = Running)"
  by (auto simp: parent_idle_def sys_int_def wait_status_def sys_out_def)

lemma parent_idle_step:
  assumes "pair_ok P" "parent_idle P q kid a"
  shows "lstep K (Run (pr_p P)) (pair_config P (q, e, os) u (pair_world P kid a b vs)) = None"
proof -
  have "run_node K (pr_p P) (q, e, os) (pair_world P kid a b vs) = None" "node_step q"
    using assms by (auto simp: parent_idle_def node_step_def pair_world_def pair_ok_def do_wait_def reports_def waits_for_def root_proc_def)
  then show ?thesis
    using run_task_step [of "(q, e, os)" K "pr_p P"] assms(1) by (simp add: pair_config_def pair_ok_def)
qed

lemma pair_only_child:
  assumes "pair_ok P" "parent_idle P q kid a" "kid = Some k" "kp_state k = Running" "kp_pending k = []" "node_step (fst t)"
    "run_node K (pr_c P) t (pair_world P kid a b vs) = Some (t', pair_world P kid' a' b' vs')"
  shows "pair_ends K P (q, e, os) (Some t) kid a b vs v \<longleftrightarrow> pair_ends K P (q, e, os) (Some t') kid' a' b' vs' v"
  unfolding pair_ends_def
proof (rule settles_only [where l = "Run (pr_c P)"])
  show "lstep K (Run (pr_c P)) (pair_config P (q, e, os) (Some t) (pair_world P kid a b vs)) = Some (pair_config P (q, e, os) (Some t') (pair_world P kid' a' b' vs'))"
    using assms run_task_step [OF assms(6)]
    by (simp add: pair_config_def pair_ok_def can_run_def pair_world_def)
  have "lstep K (Deliver (pr_c P)) (pair_config P (q, e, os) (Some t) (pair_world P kid a b vs)) = None"
    using assms(3-5) by (simp add: pair_config_def deliver_def pair_world_def)
  then show "lstep K l (pair_config P (q, e, os) (Some t) (pair_world P kid a b vs)) = None" if "l \<noteq> Run (pr_c P)" for l
    using that parent_idle_step [OF assms(1,2)] pair_parent_deliver [OF assms(1)]
    by (elim label_cases [where c = "pr_p P"]) (auto simp del: lstep.simps)
qed

lemma pair_exit:
  assumes "pair_ok P" "parent_idle P q (Some k) a" "kp_state k = Running" "kp_pending k = []"
  shows "pair_ends K P (q, e, os) (Some (Exit n, e', os')) (Some k) a b vs v \<longleftrightarrow>
    pair_ends K P (q, e, os) None (Some (k\<lparr>kp_state := Zombie (exit_status n)\<rparr>)) a b vs v"
  unfolding pair_ends_def
proof (rule settles_only [where l = "Run (pr_c P)"])
  let ?c = "pair_config P (q, e, os) (Some (Exit n, e', os')) (pair_world P (Some k) a b vs)"
  show "lstep K (Run (pr_c P)) ?c = Some (pair_config P (q, e, os) None (pair_world P (Some (k\<lparr>kp_state := Zombie (exit_status n)\<rparr>)) a b vs))"
    using assms by (simp add: pair_config_def pair_ok_def can_run_def pair_world_def exit_proc_def upd_proc_def)
  have "lstep K (Deliver (pr_c P)) ?c = None"
    using assms(3,4) by (simp add: pair_config_def deliver_def pair_world_def)
  then show "lstep K l ?c = None" if "l \<noteq> Run (pr_c P)" for l
    using that parent_idle_step [OF assms(1,2)] pair_parent_deliver [OF assms(1)]
    by (elim label_cases [where c = "pr_p P"]) (auto simp del: lstep.simps)
qed

text \<open>The delivery of a signal to a child that is traced, and of the one that ends it.\<close>

lemma pair_deliver:
  assumes "pair_ok P" "parent_idle P q (Some k) a" "kp_state k = Running" "kp_pending k = s # ss"
    "s = SIGKILL \<or> kp_tracer k \<noteq> None"
  shows "pair_ends K P (q, e, os) u (Some k) a b vs v \<longleftrightarrow>
    (if s = SIGKILL then pair_ends K P (q, e, os) None (Some (k\<lparr>kp_state := Zombie s, kp_pending := []\<rparr>)) a b vs v
     else pair_ends K P (q, e, os) u (Some (k\<lparr>kp_state := Stopped s False, kp_pending := ss, kp_info := (s, 0, 0, 0)\<rparr>)) a b vs v)"
proof -
  let ?c = "pair_config P (q, e, os) u (pair_world P (Some k) a b vs)"
  have "lstep K (Run (pr_c P)) ?c = None"
    using assms(3,4) by (simp add: pair_config_def can_run_def pair_world_def)
  then have other: "lstep K l ?c = None" if "l \<noteq> Deliver (pr_c P)" for l
    using that parent_idle_step [OF assms(1,2)] pair_parent_deliver [OF assms(1)]
    by (cases l; cases "l = Run (pr_c P)"; cases "l = Run (pr_p P)"; cases "l = Deliver (pr_p P)") (auto simp del: lstep.simps)
  have "lstep K (Deliver (pr_c P)) ?c = Some
    (if s = SIGKILL then pair_config P (q, e, os) None (pair_world P (Some (k\<lparr>kp_state := Zombie s, kp_pending := []\<rparr>)) a b vs)
     else pair_config P (q, e, os) u (pair_world P (Some (k\<lparr>kp_state := Stopped s False, kp_pending := ss, kp_info := (s, 0, 0, 0)\<rparr>)) a b vs))"
    using assms by (auto simp: pair_config_def pair_ok_def deliver_def pair_world_def upd_proc_def)
  from settles_only [OF this other] show ?thesis
    by (simp add: pair_ends_def split: if_splits)
qed

lemma pair_return:
  assumes "pair_ok P" "child_idle P u kid b"
  shows "pair_ends K P (Return r, e, os) u kid a b vs v \<longleftrightarrow> v = r"
proof -
  let ?c = "pair_config P (Return r, e, os) u (pair_world P kid a b vs)"
  have "lstep K (Run (pr_p P)) ?c = None" using assms(1) by (simp add: pair_config_def pair_ok_def)
  then have "stuck K ?c"
    unfolding stuck_def
    using child_idle_steps [OF assms, where t = "(Return r, e, os)" and K = K and a = a and vs = vs] pair_parent_deliver [OF assms(1)]
    by (metis label.exhaust pair_no_other)
  then show ?thesis
    using assms(1) by (auto simp: pair_ends_def settles_stuck verdict_of_def pair_config_def pair_ok_def)
qed

subsection \<open>Operation by operation\<close>

definition calm :: "task option \<Rightarrow> bool" where
  "calm u = (case u of None \<Rightarrow> True | Some x \<Rightarrow> harmless (fst x))"

lemma calm_simps [simp]: "calm None" "calm (Some (q, e, os)) = harmless q"
  by (simp_all add: calm_def)

lemma pair_calm:
  assumes "pair_ok P" "calm u" "private_prog q"
    "run_node K (pr_p P) (q, e, os) (pair_world P kid a b vs) = Some (t', pair_world P kid' a' b' vs')"
  shows "pair_ends K P (q, e, os) u kid a b vs v \<longleftrightarrow> pair_ends K P t' u kid' a' b' vs' v"
  using assms by (intro pair_private) (auto simp: calm_def)

text \<open>The parent, whatever the child does.\<close>

lemma par_local:
  assumes "pair_ok P" "calm u"
  shows "pair_ends K P (Errno f, e, os) u kid a b vs v \<longleftrightarrow> pair_ends K P (f e, e, os) u kid a b vs v"
    "pair_ends K P (SetErrno i q, e, os) u kid a b vs v \<longleftrightarrow> pair_ends K P (q, i, os) u kid a b vs v"
    "pair_ends K P (Glob x g, e, os) u kid a b vs v \<longleftrightarrow> pair_ends K P (g (vs (pr_p P) x), e, os) u kid a b vs v"
    "pair_ends K P (SetGlob x y q, e, os) u kid a b vs v \<longleftrightarrow>
       pair_ends K P (q, e, os) u kid a b (vs(pr_p P := (vs (pr_p P))(x := y))) v"
    "pair_ends K P (Fprintf h fmt args q, e, os) u kid a b vs v \<longleftrightarrow>
       pair_ends K P (q, e, os @ [(h, fmt, args)]) u kid a b vs v"
    "pair_ends K P (sys_int (Mem (Munmap m n)) k, e, os) u kid a b vs v \<longleftrightarrow> pair_ends K P (k 0, e, os) u kid a b vs v"
    "pair_ends K P (sys_int (Proc (Sem_post (pr_cw P))) k, e, os) u kid a b vs v \<longleftrightarrow>
       pair_ends K P (k 0, e, os) u kid a (Suc b) vs v"
  unfolding sys_int_def by (rule pair_calm [OF assms], simp, simp add: pair_world_def)+

text \<open>The parent, where the child cannot move.\<close>

lemma par_sem_wait:
  assumes "pair_ok P" "child_idle P u kid b" "0 < a"
  shows "pair_ends K P (sys_int (Proc (Sem_wait (pr_pw P))) k, e, os) u kid a b vs v \<longleftrightarrow>
    pair_ends K P (k 0, e, os) u kid (a - 1) b vs v"
  unfolding sys_int_def using assms
  by (intro pair_only_parent) (auto simp: pair_world_def pair_ok_def)

lemma par_kill:
  assumes "pair_ok P" "child_idle P u (Some r) b" "\<And>st. kp_state r \<noteq> Zombie st"
  shows "pair_ends K P (sys_int (Proc (Kill (pr_c P) s)) k, e, os) u (Some r) a b vs v \<longleftrightarrow>
    pair_ends K P (k 0, e, os) u (Some (r\<lparr>kp_pending := kp_pending r @ [s]\<rparr>)) a b vs v"
  unfolding sys_int_def using assms
  by (intro pair_only_parent) (auto simp: pair_world_def pair_ok_def do_kill_def upd_proc_def split: pstate.split)

lemma par_attach:
  assumes "pair_ok P" "child_idle P u (Some r) b" "\<And>st. kp_state r \<noteq> Zombie st" "kp_tracer r = None"
  shows "pair_ends K P (sys_int (Proc (Ptrace PT_Attach (pr_c P))) k, e, os) u (Some r) a b vs v \<longleftrightarrow>
    pair_ends K P (k 0, e, os) u (Some (r\<lparr>kp_tracer := Some (pr_p P), kp_pending := kp_pending r @ [SIGSTOP]\<rparr>)) a b vs v"
  unfolding sys_int_def using assms
  by (intro pair_only_parent) (auto simp: pair_world_def pair_ok_def do_ptrace_def upd_proc_def)

text \<open>The parent, where the child is stopped.\<close>

definition held :: "pairing \<Rightarrow> kproc \<Rightarrow> bool" where
  "held P r \<longleftrightarrow> kp_tracer r = Some (pr_p P) \<and> (case kp_state r of Stopped s _ \<Rightarrow> True | _ \<Rightarrow> False)"

lemma held_idle: "held P r \<Longrightarrow> child_idle P u (Some r) b"
  by (auto simp: held_def child_idle_def split: pstate.splits)

lemma held_tracee: "pair_ok P \<Longrightarrow> held P r \<Longrightarrow> stopped_tracee (pair_world P (Some r) a b vs) (pr_p P) (pr_c P)"
  by (auto simp: held_def stopped_tracee_def pair_world_def split: pstate.splits)

lemma par_request:
  assumes "pair_ok P" "held P r" "req \<noteq> PT_Traceme" "req \<noteq> PT_Attach"
    "ptrace_stopped K (pr_p P) req (pr_c P) (pair_world P (Some r) a b vs) = (res, pair_world P kid' a' b' vs')"
  shows "pair_ends K P (Sys (Proc (Ptrace req (pr_c P))) k, e, os) u (Some r) a b vs v \<longleftrightarrow>
    pair_ends K P (k res, e, os) u kid' a' b' vs' v"
  by (rule pair_only_parent [OF assms(1) held_idle [OF assms(2)]])
    (use assms(3-5) held_tracee [OF assms(1,2)] in \<open>simp_all add: do_ptrace_def\<close>)

lemma par_granted:
  assumes "pair_ok P" "held P r" "req \<noteq> PT_Traceme" "req \<noteq> PT_Attach"
    "ptrace_stopped K (pr_p P) req (pr_c P) (pair_world P (Some r) a b vs) = (SOk 0 [], pair_world P kid' a' b' vs')"
  shows "pair_ends K P (sys_int (Proc (Ptrace req (pr_c P))) k, e, os) u (Some r) a b vs v \<longleftrightarrow>
    pair_ends K P (k 0, e, os) u kid' a' b' vs' v"
  unfolding sys_int_def by (subst par_request [OF assms]) simp

lemma par_requests:
  assumes "pair_ok P" "held P r"
  shows "pair_ends K P (sys_int (Proc (Ptrace PT_Cont (pr_c P))) k, e, os) u (Some r) a b vs v \<longleftrightarrow>
      pair_ends K P (k 0, e, os) u (Some (r\<lparr>kp_state := Running\<rparr>)) a b vs v"
    "pair_ends K P (sys_int (Proc (Ptrace PT_Kill (pr_c P))) k, e, os) u (Some r) a b vs v \<longleftrightarrow>
      pair_ends K P (k 0, e, os) u (Some (r\<lparr>kp_state := Running, kp_pending := SIGKILL # kp_pending r\<rparr>)) a b vs v"
    "pair_ends K P (sys_int (Proc (Ptrace PT_Detach (pr_c P))) k, e, os) u (Some r) a b vs v \<longleftrightarrow>
      pair_ends K P (k 0, e, os) u (Some (r\<lparr>kp_state := Running, kp_tracer := None\<rparr>)) a b vs v"
    "pair_ends K P (sys_int (Proc (Ptrace (PT_Pokedata (AVar x) y) (pr_c P))) k, e, os) u (Some r) a b vs v \<longleftrightarrow>
      pair_ends K P (k 0, e, os) u (Some r) a b (vs(pr_c P := (vs (pr_c P))(x := y))) v"
    "pair_ends K P (sys_int (Proc (Ptrace (PT_Setsiginfo i j l) (pr_c P))) k, e, os) u (Some r) a b vs v \<longleftrightarrow>
      pair_ends K P (k 0, e, os) u (Some (r\<lparr>kp_info := (case kp_info r of (_, _, _, d) \<Rightarrow> (i, j, l, d))\<rparr>)) a b vs v"
  by (rule par_granted [OF assms], simp, simp, cases r, use assms(1) in
    \<open>simp add: resume_def upd_proc_def pair_world_def pair_ok_def split: prod.split\<close>)+

lemma par_setoptions:
  assumes "pair_ok P" "held P r"
  shows "pair_ends K P (sys_int (Proc (Ptrace (PT_Setoptions o') (pr_c P))) k, e, os) u (Some r) a b vs v \<longleftrightarrow>
    (if o' AND NOT ptrace_options = 0 then pair_ends K P (k 0, e, os) u (Some r) a b vs v
     else pair_ends K P (SetErrno EINVAL (k (- 1)), e, os) u (Some r) a b vs v)"
  unfolding sys_int_def
  by (subst par_request [OF assms, where a' = a and b' = b and vs' = vs and kid' = "Some r"
        and res = "if o' AND NOT ptrace_options = 0 then SOk 0 [] else SErr EINVAL"])
    simp_all

lemma par_getsiginfo:
  assumes "pair_ok P" "held P r" "calm u"
  shows "pair_ends K P (ptrace_getsiginfo what (pr_c P) bad k, e, os) u (Some r) a b vs v \<longleftrightarrow>
    (case kp_info r of (i, j, l, d) \<Rightarrow> pair_ends K P (k i j l (word_of_int d), e, os) u (Some r) a b vs v)"
proof -
  obtain i j l d where "kp_info r = (i, j, l, d)" by (metis prod_cases4)
  then show ?thesis
    using assms(1) unfolding ptrace_getsiginfo_def sys_out_def
    by (subst par_request [OF assms(1,2), where res = "SOk 0 [OInt i, OInt j, OInt l, OInt d]" and kid' = "Some r" and a' = a and b' = b and vs' = vs])
      (auto simp: pair_world_def pair_ok_def oval_int_def)
qed

lemma par_peek:
  assumes "pair_ok P" "held P r" "calm u"
  shows "pair_ends K P (ptrace_peek (PT_Peekdata (AVar x)) (pr_c P) k, e, os) u (Some r) a b vs v \<longleftrightarrow>
      pair_ends K P (k (vs (pr_c P) x), 0, os) u (Some r) a b vs v"
    "pk_text K y = None \<Longrightarrow>
     pair_ends K P (ptrace_peek (PT_Peektext (AWord y)) (pr_c P) k, e, os) u (Some r) a b vs v \<longleftrightarrow>
      pair_ends K P (k (- 1), EIO, os) u (Some r) a b vs v"
proof -
  have peeks: "pair_ends K P (ptrace_peek req (pr_c P) k, e, os) u (Some r) a b vs v \<longleftrightarrow>
      pair_ends K P (k (case res of SOk v (x # _) \<Rightarrow> oval_u64 x | SErr e \<Rightarrow> - 1 | _ \<Rightarrow> 0), case res of SErr e \<Rightarrow> e | _ \<Rightarrow> 0, os) u (Some r) a b vs v"
    if "req \<noteq> PT_Traceme" "req \<noteq> PT_Attach"
      "ptrace_stopped K (pr_p P) req (pr_c P) (pair_world P (Some r) a b vs) = (res, pair_world P (Some r) a b vs)" for req res
    unfolding ptrace_peek_def
    by (subst par_request [OF assms(1,2) that]) (simp add: par_local(2) [OF assms(1,3)] split: sysres.split list.split)
  show "pair_ends K P (ptrace_peek (PT_Peekdata (AVar x)) (pr_c P) k, e, os) u (Some r) a b vs v \<longleftrightarrow>
      pair_ends K P (k (vs (pr_c P) x), 0, os) u (Some r) a b vs v"
    by (subst peeks [where res = "SOk 0 [OInt (uint (vs (pr_c P) x))]"]) (simp_all add: peek_def pair_world_def)
  show "pair_ends K P (ptrace_peek (PT_Peektext (AWord y)) (pr_c P) k, e, os) u (Some r) a b vs v \<longleftrightarrow>
      pair_ends K P (k (- 1), EIO, os) u (Some r) a b vs v" if "pk_text K y = None"
    by (subst peeks [where res = "SErr EIO"]) (simp_all add: peek_def that)
qed

text \<open>The requests on the user area, as the kernel under test answers them.\<close>

definition user_area :: "pkernel \<Rightarrow> sysres \<Rightarrow> bool" where
  "user_area K res \<longleftrightarrow>
     (\<forall>p t w. pk_other K p (Proc (Ptrace (PT_Peekuser (AWord 0)) t)) w = (res, w) \<and>
              pk_other K p (Proc (Ptrace (PT_Pokeuser (AWord 0) 0) t)) w = (res, w))"

lemma par_user:
  assumes "pair_ok P" "held P r" "user_area K res"
  shows "pair_ends K P (ptrace_peek (PT_Peekuser (AWord 0)) (pr_c P) k, e, os) u (Some r) a b vs v \<longleftrightarrow>
      pair_ends K P (case res of SOk v os \<Rightarrow> SetErrno 0 (k (case os of x # _ \<Rightarrow> oval_u64 x | [] \<Rightarrow> 0)) | SErr e \<Rightarrow> SetErrno e (k (- 1)), e, os) u (Some r) a b vs v"
    "pair_ends K P (sys_int (Proc (Ptrace (PT_Pokeuser (AWord 0) 0) (pr_c P))) k', e, os) u (Some r) a b vs v \<longleftrightarrow>
      pair_ends K P (case res of SOk v os \<Rightarrow> k' v | SErr e \<Rightarrow> SetErrno e (k' (- 1)), e, os) u (Some r) a b vs v"
  unfolding ptrace_peek_def sys_int_def
  by (rule par_request [OF assms(1,2)], simp, simp, use assms(3) in \<open>simp add: user_area_def\<close>)+

text \<open>The parent's \<^verbatim>\<open>wait\<close>, for a stop and for the end.\<close>

lemma par_wait_stop:
  assumes "pair_ok P" "kp_parent r = pr_p P" "kp_tracer r = Some (pr_p P)" "kp_state r = Stopped s False"
  shows "pair_ends K P (wait_status Wait k, e, os) u (Some r) a b vs v \<longleftrightarrow>
    pair_ends K P (k (pr_c P) (stop_status s), e, os) u (Some (r\<lparr>kp_state := Stopped s True\<rparr>)) a b vs v"
proof -
  have "do_wait (pr_p P) (pair_world P (Some r) a b vs) =
    Some (SOk (pr_c P) [OInt (stop_status s)], pair_world P (Some (r\<lparr>kp_state := Stopped s True\<rparr>)) a b vs)"
    using assms by (cases r) (auto simp: do_wait_def pair_world_def pair_ok_def waits_for_def reports_def told_def upd_proc_def root_proc_def)
  moreover have "child_idle P u (Some r) b" using assms(4) by (simp add: child_idle_def)
  ultimately show ?thesis
    unfolding wait_status_def sys_out_def using assms(1)
    by (intro pair_only_parent) (simp_all add: oval_int_def)
qed

lemma par_wait_end:
  assumes "pair_ok P" "kp_parent r = pr_p P" "kp_state r = Zombie st"
  shows "pair_ends K P (wait_status Wait k, e, os) u (Some r) a b vs v \<longleftrightarrow>
    pair_ends K P (k (pr_c P) st, e, os) u None a b vs v"
proof -
  have "do_wait (pr_p P) (pair_world P (Some r) a b vs) = Some (SOk (pr_c P) [OInt st], pair_world P None a b vs)"
    using assms by (cases r) (auto simp: do_wait_def pair_world_def pair_ok_def waits_for_def reports_def told_def root_proc_def)
  moreover have "child_idle P u (Some r) b" using assms(3) by (simp add: child_idle_def)
  ultimately show ?thesis
    unfolding wait_status_def sys_out_def using assms(1)
    by (intro pair_only_parent) (simp_all add: oval_int_def)
qed

text \<open>The child, where the parent cannot move.\<close>

lemma kid_step:
  assumes "pair_ok P" "parent_idle P q (Some r) a" "kp_state r = Running" "kp_pending r = []"
  shows "pair_ends K P (q, e, os) (Some (Glob x g, e', os')) (Some r) a b vs v \<longleftrightarrow>
      pair_ends K P (q, e, os) (Some (g (vs (pr_c P) x), e', os')) (Some r) a b vs v"
    "pair_ends K P (q, e, os) (Some (SetGlob x y q', e', os')) (Some r) a b vs v \<longleftrightarrow>
      pair_ends K P (q, e, os) (Some (q', e', os')) (Some r) a b (vs(pr_c P := (vs (pr_c P))(x := y))) v"
    "pair_ends K P (q, e, os) (Some (Fprintf h fmt args q', e', os')) (Some r) a b vs v \<longleftrightarrow>
      pair_ends K P (q, e, os) (Some (q', e', os' @ [(h, fmt, args)])) (Some r) a b vs v"
    "pair_ends K P (q, e, os) (Some (sys_int (Mem (Munmap m n)) k, e', os')) (Some r) a b vs v \<longleftrightarrow>
      pair_ends K P (q, e, os) (Some (k 0, e', os')) (Some r) a b vs v"
    "pair_ends K P (q, e, os) (Some (sys_int (Proc (Sem_post (pr_pw P))) k, e', os')) (Some r) a b vs v \<longleftrightarrow>
      pair_ends K P (q, e, os) (Some (k 0, e', os')) (Some r) (Suc a) b vs v"
    "0 < b \<Longrightarrow> pair_ends K P (q, e, os) (Some (sys_int (Proc (Sem_wait (pr_cw P))) k, e', os')) (Some r) a b vs v \<longleftrightarrow>
      pair_ends K P (q, e, os) (Some (k 0, e', os')) (Some r) a (b - 1) vs v"
    "kp_tracer r = None \<Longrightarrow> pair_ends K P (q, e, os) (Some (sys_int (Proc (Ptrace PT_Traceme 0)) k, e', os')) (Some r) a b vs v \<longleftrightarrow>
      pair_ends K P (q, e, os) (Some (k 0, e', os')) (Some (r\<lparr>kp_tracer := Some (kp_parent r)\<rparr>)) a b vs v"
  unfolding sys_int_def
  by (rule pair_only_child [OF assms(1,2) refl assms(3,4)], simp,
      use assms(1) pair_neqs [OF assms(1)] in \<open>simp add: pair_world_def pair_ok_def do_ptrace_def upd_proc_def fun_upd_twist\<close>)+

subsection \<open>The start\<close>

text \<open>
  A kernel that grants what the cases ask: process numbers that are not in use, and two mappings that
  do not meet.
\<close>

definition grants :: "pkernel \<Rightarrow> bool" where
  "grants K \<longleftrightarrow>
     (\<forall>w. dom (w_procs w) \<subseteq> set (w_pids w) \<longrightarrow> (\<exists>c. pk_newpid K w = Some c \<and> 0 < c \<and> w_procs w c = None)) \<and>
     (\<forall>w. length (w_maps w) < 2 \<longrightarrow> (\<exists>b. pk_newmap K w = Some b \<and> b \<noteq> 0 \<and> b \<notin> set (w_maps w)))"

definition init_config :: "int \<Rightarrow> verdict prog \<Rightarrow> (u64 \<Rightarrow> nat) \<Rightarrow> (string \<Rightarrow> u64) \<Rightarrow> config" where
  "init_config p q ss vs =
     ([p \<mapsto> (q, 0, [])],
      \<lparr>w_pids = [p], w_procs = [p \<mapsto> root_proc], w_maps = [], w_sems = ss, w_vars = (\<lambda>_. vs)\<rparr>)"

lemma solo_step:
  assumes "w_procs w = [p \<mapsto> root_proc]" "run_task K p t ([p \<mapsto> t], w) = Some c'"
  shows "settles K p' ([p \<mapsto> t], w) v \<longleftrightarrow> settles K p' c' v"
proof (rule settles_only [where l = "Run p"])
  show "lstep K (Run p) ([p \<mapsto> t], w) = Some c'" using assms by (simp add: can_run_def root_proc_def)
  show "lstep K l ([p \<mapsto> t], w) = None" if "l \<noteq> Run p" for l
    using that assms(1) by (cases l) (auto simp: deliver_def root_proc_def)
qed

lemma solo_sys_int:
  assumes "w_procs w = [p \<mapsto> root_proc]" "do_call K p c w = Some (SOk r os', w')" "c \<noteq> Proc Fork"
  shows "settles K p' ([p \<mapsto> (sys_int c k, e, os)], w) v \<longleftrightarrow> settles K p' ([p \<mapsto> (k r, e, os)], w') v"
  by (rule solo_step [OF assms(1)]) (use assms(2,3) run_task_step in \<open>simp add: sys_int_def\<close>)

lemma solo_fork:
  assumes "w_procs w = [p \<mapsto> root_proc]" "pk_newpid K w = Some c" "c \<noteq> p"
  shows "settles K p' ([p \<mapsto> (sys_int (Proc Fork) k, e, os)], w) v \<longleftrightarrow>
    settles K p' ([p \<mapsto> (k c, e, os), c \<mapsto> (k 0, e, [])], fork_proc p c w) v"
  by (rule solo_step [OF assms(1)]) (use assms in \<open>simp add: sys_int_def\<close>)

definition new_kid :: "int \<Rightarrow> kproc" where
  "new_kid p = \<lparr>kp_parent = p, kp_tracer = None, kp_state = Running, kp_pending = [], kp_info = (0, 0, 0, 0)\<rparr>"

lemma ptrace_start:
  assumes "grants K" "0 < p"
  obtains P where "pair_ok P" "pr_p P = p"
    "\<And>judge child parent v.
      settles K p (init_config p (ptrace_run (\<lambda>k. k) judge child parent) ss vs) v \<longleftrightarrow>
      pair_ends K P (run_parent judge (parent (pr_pw P) (pr_cw P) (pr_c P)) (pr_pw P) (pr_cw P), 0, [])
        (Some (run_child (child (pr_cw P) (pr_pw P)) (pr_pw P) (pr_cw P), 0, [])) (Some (new_kid p)) 0 0 (\<lambda>_. vs) v"
proof -
  define w0 where "w0 = \<lparr>w_pids = [p], w_procs = [p \<mapsto> root_proc], w_maps = [], w_sems = ss, w_vars = (\<lambda>_. vs)\<rparr>"
  obtain pw where pw: "pk_newmap K w0 = Some pw" "pw \<noteq> 0"
    using assms(1) [unfolded grants_def, THEN conjunct2, rule_format, of w0] by (auto simp: w0_def)
  define w1 where "w1 = w0\<lparr>w_maps := pw # []\<rparr>"
  obtain cw where cw: "pk_newmap K w1 = Some cw" "cw \<noteq> 0" "cw \<notin> set (w_maps w1)"
    using assms(1) [unfolded grants_def, THEN conjunct2, rule_format, of w1] by (auto simp: w1_def)
  define w2 where "w2 = w1\<lparr>w_maps := cw # pw # [], w_sems := ss(pw := 0, cw := 0)\<rparr>"
  obtain c where c: "pk_newpid K w2 = Some c" "0 < c" "w_procs w2 c = None"
    using assms(1) [unfolded grants_def, THEN conjunct1, rule_format, of w2] by (auto simp: w2_def w1_def w0_def)
  define P where "P = \<lparr>pr_p = p, pr_c = c, pr_pw = pw, pr_cw = cw, pr_maps = cw # pw # [], pr_sems = ss\<rparr>"
  have cp: "c \<noteq> p" using c(3) by (auto simp: w2_def w1_def w0_def)
  have ok: "pair_ok P" using assms(2) c cw cp by (auto simp: pair_ok_def P_def w1_def)
  show ?thesis
  proof (rule that [of P])
    show "pair_ok P" "pr_p P = p" using ok by (simp_all add: P_def)
    show "settles K p (init_config p (ptrace_run (\<lambda>k. k) judge child parent) ss vs) v \<longleftrightarrow>
      pair_ends K P (run_parent judge (parent (pr_pw P) (pr_cw P) (pr_c P)) (pr_pw P) (pr_cw P), 0, [])
        (Some (run_child (child (pr_cw P) (pr_pw P)) (pr_pw P) (pr_cw P), 0, [])) (Some (new_kid p)) 0 0 (\<lambda>_. vs) v"
      (is "?L \<longleftrightarrow> ?R") for judge child parent v
    proof -
      have "?L \<longleftrightarrow> settles K p ([p \<mapsto> (ptrace_run (\<lambda>k. k) judge child parent, 0, [])], w0) v"
        by (simp add: init_config_def w0_def)
      also have "\<dots> \<longleftrightarrow> ?R"
        unfolding ptrace_run_def sys_ptr_def
        apply (subst solo_sys_int [where w' = w1 and r = "uint pw" and os' = "[]"], simp add: w0_def, simp add: pw(1) w1_def, simp add: w0_def, simp)
        apply (subst solo_sys_int [where w' = "w1\<lparr>w_maps := cw # pw # []\<rparr>" and r = "uint cw" and os' = "[]"], simp add: w0_def w1_def, simp add: cw(1), simp add: w1_def w0_def, simp)
        apply (simp add: pw(2) cw(2))
        apply (subst solo_sys_int [where w' = "w1\<lparr>w_maps := cw # pw # [], w_sems := ss(pw := 0)\<rparr>" and r = 0 and os' = "[]"], simp add: w0_def w1_def, simp add: w1_def w0_def, simp)
        apply (subst solo_sys_int [where w' = w2 and r = 0 and os' = "[]"], simp add: w0_def w1_def, simp add: w1_def w0_def w2_def, simp)
        apply simp
        apply (subst solo_fork [OF _ c(1) cp], simp add: w0_def w1_def w2_def)
        using c(2) cp apply (simp add: pair_ends_def pair_config_def P_def pair_world_def fork_proc_def new_kid_def w2_def w1_def w0_def fun_upd_idem)
        done
      finally show ?thesis .
    qed
  qed
qed

subsection \<open>The cases\<close>

lemma harmless_sys_int [simp]: "harmless (sys_int c k) \<longleftrightarrow> harmless_call c \<and> (\<forall>v. harmless (k v))"
  by (auto simp: sys_int_def split: sysres.split)

lemma harmless_if [simp]: "harmless (if b then x else y) \<longleftrightarrow> (if b then harmless x else harmless y)"
  by simp

lemma call_if [simp]: "call (if b then x else y) f = (if b then call x f else call y f)"
  by simp

lemma call_wait_status [simp]: "call (wait_status c k) f = wait_status c (\<lambda>p s. call (k p s) f)"
  by (simp add: wait_status_def sys_out_def fun_eq_iff split: sysres.split)

lemma call_ptrace_peek [simp]: "call (ptrace_peek req c k) f = ptrace_peek req c (\<lambda>x. call (k x) f)"
  by (simp add: ptrace_peek_def fun_eq_iff split: sysres.split)

lemma call_ptrace_getsiginfo [simp]:
  "call (ptrace_getsiginfo what c bad k) f = ptrace_getsiginfo what c (call bad f) (\<lambda>i j l d. call (k i j l d) f)"
  by (simp add: ptrace_getsiginfo_def sys_out_def perror_def fun_eq_iff split: sysres.split)

lemmas pair_steps = par_local par_sem_wait par_kill par_attach par_requests par_setoptions par_getsiginfo par_peek
  par_wait_stop par_wait_end kid_step pair_exit pair_deliver pair_return child_idle_def held_def

lemmas pair_progs = run_parent_def run_child_def unmap_sems_def stop_child_def attach_child_def wait_stop_def
  continue_child_def cont_def traceme_def child_traced_def child_waits_def sem_post_def sem_wait_def perror_def peek_check_def
  judge_exit_def judge_kill_def

lemma status_words [simp]:
  "WIFSTOPPED (stop_status 19)" "WEXITSTATUS (exit_status 0) = 0" "WEXITSTATUS (exit_status (- 1)) = 255"
  "WIFSIGNALED 9" "WTERMSIG 9 = 9"
  by (simp_all add: WIFSTOPPED_def stop_status_def WEXITSTATUS_def exit_status_def WIFSIGNALED_def WTERMSIG_def)

lemma ends_001:
  assumes "pair_ok P"
  shows "pair_ends K P (run_parent judge_exit (parent_001 (pr_pw P) (pr_cw P) (pr_c P)) (pr_pw P) (pr_cw P), 0, [])
      (Some (run_child (child_traced (pr_cw P) (pr_pw P)) (pr_pw P) (pr_cw P), 0, [])) (Some (new_kid (pr_p P))) 0 0 vs v
    \<longleftrightarrow> v = None"
  using assms pair_neqs [OF assms(1)] by (simp add: pair_progs parent_001_def new_kid_def pair_steps)

lemma ends_002:
  assumes "pair_ok P"
  shows "pair_ends K P (run_parent judge_exit (parent_002 (pr_pw P) (pr_cw P) (pr_c P)) (pr_pw P) (pr_cw P), 0, [])
      (Some (run_child (child_002 (pr_cw P) (pr_pw P)) (pr_pw P) (pr_cw P), 0, [])) (Some (new_kid (pr_p P))) 0 0 vs v
    \<longleftrightarrow> v = None"
  using assms pair_neqs [OF assms(1)] by (simp add: pair_progs parent_002_def new_kid_def pair_steps child_002_def CHILD_MAGIC_def PARENT_MAGIC_def)

lemma ends_005:
  assumes "pair_ok P"
  shows "pair_ends K P (run_parent judge_exit (parent_005 (pr_pw P) (pr_cw P) (pr_c P)) (pr_pw P) (pr_cw P), 0, [])
      (Some (run_child (child_005 (pr_cw P) (pr_pw P)) (pr_pw P) (pr_cw P), 0, [])) (Some (new_kid (pr_p P))) 0 0 vs v
    \<longleftrightarrow> v = None"
  using assms pair_neqs [OF assms(1)] by (simp add: pair_progs parent_005_def new_kid_def pair_steps child_005_def CHILD_MAGIC_def PARENT_MAGIC_def)

lemma ends_009:
  assumes "pair_ok P"
  shows "pair_ends K P (run_parent judge_exit (parent_009 (pr_pw P) (pr_cw P) (pr_c P)) (pr_pw P) (pr_cw P), 0, [])
      (Some (run_child (child_traced (pr_cw P) (pr_pw P)) (pr_pw P) (pr_cw P), 0, [])) (Some (new_kid (pr_p P))) 0 0 vs v
    \<longleftrightarrow> v = None"
  using assms pair_neqs [OF assms(1)] by (simp add: pair_progs parent_009_def new_kid_def pair_steps)

lemma ends_013:
  assumes "pair_ok P"
  shows "pair_ends K P (run_parent judge_exit (parent_013 (pr_pw P) (pr_cw P) (pr_c P)) (pr_pw P) (pr_cw P), 0, [])
      (Some (run_child (child_traced (pr_cw P) (pr_pw P)) (pr_pw P) (pr_cw P), 0, [])) (Some (new_kid (pr_p P))) 0 0 vs v
    \<longleftrightarrow> v = None"
  using assms pair_neqs [OF assms(1)] by (simp add: pair_progs parent_013_def new_kid_def pair_steps)

lemma ends_014:
  assumes "pair_ok P"
  shows "pair_ends K P (run_parent judge_exit (parent_014 (pr_pw P) (pr_cw P) (pr_c P)) (pr_pw P) (pr_cw P), 0, [])
      (Some (run_child (child_traced (pr_cw P) (pr_pw P)) (pr_pw P) (pr_cw P), 0, [])) (Some (new_kid (pr_p P))) 0 0 vs v
    \<longleftrightarrow> v = None"
  using assms pair_neqs [OF assms(1)] by (simp add: pair_progs parent_014_def new_kid_def pair_steps ptrace_options_def)

lemma ends_019:
  assumes "pair_ok P"
  shows "pair_ends K P (run_parent judge_exit (parent_019 (pr_pw P) (pr_cw P) (pr_c P)) (pr_pw P) (pr_cw P), 0, [])
      (Some (run_child (child_waits (pr_cw P) (pr_pw P)) (pr_pw P) (pr_cw P), 0, [])) (Some (new_kid (pr_p P))) 0 0 vs v
    \<longleftrightarrow> v = None"
  using assms pair_neqs [OF assms(1)] by (simp add: pair_progs parent_019_def new_kid_def pair_steps)

lemma ends_020:
  assumes "pair_ok P"
  shows "pair_ends K P (run_parent judge_exit (parent_020 (pr_pw P) (pr_cw P) (pr_c P)) (pr_pw P) (pr_cw P), 0, [])
      (Some (run_child (child_waits (pr_cw P) (pr_pw P)) (pr_pw P) (pr_cw P), 0, [])) (Some (new_kid (pr_p P))) 0 0 vs v
    \<longleftrightarrow> v = None"
  using assms pair_neqs [OF assms(1)] by (simp add: pair_progs parent_020_def new_kid_def pair_steps)

lemma ends_018:
  assumes "pair_ok P"
  shows "pair_ends K P (run_parent judge_kill (parent_018 (pr_pw P) (pr_cw P) (pr_c P)) (pr_pw P) (pr_cw P), 0, [])
      (Some (run_child (child_traced (pr_cw P) (pr_pw P)) (pr_pw P) (pr_cw P), 0, [])) (Some (new_kid (pr_p P))) 0 0 vs v
    \<longleftrightarrow> v = None"
  using assms pair_neqs [OF assms(1)] by (simp add: pair_progs parent_018_def new_kid_def pair_steps)

lemma ends_003:
  assumes "pair_ok P" "pk_text K (- 1) = None"
  shows "pair_ends K P (run_parent judge_exit (parent_003 (pr_pw P) (pr_cw P) (pr_c P)) (pr_pw P) (pr_cw P), 0, [])
      (Some (run_child (child_003 (pr_cw P) (pr_pw P)) (pr_pw P) (pr_cw P), 0, [])) (Some (new_kid (pr_p P))) 0 0 vs v
    \<longleftrightarrow> v = Some ''TP failed.''"
  using assms pair_neqs [OF assms(1)] by (simp add: pair_progs parent_003_def new_kid_def pair_steps child_003_def get_or_do_inst_def)

lemma ends_004:
  assumes "pair_ok P"
  shows "user_area K (SErr EIO) \<Longrightarrow>
      pair_ends K P (run_parent judge_exit (parent_004 (pr_pw P) (pr_cw P) (pr_c P)) (pr_pw P) (pr_cw P), 0, [])
        (Some (run_child (child_traced (pr_cw P) (pr_pw P)) (pr_pw P) (pr_cw P), 0, [])) (Some (new_kid (pr_p P))) 0 0 vs v
      \<longleftrightarrow> v = None"
    "user_area K (SOk 0 os) \<Longrightarrow>
      pair_ends K P (run_parent judge_exit (parent_004 (pr_pw P) (pr_cw P) (pr_c P)) (pr_pw P) (pr_cw P), 0, [])
        (Some (run_child (child_traced (pr_cw P) (pr_pw P)) (pr_pw P) (pr_cw P), 0, [])) (Some (new_kid (pr_p P))) 0 0 vs v
      \<longleftrightarrow> v = Some ''TP failed.''"
  using assms pair_neqs [OF assms]
  by (simp_all add: pair_progs parent_004_def expect_EIO_def new_kid_def pair_steps par_user)

lemma ends_007:
  assumes "pair_ok P"
  shows "user_area K (SErr EIO) \<Longrightarrow>
      pair_ends K P (run_parent judge_exit (parent_007 (pr_pw P) (pr_cw P) (pr_c P)) (pr_pw P) (pr_cw P), 0, [])
        (Some (run_child (child_traced (pr_cw P) (pr_pw P)) (pr_pw P) (pr_cw P), 0, [])) (Some (new_kid (pr_p P))) 0 0 vs v
      \<longleftrightarrow> v = None"
    "user_area K (SOk 0 os) \<Longrightarrow>
      pair_ends K P (run_parent judge_exit (parent_007 (pr_pw P) (pr_cw P) (pr_c P)) (pr_pw P) (pr_cw P), 0, [])
        (Some (run_child (child_traced (pr_cw P) (pr_pw P)) (pr_pw P) (pr_cw P), 0, [])) (Some (new_kid (pr_p P))) 0 0 vs v
      \<longleftrightarrow> v = Some ''TP failed.''"
  using assms pair_neqs [OF assms]
  by (simp_all add: pair_progs parent_007_def expect_EIO_def new_kid_def pair_steps par_user)

subsection \<open>Whatever the schedule\<close>

lemma ptrace_settles:
  assumes "grants K" "0 < p"
  shows "settles K p (init_config p ptrace_001 ss vs) None" "settles K p (init_config p ptrace_002 ss vs) None"
    "settles K p (init_config p ptrace_005 ss vs) None" "settles K p (init_config p ptrace_009 ss vs) None"
    "settles K p (init_config p ptrace_013 ss vs) None" "settles K p (init_config p ptrace_014 ss vs) None"
    "settles K p (init_config p ptrace_018 ss vs) None" "settles K p (init_config p ptrace_019 ss vs) None"
    "settles K p (init_config p ptrace_020 ss vs) None"
    "pk_text K (- 1) = None \<Longrightarrow> settles K p (init_config p ptrace_003 ss vs) (Some ''TP failed.'')"
    "user_area K (SErr EIO) \<Longrightarrow> settles K p (init_config p ptrace_004 ss vs) None"
    "user_area K (SErr EIO) \<Longrightarrow> settles K p (init_config p ptrace_007 ss vs) None"
    "user_area K (SOk 0 os) \<Longrightarrow> settles K p (init_config p ptrace_004 ss vs) (Some ''TP failed.'')"
    "user_area K (SOk 0 os) \<Longrightarrow> settles K p (init_config p ptrace_007 ss vs) (Some ''TP failed.'')"
proof -
  obtain P where P: "pair_ok P" "p = pr_p P"
    and start: "\<And>judge child parent v.
      settles K p (init_config p (ptrace_run (\<lambda>k. k) judge child parent) ss vs) v \<longleftrightarrow>
      pair_ends K P (run_parent judge (parent (pr_pw P) (pr_cw P) (pr_c P)) (pr_pw P) (pr_cw P), 0, [])
        (Some (run_child (child (pr_cw P) (pr_pw P)) (pr_pw P) (pr_cw P), 0, [])) (Some (new_kid p)) 0 0 (\<lambda>_. vs) v"
    using ptrace_start [OF assms, of ss vs] by metis
  note cases = ends_001 ends_002 ends_003 ends_004 ends_005 ends_007 ends_009 ends_013 ends_014 ends_018 ends_019 ends_020
  show "settles K p (init_config p ptrace_001 ss vs) None" "settles K p (init_config p ptrace_002 ss vs) None"
    "settles K p (init_config p ptrace_005 ss vs) None" "settles K p (init_config p ptrace_009 ss vs) None"
    "settles K p (init_config p ptrace_013 ss vs) None" "settles K p (init_config p ptrace_014 ss vs) None"
    "settles K p (init_config p ptrace_018 ss vs) None" "settles K p (init_config p ptrace_019 ss vs) None"
    "settles K p (init_config p ptrace_020 ss vs) None"
    "pk_text K (- 1) = None \<Longrightarrow> settles K p (init_config p ptrace_003 ss vs) (Some ''TP failed.'')"
    "user_area K (SErr EIO) \<Longrightarrow> settles K p (init_config p ptrace_004 ss vs) None"
    "user_area K (SErr EIO) \<Longrightarrow> settles K p (init_config p ptrace_007 ss vs) None"
    "user_area K (SOk 0 os) \<Longrightarrow> settles K p (init_config p ptrace_004 ss vs) (Some ''TP failed.'')"
    "user_area K (SOk 0 os) \<Longrightarrow> settles K p (init_config p ptrace_007 ss vs) (Some ''TP failed.'')"
    unfolding ptrace_001_def ptrace_002_def ptrace_003_def ptrace_004_def ptrace_005_def ptrace_007_def ptrace_009_def
      ptrace_013_def ptrace_014_def ptrace_018_def ptrace_019_def ptrace_020_def start
    unfolding P(2) by (simp_all add: cases [OF P(1)])
qed

text \<open>A kernel that does so.\<close>

definition plain_pkernel :: "sysres \<Rightarrow> pkernel" where
  "plain_pkernel res =
     \<lparr>pk_newpid = (\<lambda>w. Some (1 + foldr max (w_pids w) 0)),
      pk_newmap = (\<lambda>w. find (\<lambda>b. b \<notin> set (w_maps w)) [0x1000, 0x2000, 0x3000]),
      pk_text = (\<lambda>a. None),
      pk_other = (\<lambda>p c w. (res, w))\<rparr>"

lemma foldr_max_ge: "x \<in> set xs \<Longrightarrow> (x::int) \<le> foldr max xs 0" "0 \<le> foldr max xs (0::int)"
  by (induction xs) auto

lemma plain_grants: "grants (plain_pkernel res)"
  unfolding grants_def
proof (intro conjI allI impI)
  fix w :: world
  assume "dom (w_procs w) \<subseteq> set (w_pids w)"
  moreover have "1 + foldr max (w_pids w) 0 \<notin> set (w_pids w)" using foldr_max_ge(1) [of _ "w_pids w"] by fastforce
  ultimately have "w_procs w (1 + foldr max (w_pids w) 0) = None" by (meson domIff subsetD)
  then show "\<exists>c. pk_newpid (plain_pkernel res) w = Some c \<and> 0 < c \<and> w_procs w c = None"
    using foldr_max_ge(2) [of "w_pids w"] by (simp add: plain_pkernel_def)
next
  fix w :: world
  assume "length (w_maps w) < 2"
  then obtain b where "w_maps w = [] \<or> w_maps w = [b]" by (cases "w_maps w"; cases "tl (w_maps w)") auto
  then show "\<exists>b. pk_newmap (plain_pkernel res) w = Some b \<and> b \<noteq> 0 \<and> b \<notin> set (w_maps w)"
    by (auto simp: plain_pkernel_def)
qed



text \<open>
  C14. The cases on the user area pass, under every schedule, where the requests are refused with
  \<^verbatim>\<open>EIO\<close>, and fail where a kernel grants them, as ptrace(2) has it for the registers. The case that reads
  an instruction fails on this architecture, where the helper supplies no address to read.
\<close>

theorem ptrace_expected_errors:
  assumes "grants K" "0 < p" "q \<in> set [ptrace_004, ptrace_007]"
  shows "(user_area K (SErr EIO) \<longrightarrow> always_ends K (init_config p q ss vs) p None) \<and>
    (user_area K (SOk 0 os) \<longrightarrow> always_ends K (init_config p q ss vs) p (Some ''TP failed.'')) \<and>
    (pk_text K (- 1) = None \<longrightarrow> always_ends K (init_config p ptrace_003 ss vs) p (Some ''TP failed.''))"
  using assms(3) ptrace_settles [OF assms(1,2)] by (auto intro!: settles_all)

theorem ptrace_expected_errors_witness:
  "always_ends (plain_pkernel (SErr EIO)) (init_config 1 ptrace_004 (\<lambda>_. 0) (\<lambda>_. 0)) 1 None \<and>
   always_ends (plain_pkernel (SOk 0 [OInt 7])) (init_config 1 ptrace_004 (\<lambda>_. 0) (\<lambda>_. 0)) 1 (Some ''TP failed.'') \<and>
   always_ends (plain_pkernel (SErr EIO)) (init_config 1 ptrace_003 (\<lambda>_. 0) (\<lambda>_. 0)) 1 (Some ''TP failed.'')"
  using ptrace_expected_errors [OF plain_grants, of 1 ptrace_004 "SErr EIO" "\<lambda>_. 0" "\<lambda>_. 0" "[]"]
    ptrace_expected_errors [OF plain_grants, of 1 ptrace_004 "SOk 0 [OInt 7]" "\<lambda>_. 0" "\<lambda>_. 0" "[OInt 7]"]
  by (simp add: user_area_def plain_pkernel_def)

subsection \<open>Cases that cannot pass\<close>

text \<open>The values a program can return.\<close>

lemma set_call: "v \<in> set_prog (call q f) \<longleftrightarrow> (\<exists>a \<in> set_prog q. v \<in> set_prog (f a))"
  by (induction q) auto

lemma set_Sys: "v \<in> set_prog (Sys c k) \<longleftrightarrow> (\<exists>r os. v \<in> set_prog (k (SOk r os))) \<or> (\<exists>e. v \<in> set_prog (k (SErr e)))"
  by simp (metis sysres.exhaust)

lemma set_sys_int [simp]: "v \<in> set_prog (sys_int c k) \<longleftrightarrow> (\<exists>r. v \<in> set_prog (k r))"
  unfolding sys_int_def set_Sys by auto

lemma set_sys_ptr [simp]: "v \<in> set_prog (sys_ptr c k) \<Longrightarrow> \<exists>r. v \<in> set_prog (k r)"
  by (auto simp: sys_ptr_def)

lemma set_wait_status: "v \<in> set_prog (wait_status c k) \<Longrightarrow> \<exists>p s. v \<in> set_prog (k p s)"
  unfolding wait_status_def sys_out_def set_Sys by (auto split: if_splits)

lemma set_ptrace_peek: "v \<in> set_prog (ptrace_peek req c k) \<Longrightarrow> \<exists>x. v \<in> set_prog (k x)"
  unfolding ptrace_peek_def set_Sys by auto

lemma set_perror [simp]: "set_prog (perror s k) = set_prog k"
  by (simp add: perror_def)

lemma set_cont: "v \<in> set_prog (cont c r) \<Longrightarrow> v = - 1 \<or> v = r"
  by (auto simp: cont_def continue_child_def split: if_splits)

lemma set_wait_stop: "v \<in> set_prog (wait_stop c cpid k) \<Longrightarrow> v = - 1 \<or> v \<in> set_prog k"
  by (auto simp: wait_stop_def split: if_splits dest!: set_wait_status)

lemma set_stop_child: "v \<in> set_prog (stop_child s w c k) \<Longrightarrow> v = - 1 \<or> v \<in> set_prog k"
  by (auto simp: stop_child_def sem_wait_def sem_post_def split: if_splits dest!: set_wait_stop)

lemma set_peek_check: "v \<in> set_prog (peek_check what x bad k) \<Longrightarrow> v \<in> set_prog bad \<or> v \<in> set_prog k"
  by (auto simp: peek_check_def split: if_splits)

text \<open>Where the parent's function returns no 0, the case has no way to pass.\<close>

lemma ptrace_run_fails:
  assumes "\<And>s t c v. v \<in> set_prog (parent s t c) \<Longrightarrow> v \<noteq> 0"
  shows "None \<notin> set_prog (ptrace_run (\<lambda>k. k) judge_exit child parent)"
  using assms(1)
  by (auto simp: ptrace_run_def run_parent_def run_child_def unmap_sems_def judge_exit_def set_call
      split: if_splits dest!: set_sys_ptr set_wait_status)

lemma parents_fail:
  "v \<in> set_prog (parent_010 s t c) \<Longrightarrow> v \<noteq> 0" "v \<in> set_prog (parent_011 at s t c) \<Longrightarrow> v \<noteq> 0"
  "v \<in> set_prog (parent_012 s t c) \<Longrightarrow> v \<noteq> 0" "v \<in> set_prog (parent_016 s t c) \<Longrightarrow> v \<noteq> 0"
  by (auto simp: parent_010_def parent_011_def parent_012_def parent_016_def setregset_check_def set_hw_watchpt_def
      set_hw_breakpt_def get_check_syscallno_def split: if_splits
      dest!: set_stop_child set_cont set_wait_stop set_ptrace_peek set_peek_check)

lemma cases_fail:
  "None \<notin> set_prog ptrace_010" "None \<notin> set_prog (ptrace_011 at)" "None \<notin> set_prog ptrace_012" "None \<notin> set_prog ptrace_016"
  unfolding ptrace_010_def ptrace_011_def ptrace_012_def ptrace_016_def
  by (rule ptrace_run_fails, erule parents_fail)+

text \<open>
  C13. On this architecture the cases on registers, watchpoints, breakpoint registers and system call stops
  cannot pass: on any kernel whatsoever and under any schedule, no point of any run has the parent at the
  verdict that the test passed. The helpers they rely on answer that they failed.
\<close>

theorem ptrace_x86_never_pass:
  assumes "q \<in> set [ptrace_010, ptrace_011 at, ptrace_012, ptrace_016]" "path K (init_config p q ss vs) ls e"
  shows "verdict_of p' e \<noteq> Some None"
proof -
  have "None \<notin> set_prog q"
    using assms(1) cases_fail by auto
  have "None \<notin> set_prog (fst t)" if "fst e p' = Some t" for t
    by (rule path_verdicts [OF assms(2) _ that]) (use \<open>None \<notin> set_prog q\<close> in \<open>auto simp: init_config_def split: if_splits\<close>)
  then show ?thesis by (force simp: verdict_of_def split: option.splits prod.splits prog.splits)
qed

theorem ptrace_x86_never_pass_witness:
  "verdict_of 1 (init_config 1 ptrace_016 (\<lambda>_. 0) (\<lambda>_. 0)) \<noteq> Some None"
  using ptrace_x86_never_pass [of ptrace_016 0, OF _ path_Nil] by simp

end
