(* ===== verification/Spec2Isabelle.thy ===== *)
theory Spec2Isabelle
  imports Case_Table Ptrace_Runs
begin

text \<open>
  \<^bold>\<open>A verification of the McKernel OS test set (mckernel-ostest)\<close>

  \<^bold>\<open>The program.\<close> The repository is a set of user programs that test an operating system
  kernel. The main one, \<^verbatim>\<open>src/test_mck/src\<close>, is a driver (\<^verbatim>\<open>test_mck.c\<close>) with a table of test cases, one
  directory per suite and one C file per case: the driver reads a suite and a number from the command
  line, looks the case up, calls its \<^verbatim>\<open>setup\<close>, \<^verbatim>\<open>run\<close> and \<^verbatim>\<open>teardown\<close>, and reports the message that \<^verbatim>\<open>run\<close>
  returned. A case exercises one system call and checks what it sees with \<^verbatim>\<open>tp_assert\<close>. A kernel module,
  \<^verbatim>\<open>src/test_drv\<close>, provides the devices that the suite \<^verbatim>\<open>mmap_dev\<close> maps.

  \<^bold>\<open>The model.\<close> A test program is a tree of interactions (\<^verbatim>\<open>Prog\<close>): what it does to the world next and
  how it goes on for every answer. The kernel under test is not in the repository: it is a parameter, a
  record of functions on a state type of its own, and \<^verbatim>\<open>exec\<close> runs a program against it to an outcome (a
  returned value, an exit status, a fatal signal, undefined behaviour). What a suite expects of the
  kernel is stated as hypotheses \<^verbatim>\<open>conforms_*\<close>, one per group of system calls, each written from the
  manual pages as a small machine that the kernel simulates or as a relation it keeps to. The theories:

  \<^item> \<^verbatim>\<open>Mck_Prelude\<close>: C types, ABI constants, rule collections, generic lemmas.
  \<^item> \<^verbatim>\<open>Prog\<close>: system calls, programs, \<^verbatim>\<open>exec\<close>, \<^verbatim>\<open>tp_assert\<close>.
  \<^item> \<^verbatim>\<open>Clib\<close>: what the sources use of the C library: number conversion, \<^verbatim>\<open>getopt\<close> and \<^verbatim>\<open>getopt_long\<close> with
    permutation, \<^verbatim>\<open>fgets\<close>, \<^verbatim>\<open>strstr\<close>, \<^verbatim>\<open>memset\<close>, the wrappers that set \<^verbatim>\<open>errno\<close>.
  \<^item> \<^verbatim>\<open>Kernel_Spec\<close>, \<^verbatim>\<open>Vm_Spec\<close>: the documented behaviour of credentials, resource limits, scheduling,
    files and anonymous memory. \<^verbatim>\<open>Map_Spec\<close>: memory that shows files and devices, with copy on write.
    \<^verbatim>\<open>Drv_Spec\<close>: what a Linux driver is given by the kernel it is part of, with its resources as a ledger.
  \<^item> \<^verbatim>\<open>Runs\<close>: the judgement that a program runs to an outcome, with one rule per operation; \<^verbatim>\<open>Map_Spec\<close> adds
    a rule for each call on files and mappings.
  \<^item> \<^verbatim>\<open>Ref_Kernel\<close>, \<^verbatim>\<open>Ref_Map\<close>: kernels that have the documented behaviour, so that every hypothesis is
    satisfiable; the witnesses run on them.
  \<^item> \<^verbatim>\<open>Test_Mck\<close>: \<^verbatim>\<open>test_mck.c\<close> and \<^verbatim>\<open>test_mck.h\<close>: the table and its lookup, the command line, the run and its
    report, temporary files, alignment, number arguments.
  \<^item> \<^verbatim>\<open>Test_Drv\<close>, \<^verbatim>\<open>Drv_Life\<close>: the kernel module: set-up, clean-up, the entries under \<^verbatim>\<open>/proc\<close>, the file
    operations of the two devices, and what they establish over the life of the module.
  \<^item> \<^verbatim>\<open>Mremap_Anon\<close>, \<^verbatim>\<open>Mremap_Suite\<close>: the suite \<^verbatim>\<open>mremap_mmap_anon\<close>: its shared functions, its 68 cases.
  \<^item> \<^verbatim>\<open>Cred_Suites\<close>: the fourteen suites on user and group identifiers; the locale \<^verbatim>\<open>id_family\<close> states what a
    test body relies on and is interpreted for users and for groups.
  \<^item> \<^verbatim>\<open>Rlimit_Suites\<close>, \<^verbatim>\<open>Sched_Suites\<close>: the suites on resource limits and scheduling.
  \<^item> \<^verbatim>\<open>Mmap_Dev\<close>: the suite \<^verbatim>\<open>mmap_dev\<close>, and that the module's second device refines the device of \<^verbatim>\<open>Map_Spec\<close>.
  \<^item> \<^verbatim>\<open>Filemap\<close>: the suites \<^verbatim>\<open>mmap_file\<close> (49 cases), \<^verbatim>\<open>mmap_populate\<close> and \<^verbatim>\<open>mmap_locked\<close>.
  \<^item> \<^verbatim>\<open>Mem_Suites\<close>: the suites \<^verbatim>\<open>mprotect\<close> (8 cases) and \<^verbatim>\<open>remap_file_pages\<close>.
  \<^item> \<^verbatim>\<open>Case_Table\<close>: the table with all modelled cases of one process.
  \<^item> \<^verbatim>\<open>Proc_Spec\<close>: a machine of several processes with fork, waiting, signals, semaphores and \<^verbatim>\<open>ptrace\<close>;
    \<^verbatim>\<open>Schedules\<close>: steps of one process that commute with those of the others, so that one schedule stands
    for all; \<^verbatim>\<open>Ptrace_Suite\<close>: the 21 \<^verbatim>\<open>ptrace\<close> cases and the x86 helpers; \<^verbatim>\<open>Ptrace_Runs\<close>: their outcomes.

  \<^bold>\<open>What is shown.\<close> For the driver: which case a command line runs and how its verdict becomes
  the report and the exit status, that success is never reported without a case that passed, and
  what the helpers compute (with their wrap-around). For the module: that unloading gives back what
  loading acquired, whatever was asked in between, and which pages the fault handler serves. For a suite:
  on every kernel with the documented behaviour each case ends, with the outcome the theorem names and
  the condition under which it is the verdict of success; several theorems also give the state a case
  leaves. For \<^verbatim>\<open>ptrace\<close>: nine cases pass under every schedule of parent and child, four pass on no kernel,
  and the cases that expect an error do so under the stated conditions; cases 000, 006, 008, 015 and 017
  are defined and nothing is claimed of them. One theorem holds on every kernel: two pairs of \<^verbatim>\<open>getrlimit\<close>
  cases exclude each other.

  \<^bold>\<open>Bounds.\<close> Loops of the sources are recursions on the data they run over (arguments, table
  entries, pages, the bytes of a range), so no fuel is needed. Addresses, sizes and limits are 64-bit
  words, identifiers 32-bit words; results of calls are integers and a conversion to \<^verbatim>\<open>int\<close> is written
  where the source narrows. A page counter of type \<^verbatim>\<open>int\<close> bounds the size \<^verbatim>\<open>remap_file_pages\<close> is given:
  below \<^verbatim>\<open>2^43\<close> bytes it does not overflow. For \<^verbatim>\<open>ptrace\<close> every run of a case is shorter than a number the
  theorem gives the existence of.

  \<^bold>\<open>Not modelled.\<close> The other suites that create processes or threads, wait, or receive asynchronous
  signals: apart from \<^verbatim>\<open>ptrace\<close> they need threads on shared memory, handlers that interrupt a program
  between two steps, or other program images, which the machine of \<^verbatim>\<open>Proc_Spec\<close> has not. The suites whose
  verdict depends on clocks or on the number and placement of processors, on large pages or on the amount
  of memory, and those on locking, advice, residency and synchronisation of pages, which \<^verbatim>\<open>Map_Spec\<close> has
  only as calls that leave the contents alone. The inline assembly of \<^verbatim>\<open>fpregs\<close>, the stand-alone sample
  programs, and the shell and awk scripts under \<^verbatim>\<open>util\<close>. Of the modelled parts: the messages \<^verbatim>\<open>getopt\<close>
  itself writes to the standard error stream, and the rendering of format strings (output is recorded as
  the format and its arguments).
\<close>

section \<open>Properties that span components\<close>

text \<open>
  C1. Every case of the table can be run: the command line with its suite and number makes \<^verbatim>\<open>main\<close>
  run exactly that case with the remaining arguments. No two cases of the table share suite and number.
\<close>

theorem every_case_reachable:
  assumes "tc \<in> set (test_cases cur mx)"
  shows "main suites (test_cases cur mx) (app # ''-s'' # test_suite tc # ''-n'' # dec_int (num tc) # ''--'' # args) =
    main_run tc (app # args) \<and> distinct (map (\<lambda>tc. (test_suite tc, num tc)) (test_cases cur mx))"
  using main_table [OF assms] distinct_keys by (simp add: key_def [abs_def])

theorem every_case_reachable_witness:
  "main [] (test_cases 0 0) (''mck'' # ''-s'' # ''setuid'' # ''-n'' # dec_int 0 # ''--'' # [''-u'', ''5'']) =
    main_run (erase V_id1 un_id1 setuid_case) [''mck'', ''-u'', ''5'']"
  using every_case_reachable [of "erase V_id1 un_id1 setuid_case" 0 0 "[]" "''mck''" "[''-u'', ''5'']"]
  by (simp add: test_cases_def setuid_case_def)

text \<open>
  C2. The suite \<^verbatim>\<open>setrlimit\<close> from the command line: on a kernel with the documented behaviour the
  program returns \<^verbatim>\<open>EXIT_SUCCESS\<close>, with the line \<^verbatim>\<open>RESULT: ok\<close>, exactly when the kernel may
  grant the request of the case, and the resource limits end as they began in either case.
\<close>

theorem setrlimit_command:
  fixes K :: "'s kernel"
  assumes K: "conforms_rlim K view" and wf: "rlims_wf (view (kst p))"
    and c: "(n, run) \<in> set setrlimit_runs"
  shows "\<exists>p'. exec K (main suites (test_cases cur mx)
       (app # ''-s'' # ''setrlimit'' # ''-n'' # dec_int n # ''--'' # args)) p =
     (Returned (if setrlimit_granted n (view (kst p)) then 0 else 1), p') \<and>
     view (kst p') = view (kst p) \<and>
     (last (out p') = (Stdout, ''RESULT: ok\<newline>'', []) \<longleftrightarrow> setrlimit_granted n (view (kst p)))"
proof -
  let ?tc = "erase V_unit un_unit (rlimit_case ''setrlimit'' (n, run))"
  let ?p = "p\<lparr>out := out p @ banner ?tc args\<rparr>"
  have tc: "?tc \<in> set (test_cases cur mx)"
    using c by (force simp: test_cases_def setrlimit_cases_def)
  have e: "exec K (run_test_case ?tc (app # args)) ?p = exec K (run n None) ?p"
    by (simp add: run_test_case_erase exec_run_rlimit_case)
  obtain v p' where r: "exec K (run n None) ?p = (Returned v, p')"
      "v = None \<longleftrightarrow> setrlimit_granted n (view (kst p))" "view (kst p') = view (kst p)"
    using setrlimit_run_correct [OF K _ c, of ?p None] wf by auto
  have s: "test_suite ?tc = ''setrlimit''" "num ?tc = n" by (simp_all add: rlimit_case_def)
  show ?thesis
    using main_table [OF tc, of suites app args, unfolded s] e r
    by (cases v) (simp_all add: exec_main_run result_line_def)
qed

theorem setrlimit_command_witness:
  "fst (exec ref_kernel (main [] (test_cases 0 0)
     (''mck'' # ''-s'' # ''setrlimit'' # ''-n'' # dec_int 9 # ''--'' # [])) init_process) = Returned 0"
proof -
  have "rlims_wf (w_rlims (kst init_process))"
    by (simp add: rlims_wf_def init_process_def init_world_def)
  from setrlimit_command [OF ref_conforms_rlim this, of 9 setrlimit_009 "[]" 0 0 "''mck''" "[]"]
  show ?thesis
    by (auto simp: setrlimit_runs_def setrlimit_granted_def setrlimit_request_def init_process_def init_world_def)
qed

end
